(* ===== verification/Rust_Prelude.thy ===== *)
theory Rust_Prelude
  imports "HOL-Library.Word" "HOL-Library.State_Monad"
begin

text \<open>
  The shared vocabulary of the development: the widths of the Rust integers, the result of a
  Rust call (a value, an error, or a panic), the state monad in which the handlers are written,
  a weakest-precondition transformer whose equations drive the straight-line proofs, and the
  locale \<open>frame\<close>, which lifts a reflexive and transitive relation on states through every
  combinator the handlers use.
\<close>

section \<open>Machine integers\<close>

type_synonym u16 = "16 word"
type_synonym u32 = "32 word"
type_synonym i32 = "32 word" \<comment> \<open>read through \<open>sint\<close> where the sign matters\<close>

section \<open>Results\<close>

text \<open>
  \<open>Result\<close> with one more constructor: a slice out of range or off a character boundary makes
  the Rust program panic, and a panic is a value of the model.
\<close>

datatype ('e, 'a) outcome = Ok 'a | Err 'e | Panicked

text \<open>The operator \<open>?\<close> on pure results, and \<open>Result::map_err\<close> (also \<open>anyhow::Context\<close>).\<close>

fun and_then :: "('e, 'a) outcome \<Rightarrow> ('a \<Rightarrow> ('e, 'b) outcome) \<Rightarrow> ('e, 'b) outcome" where
  "and_then (Ok a) f = f a"
| "and_then (Err e) f = Err e"
| "and_then Panicked f = Panicked"

fun map_err :: "('e \<Rightarrow> 'f) \<Rightarrow> ('e, 'a) outcome \<Rightarrow> ('f, 'a) outcome" where
  "map_err f (Ok a) = Ok a"
| "map_err f (Err e) = Err (f e)"
| "map_err f Panicked = Panicked"

fun ok_or :: "'e \<Rightarrow> 'a option \<Rightarrow> ('e, 'a) outcome" where
  "ok_or e None = Err e"
| "ok_or e (Some a) = Ok a"

lemma and_then_eq_Ok_iff: "and_then r f = Ok b \<longleftrightarrow> (\<exists>a. r = Ok a \<and> f a = Ok b)"
  by (cases r) auto

lemma and_then_eq_Panicked_iff:
  "and_then r f = Panicked \<longleftrightarrow> r = Panicked \<or> (\<exists>a. r = Ok a \<and> f a = Panicked)"
  by (cases r) auto

lemma map_err_eq_Ok_iff [simp]: "map_err f r = Ok a \<longleftrightarrow> r = Ok a"
  by (cases r) auto

lemma map_err_eq_Panicked_iff [simp]: "map_err f r = Panicked \<longleftrightarrow> r = Panicked"
  by (cases r) auto

section \<open>Stateful code\<close>

abbreviation ret :: "'a \<Rightarrow> ('s, 'a) state" where
  "ret \<equiv> State_Monad.return"

definition gets :: "('s \<Rightarrow> 'a) \<Rightarrow> ('s, 'a) state" where
  "gets f = State (\<lambda>s. (f s, s))"

definition modify :: "('s \<Rightarrow> 's) \<Rightarrow> ('s, unit) state" where
  "modify f = State (\<lambda>s. ((), f s))"

text \<open>The operator \<open>?\<close> inside a stateful function: an error or a panic ends the function.\<close>

definition try_bind ::
  "('s, ('e, 'a) outcome) state \<Rightarrow> ('a \<Rightarrow> ('s, ('e, 'b) outcome) state) \<Rightarrow> ('s, ('e, 'b) outcome) state"
where
  "try_bind m f = do {
     r \<leftarrow> m;
     (case r of Ok a \<Rightarrow> f a | Err e \<Rightarrow> ret (Err e) | Panicked \<Rightarrow> ret Panicked)
   }"

fun for_each :: "('a \<Rightarrow> ('s, unit) state) \<Rightarrow> 'a list \<Rightarrow> ('s, unit) state" where
  "for_each f [] = ret ()"
| "for_each f (x # xs) = do { f x; for_each f xs }"

lemma run_gets [simp]: "run_state (gets f) s = (f s, s)"
  by (simp add: gets_def)

lemma run_modify [simp]: "run_state (modify f) s = ((), f s)"
  by (simp add: modify_def)

lemma run_try_bind:
  "run_state (try_bind m f) s =
     (case run_state m s of
        (Ok a, t) \<Rightarrow> run_state (f a) t
      | (Err e, t) \<Rightarrow> (Err e, t)
      | (Panicked, t) \<Rightarrow> (Panicked, t))"
  by (simp add: try_bind_def split: prod.splits outcome.splits)

subsection \<open>Weakest preconditions\<close>

named_theorems wp_simps

definition wp :: "('s, 'a) state \<Rightarrow> ('a \<Rightarrow> 's \<Rightarrow> bool) \<Rightarrow> 's \<Rightarrow> bool" where
  "wp m Q s = (case run_state m s of (a, t) \<Rightarrow> Q a t)"

lemma wp_ret [wp_simps]: "wp (ret a) Q s = Q a s"
  by (simp add: wp_def)

lemma wp_gets [wp_simps]: "wp (gets f) Q s = Q (f s) s"
  by (simp add: wp_def)

lemma wp_modify [wp_simps]: "wp (modify f) Q s = Q () (f s)"
  by (simp add: wp_def)

lemma wp_bind [wp_simps]: "wp (State_Monad.bind m f) Q s = wp m (\<lambda>a t. wp (f a) Q t) s"
  by (simp add: wp_def split: prod.splits)

lemma wp_try_bind [wp_simps]:
  "wp (try_bind m f) Q s =
     wp m (\<lambda>r t. case r of Ok a \<Rightarrow> wp (f a) Q t | Err e \<Rightarrow> Q (Err e) t | Panicked \<Rightarrow> Q Panicked t) s"
  by (simp add: wp_def run_try_bind split: prod.splits outcome.splits)

lemma wpI: "(\<And>a t. run_state m s = (a, t) \<Longrightarrow> Q a t) \<Longrightarrow> wp m Q s"
  by (simp add: wp_def split: prod.splits)

lemma wpD: "wp m Q s \<Longrightarrow> run_state m s = (a, t) \<Longrightarrow> Q a t"
  by (simp add: wp_def)

lemma wp_mono: "wp m Q s \<Longrightarrow> (\<And>a t. Q a t \<Longrightarrow> Q' a t) \<Longrightarrow> wp m Q' s"
  by (simp add: wp_def split: prod.splits)

lemma wp_run: "wp m Q s \<longleftrightarrow> Q (fst (run_state m s)) (snd (run_state m s))"
  by (simp add: wp_def split: prod.splits)

lemma wp_eq_run: "wp m (\<lambda>a t. (a, t) = x) s \<longleftrightarrow> run_state m s = x"
  by (simp add: wp_run)

subsection \<open>Frames\<close>

text \<open>
  \<open>state_io_rel R m\<close>: every run of \<open>m\<close> relates its start state to its end state by \<open>R\<close>.
  For a reflexive and transitive \<open>R\<close> this goes through sequencing, case distinctions and
  loops. An invariant \<open>I\<close> is the relation \<open>\<lambda>s t. I s \<longrightarrow> I t\<close>.
\<close>

lemma state_io_rel_gets: "(\<And>s. R s s) \<Longrightarrow> state_io_rel R (gets f)"
  by (simp add: state_io_rel_def)

lemma state_io_rel_modify: "(\<And>s. R s (f s)) \<Longrightarrow> state_io_rel R (modify f)"
  by (simp add: state_io_rel_def)

locale frame =
  fixes R :: "'s \<Rightarrow> 's \<Rightarrow> bool"
  assumes R_refl: "R s s"
    and R_trans: "R s t \<Longrightarrow> R t u \<Longrightarrow> R s u"
begin

lemma keeps_ret: "state_io_rel R (ret a)"
  by (simp add: state_io_rel_def R_refl)

lemma keeps_gets: "state_io_rel R (gets f)"
  by (rule state_io_rel_gets) (rule R_refl)

lemma keeps_modify: "(\<And>s. R s (f s)) \<Longrightarrow> state_io_rel R (modify f)"
  by (rule state_io_rel_modify)

lemma keeps_bind:
  assumes "state_io_rel R m" and "\<And>a. state_io_rel R (f a)"
  shows "state_io_rel R (State_Monad.bind m f)"
  unfolding state_io_rel_def
proof
  fix s
  obtain a t where m: "run_state m s = (a, t)" by (cases "run_state m s")
  from assms(1) m have "R s t" by (metis state_io_relD)
  moreover have "R t (snd (run_state (f a) t))"
    using assms(2) by (simp add: state_io_rel_def)
  ultimately show "R s (snd (run_state (State_Monad.bind m f) s))"
    using m by (simp add: R_trans)
qed

lemma keeps_case_outcome:
  "(\<And>a. state_io_rel R (f a)) \<Longrightarrow> (\<And>e. state_io_rel R (g e)) \<Longrightarrow> state_io_rel R h \<Longrightarrow>
   state_io_rel R (case r of Ok a \<Rightarrow> f a | Err e \<Rightarrow> g e | Panicked \<Rightarrow> h)"
  by (cases r) simp_all

lemma keeps_case_option:
  "state_io_rel R g \<Longrightarrow> (\<And>a. state_io_rel R (f a)) \<Longrightarrow>
   state_io_rel R (case x of None \<Rightarrow> g | Some a \<Rightarrow> f a)"
  by (cases x) simp_all

lemma keeps_if:
  "state_io_rel R m \<Longrightarrow> state_io_rel R n \<Longrightarrow> state_io_rel R (if b then m else n)"
  by simp

lemma keeps_try_bind:
  "state_io_rel R m \<Longrightarrow> (\<And>a. state_io_rel R (f a)) \<Longrightarrow> state_io_rel R (try_bind m f)"
  unfolding try_bind_def by (intro keeps_bind keeps_case_outcome keeps_ret)

lemma keeps_for_each: "(\<And>x. state_io_rel R (f x)) \<Longrightarrow> state_io_rel R (for_each f xs)"
  by (induction xs) (auto intro!: keeps_ret keeps_bind)

lemmas keeps_intros =
  keeps_ret keeps_gets keeps_bind keeps_case_outcome keeps_case_option keeps_if
  keeps_try_bind keeps_for_each

end

text \<open>Every invariant is a frame; the state components a handler leaves alone are frames too.\<close>

lemma frame_invariant: "frame (\<lambda>s t. I s \<longrightarrow> I t)"
  by unfold_locales auto

lemma frame_component: "frame (\<lambda>s t. f t = f s)"
  by unfold_locales auto

section \<open>Loops over the elements of a list\<close>

lemma for_each_modify: "run_state (for_each (\<lambda>x. modify (f x)) xs) s = ((), fold f xs s)"
  by (induction xs arbitrary: s) auto

lemma for_each_append:
  "for_each f (xs @ ys) = State_Monad.bind (for_each f xs) (\<lambda>_. for_each f ys)"
  by (induction xs) (auto intro: state_ext split: prod.splits)

end
