(* ===== verification/Rust_Str.thy ===== *)
theory Rust_Str
  imports Rust_Prelude "HOL-Library.Sublist"
begin

text \<open>
  The part of Rust's \<open>str\<close> the program uses. A \<open>String\<close> is its UTF-8 encoding, a list of
  bytes (Isabelle's \<open>char\<close>), so \<open>length\<close> is Rust's \<open>len()\<close>, \<open>find\<close> returns a byte offset,
  and a slice that does not fall on character boundaries panics.
\<close>

section \<open>Bytes\<close>

definition byte :: "char \<Rightarrow> nat" where
  "byte c = of_char c"

text \<open>Continuation bytes of a multi-byte character are \<open>10xxxxxx\<close>.\<close>

definition is_cont :: "char \<Rightarrow> bool" where
  "is_cont c \<longleftrightarrow> 128 \<le> byte c \<and> byte c < 192"

definition is_ascii :: "char \<Rightarrow> bool" where
  "is_ascii c \<longleftrightarrow> byte c < 128"

lemma ascii_not_cont: "is_ascii c \<Longrightarrow> \<not> is_cont c"
  by (simp add: is_ascii_def is_cont_def)

text \<open>
  What the proofs use of UTF-8: no continuation byte stands at the start of a string or right
  after an ASCII byte. Every valid UTF-8 string, hence every Rust \<open>str\<close>, satisfies it
  (\<open>valid_utf8_utf8\<close> in \<open>Rust_Str_Facts\<close>). What \<open>String::from_utf8\<close> accepts is \<open>valid_utf8\<close> below.
\<close>

fun utf8_from :: "bool \<Rightarrow> string \<Rightarrow> bool" where
  "utf8_from b [] = True"
| "utf8_from b (c # s) = ((b \<longrightarrow> \<not> is_cont c) \<and> utf8_from (is_ascii c) s)"

definition utf8 :: "string \<Rightarrow> bool" where
  "utf8 s = utf8_from True s"

text \<open>
  Well-formed UTF-8, as \<open>String::from_utf8\<close> checks it: the first byte of a character says in which ranges
  the bytes that follow must be (no overlong forms, no surrogates, nothing above U+10FFFF).
\<close>

definition utf8_lead :: "nat \<Rightarrow> (nat \<times> nat) list option" where
  "utf8_lead b =
     (if b < 0x80 then Some []
      else if b < 0xC2 then None
      else if b < 0xE0 then Some [(0x80, 0xBF)]
      else if b = 0xE0 then Some [(0xA0, 0xBF), (0x80, 0xBF)]
      else if b = 0xED then Some [(0x80, 0x9F), (0x80, 0xBF)]
      else if b < 0xF0 then Some [(0x80, 0xBF), (0x80, 0xBF)]
      else if b = 0xF0 then Some [(0x90, 0xBF), (0x80, 0xBF), (0x80, 0xBF)]
      else if b < 0xF4 then Some [(0x80, 0xBF), (0x80, 0xBF), (0x80, 0xBF)]
      else if b = 0xF4 then Some [(0x80, 0x8F), (0x80, 0xBF), (0x80, 0xBF)]
      else None)"

fun utf8_rest :: "(nat \<times> nat) list \<Rightarrow> string \<Rightarrow> bool" where
  "utf8_rest [] [] = True"
| "utf8_rest (r # rs) [] = False"
| "utf8_rest [] (c # s) = (case utf8_lead (byte c) of None \<Rightarrow> False | Some rs \<Rightarrow> utf8_rest rs s)"
| "utf8_rest ((lo, hi) # rs) (c # s) = (lo \<le> byte c \<and> byte c \<le> hi \<and> utf8_rest rs s)"

definition valid_utf8 :: "string \<Rightarrow> bool" where
  "valid_utf8 s = utf8_rest [] s"

section \<open>Slices\<close>

definition is_char_boundary :: "string \<Rightarrow> nat \<Rightarrow> bool" where
  "is_char_boundary s i \<longleftrightarrow> i = 0 \<or> i = length s \<or> (i < length s \<and> \<not> is_cont (s ! i))"

text \<open>\<open>&s[a..b]\<close>: a panic unless \<open>a \<le> b \<le> len\<close> and both are character boundaries.\<close>

definition str_slice :: "string \<Rightarrow> nat \<Rightarrow> nat \<Rightarrow> ('e, string) outcome" where
  "str_slice s a b =
     (if a \<le> b \<and> b \<le> length s \<and> is_char_boundary s a \<and> is_char_boundary s b
      then Ok (take (b - a) (drop a s)) else Panicked)"

text \<open>\<open>&s[a..]\<close> and \<open>&s[..b]\<close>.\<close>

definition str_from :: "string \<Rightarrow> nat \<Rightarrow> ('e, string) outcome" where
  "str_from s a = str_slice s a (length s)"

definition str_upto :: "string \<Rightarrow> nat \<Rightarrow> ('e, string) outcome" where
  "str_upto s b = str_slice s 0 b"

section \<open>Searching\<close>

text \<open>\<open>starts_with\<close> is \<open>prefix\<close> of the library; \<open>find\<close> gives the first byte offset.\<close>

fun find_sub :: "string \<Rightarrow> string \<Rightarrow> nat option" where
  "find_sub pat [] = (if pat = [] then Some 0 else None)"
| "find_sub pat (c # s) =
     (if prefix pat (c # s) then Some 0 else map_option Suc (find_sub pat s))"

definition str_contains :: "string \<Rightarrow> string \<Rightarrow> bool" where
  "str_contains s pat \<longleftrightarrow> find_sub pat s \<noteq> None"

definition strip_prefix_str :: "string \<Rightarrow> string \<Rightarrow> string option" where
  "strip_prefix_str pat s = (if prefix pat s then Some (drop (length pat) s) else None)"

section \<open>Splitting\<close>

text \<open>\<open>split(d)\<close> of the empty string is one empty piece.\<close>

fun split_char :: "char \<Rightarrow> string \<Rightarrow> string list" where
  "split_char d [] = [[]]"
| "split_char d (c # s) =
     (if c = d then [] # split_char d s
      else (c # hd (split_char d s)) # tl (split_char d s))"

fun split_once :: "char \<Rightarrow> string \<Rightarrow> (string \<times> string) option" where
  "split_once d [] = None"
| "split_once d (c # s) =
     (if c = d then Some ([], s) else map_option (apfst (Cons c)) (split_once d s))"

text \<open>
  \<open>lines()\<close>: pieces ended by a line feed, which is dropped together with a carriage return
  right before it; a last piece without line feed is a line when it is not empty, and keeps
  its carriage return.
\<close>

definition strip_cr :: "string \<Rightarrow> string" where
  "strip_cr l = (if l \<noteq> [] \<and> last l = CHR 0x0D then butlast l else l)"

fun lines_from :: "string list \<Rightarrow> string list" where
  "lines_from [] = []"
| "lines_from [l] = (if l = [] then [] else [l])"
| "lines_from (l # m # ls) = strip_cr l # lines_from (m # ls)"

definition str_lines :: "string \<Rightarrow> string list" where
  "str_lines s = lines_from (split_char (CHR 0x0A) s)"

section \<open>Trimming\<close>

text \<open>
  \<open>trim()\<close> removes Unicode \<open>White_Space\<close>: U+0009 to U+000D and U+0020 (one byte), U+0085 and
  U+00A0 (two bytes), U+1680, U+2000 to U+200A, U+2028, U+2029, U+202F, U+205F and U+3000
  (three bytes).
\<close>

definition ws1 :: "char \<Rightarrow> bool" where
  "ws1 a \<longleftrightarrow> (9 \<le> byte a \<and> byte a \<le> 13) \<or> byte a = 32"

definition ws2 :: "char \<Rightarrow> char \<Rightarrow> bool" where
  "ws2 a b \<longleftrightarrow> byte a = 0xC2 \<and> (byte b = 0x85 \<or> byte b = 0xA0)"

definition ws3 :: "char \<Rightarrow> char \<Rightarrow> char \<Rightarrow> bool" where
  "ws3 a b c \<longleftrightarrow>
     (byte a = 0xE1 \<and> byte b = 0x9A \<and> byte c = 0x80) \<or>
     (byte a = 0xE2 \<and> byte b = 0x80 \<and>
        ((0x80 \<le> byte c \<and> byte c \<le> 0x8A) \<or> byte c = 0xA8 \<or> byte c = 0xA9 \<or> byte c = 0xAF)) \<or>
     (byte a = 0xE2 \<and> byte b = 0x81 \<and> byte c = 0x9F) \<or>
     (byte a = 0xE3 \<and> byte b = 0x80 \<and> byte c = 0x80)"

fun trim_start :: "string \<Rightarrow> string" where
  "trim_start (a # b # c # s) =
     (if ws1 a then trim_start (b # c # s)
      else if ws2 a b then trim_start (c # s)
      else if ws3 a b c then trim_start s
      else a # b # c # s)"
| "trim_start [a, b] = (if ws1 a then trim_start [b] else if ws2 a b then [] else [a, b])"
| "trim_start [a] = (if ws1 a then [] else [a])"
| "trim_start [] = []"

text \<open>The same from the other end, on the reversed string.\<close>

fun trim_rev :: "string \<Rightarrow> string" where
  "trim_rev (c # b # a # s) =
     (if ws1 c then trim_rev (b # a # s)
      else if ws2 b c then trim_rev (a # s)
      else if ws3 a b c then trim_rev s
      else c # b # a # s)"
| "trim_rev [c, b] = (if ws1 c then trim_rev [b] else if ws2 b c then [] else [c, b])"
| "trim_rev [c] = (if ws1 c then [] else [c])"
| "trim_rev [] = []"

definition trim :: "string \<Rightarrow> string" where
  "trim s = rev (trim_rev (rev (trim_start s)))"

section \<open>Decimal numbers\<close>

definition digit_val :: "char \<Rightarrow> nat option" where
  "digit_val c = (if 48 \<le> byte c \<and> byte c \<le> 57 then Some (byte c - 48) else None)"

fun digits_value :: "nat \<Rightarrow> nat \<Rightarrow> string \<Rightarrow> nat option" where
  "digits_value mx acc [] = Some acc"
| "digits_value mx acc (c # s) =
     (case digit_val c of
        None \<Rightarrow> None
      | Some d \<Rightarrow> if mx < acc * 10 + d then None else digits_value mx (acc * 10 + d) s)"

text \<open>
  \<open>str::parse\<close> of an unsigned type with largest value \<open>mx\<close>: an optional plus sign, then at
  least one decimal digit and nothing else; a value above \<open>mx\<close> is an error.
\<close>

definition parse_unsigned :: "nat \<Rightarrow> string \<Rightarrow> nat option" where
  "parse_unsigned mx s =
     (case s of
        [] \<Rightarrow> None
      | c # r \<Rightarrow>
          if c = CHR ''+'' then (if r = [] then None else digits_value mx 0 r)
          else digits_value mx 0 s)"

definition parse_u16 :: "string \<Rightarrow> u16 option" where
  "parse_u16 s = map_option of_nat (parse_unsigned (2 ^ 16 - 1) s)"

definition parse_u32 :: "string \<Rightarrow> u32 option" where
  "parse_u32 s = map_option of_nat (parse_unsigned (2 ^ 32 - 1) s)"

definition parse_u64 :: "string \<Rightarrow> nat option" where
  "parse_u64 s = parse_unsigned (2 ^ 64 - 1) s"

definition digit_char :: "nat \<Rightarrow> char" where
  "digit_char d = char_of (48 + d)"

text \<open>\<open>Display\<close> of an unsigned integer.\<close>

fun show_nat :: "nat \<Rightarrow> string" where
  "show_nat n = (if n < 10 then [digit_char n] else show_nat (n div 10) @ [digit_char (n mod 10)])"

declare show_nat.simps [simp del]

definition show_u16 :: "u16 \<Rightarrow> string" where
  "show_u16 p = show_nat (unat p)"

definition show_u32 :: "u32 \<Rightarrow> string" where
  "show_u32 p = show_nat (unat p)"

section \<open>ASCII case\<close>

definition ascii_lower :: "char \<Rightarrow> char" where
  "ascii_lower c = (if 65 \<le> byte c \<and> byte c \<le> 90 then char_of (byte c + 32) else c)"

definition eq_ignore_ascii_case :: "string \<Rightarrow> string \<Rightarrow> bool" where
  "eq_ignore_ascii_case s t \<longleftrightarrow> map ascii_lower s = map ascii_lower t"

text \<open>\<open>join\<close> with a separator, the inverse of \<open>split\<close>; used to write properties.\<close>

fun join_char :: "char \<Rightarrow> string list \<Rightarrow> string" where
  "join_char d [] = []"
| "join_char d [s] = s"
| "join_char d (s # t # ss) = s @ d # join_char d (t # ss)"

text \<open>What evaluates the definitions of this theory on a closed string, with \<open>simp\<close>.\<close>

lemmas str_eval =
  byte_def is_cont_def is_ascii_def utf8_def is_char_boundary_def str_slice_def str_from_def
  str_upto_def str_contains_def strip_prefix_str_def strip_cr_def str_lines_def ws1_def ws2_def
  ws3_def trim_def digit_val_def parse_unsigned_def parse_u16_def parse_u32_def parse_u64_def
  digit_char_def show_u16_def show_u32_def ascii_lower_def eq_ignore_ascii_case_def show_nat.simps
  char_of_eq_iff

end
