(* ===== verification/Crds.thy ===== *)
theory Crds
  imports Rust_Str
begin

text \<open>
  The custom resources of \<open>src/crds/\<close>, the \<open>DNSEndpoint\<close> resource of
  \<open>src/controllers/dns_endpoint_ctrl.rs\<close>, and the fields of the Kubernetes objects (\<open>Service\<close>,
  \<open>Pod\<close>, object metadata) that the controllers read. Field names carry a prefix for their
  struct, since record fields are global names in HOL. A point in time (\<open>DateTime<Utc>\<close>) is a
  number of nanoseconds.
\<close>

type_synonym datetime = int

section \<open>Protocols\<close>

datatype protocol = Tcp | Udp

fun protocol_to_string :: "protocol \<Rightarrow> string" where
  "protocol_to_string Tcp = ''TCP''"
| "protocol_to_string Udp = ''UDP''"

text \<open>There are two protocols: quantification over them computes, and sets of them are finite.\<close>

instantiation protocol :: enum
begin

definition enum_protocol :: "protocol list" where
  "enum_protocol = [Tcp, Udp]"

definition enum_all_protocol :: "(protocol \<Rightarrow> bool) \<Rightarrow> bool" where
  "enum_all_protocol P \<longleftrightarrow> P Tcp \<and> P Udp"

definition enum_ex_protocol :: "(protocol \<Rightarrow> bool) \<Rightarrow> bool" where
  "enum_ex_protocol P \<longleftrightarrow> P Tcp \<or> P Udp"

lemma UNIV_protocol: "UNIV = {Tcp, Udp}"
  by (auto intro: protocol.exhaust)

instance
proof
  show "(UNIV :: protocol set) = set enum_class.enum"
    by (simp add: enum_protocol_def UNIV_protocol)
  show "distinct (enum_class.enum :: protocol list)"
    by (simp add: enum_protocol_def)
  show "enum_class.enum_all P \<longleftrightarrow> Ball UNIV P" for P :: "protocol \<Rightarrow> bool"
    by (simp add: enum_all_protocol_def UNIV_protocol)
  show "enum_class.enum_ex P \<longleftrightarrow> Bex UNIV P" for P :: "protocol \<Rightarrow> bool"
    by (simp add: enum_ex_protocol_def UNIV_protocol)
qed

end

lemma card_protocol: "card (UNIV :: protocol set) = 2"
  by (simp add: UNIV_protocol)

lemma protocol_to_string_inj [simp]: "protocol_to_string p = protocol_to_string q \<longleftrightarrow> p = q"
  by (cases p; cases q) auto

section \<open>PortMapping\<close>

record condition =
  cond_type :: string
  cond_status :: string
  cond_reason :: string
  cond_message :: "string option"
  cond_last_transition_time :: "datetime option"

record port_mapping_status =
  pms_active :: bool
  pms_external_ip :: "string option"
  pms_lease_expiry :: "datetime option"
  pms_last_renewal :: "datetime option"
  pms_conditions :: "condition list"

definition port_mapping_status_default :: port_mapping_status where
  "port_mapping_status_default =
     \<lparr>pms_active = False, pms_external_ip = None, pms_lease_expiry = None,
      pms_last_renewal = None, pms_conditions = []\<rparr>"

record port_mapping_spec =
  spec_external_port :: u16
  spec_internal_host :: string
  spec_internal_port :: u16
  spec_protocol :: protocol
  spec_description :: "string option"

section \<open>Object metadata\<close>

record owner_reference =
  or_api_version :: string
  or_kind :: string
  or_name :: string
  or_uid :: string
  or_controller :: bool
  or_block_owner_deletion :: bool

text \<open>
  \<open>meta_name\<close> is what \<open>ResourceExt::name_any\<close> returns for the object. The last two fields are not read by
  the code itself, but by the finalizer that it hands the object to.
\<close>

record object_meta =
  meta_name :: string
  meta_namespace :: "string option"
  meta_uid :: "string option"
  meta_annotations :: "(string \<rightharpoonup> string) option"
  meta_owner_references :: "owner_reference list option"
  meta_finalizers :: "string list option"
  meta_deletion_timestamp :: "datetime option"

record port_mapping =
  pmo_metadata :: object_meta
  pmo_spec :: port_mapping_spec
  pmo_status :: "port_mapping_status option"

text \<open>\<open>namespace().unwrap_or_else(|| "default".to_string())\<close>\<close>

definition namespace_or_default :: "object_meta \<Rightarrow> string" where
  "namespace_or_default m = (case meta_namespace m of Some ns \<Rightarrow> ns | None \<Rightarrow> ''default'')"

text \<open>\<open>metadata.annotations.as_ref().and_then(|a| a.get(key))\<close>\<close>

definition annotation :: "object_meta \<Rightarrow> string \<Rightarrow> string option" where
  "annotation m key = Option.bind (meta_annotations m) (\<lambda>a. a key)"

section \<open>GatewayStatus\<close>

record gateway_status_status =
  gws_external_ip :: "string option"
  gws_gateway_url :: "string option"
  gws_subscription_id :: "string option"
  gws_subscription_expiry :: "datetime option"
  gws_last_seen :: "datetime option"
  gws_lan_ip :: "string option"
  gws_ready :: bool

definition gateway_status_status_default :: gateway_status_status where
  "gateway_status_status_default =
     \<lparr>gws_external_ip = None, gws_gateway_url = None, gws_subscription_id = None,
      gws_subscription_expiry = None, gws_last_seen = None, gws_lan_ip = None, gws_ready = False\<rparr>"

text \<open>The spec is the empty struct; the object is its optional status.\<close>

record gateway_status =
  gwo_name :: string
  gwo_status :: "gateway_status_status option"

definition GATEWAY_STATUS_NAME :: string where
  "GATEWAY_STATUS_NAME = ''default''"

section \<open>DNSEndpoint\<close>

record endpoint =
  ep_dns_name :: string
  ep_record_type :: string
  ep_record_ttl :: "int option"
  ep_targets :: "string list"

record dns_endpoint =
  dns_metadata :: object_meta
  dns_spec :: "endpoint list" \<comment> \<open>the field \<open>endpoints\<close> of \<open>DNSEndpointSpec\<close>\<close>

section \<open>Services and Pods\<close>

record service_port =
  sp_port :: i32
  sp_protocol :: "string option"

record service_spec =
  ss_cluster_ip :: "string option"
  ss_ports :: "service_port list option"

record service =
  svc_metadata :: object_meta
  svc_spec :: "service_spec option"

record container_port =
  cp_container_port :: i32
  cp_protocol :: "string option"

record container =
  ctr_ports :: "container_port list option"

record pod =
  pod_metadata :: object_meta
  pod_containers :: "container list option" \<comment> \<open>\<open>spec.containers\<close>, with the optional \<open>spec\<close>\<close>
  pod_status_ip :: "string option option"  \<comment> \<open>\<open>status.pod_ip\<close>, with the optional \<open>status\<close>\<close>

end
