(* ===== verification/Proxy.thy ===== *)
theory Proxy
  imports Crds
begin

text \<open>
  The proxy manager of \<open>src/proxy.rs\<close>: the table of proxies, and the tasks spawned for
  them. A task is told to stop through its watch channel: by the value sent in \<open>stop_proxy\<close>, or
  by the drop of the sender when its handle leaves the table. The channel of a task is its
  number in the list of spawned tasks. What the operating system answers to a bind on
  \<open>0.0.0.0:0\<close> is a parameter \<open>bnd\<close>, given the number of binds so far (so that equal requests
  may have different answers) and the sockets of the tasks that have not been told to stop.
\<close>

section \<open>State\<close>

record proxy_handle =
  ph_local_port :: u16
  ph_target :: string
  ph_protocol :: protocol
  ph_shutdown :: nat

record proxy_task =
  pt_port :: u16
  pt_target :: string
  pt_protocol :: protocol
  pt_key :: string
  pt_stop :: bool

record proxy_manager =
  px_proxies :: "string \<rightharpoonup> proxy_handle"
  px_lan_ip :: string
  px_tasks :: "proxy_task list"
  px_binds :: nat

definition new_manager :: "string \<Rightarrow> proxy_manager" where
  "new_manager lan_ip = \<lparr>px_proxies = Map.empty, px_lan_ip = lan_ip, px_tasks = [], px_binds = 0\<rparr>"

text \<open>The answer to a bind: it failed, it succeeded but \<open>local_addr\<close> failed, or the port.\<close>

datatype bind_reply = BindFailed string | LocalAddrFailed string | Bound u16

type_synonym os_bind = "nat \<Rightarrow> (protocol \<times> u16) list \<Rightarrow> protocol \<Rightarrow> bind_reply"

text \<open>
  The tasks that nobody has told to stop. It is what the manager knows of its tasks: one whose loop
  ended on an error of its socket is among them; which tasks still serve is in \<open>Proxy_Planes\<close>.
\<close>

definition unstopped :: "proxy_manager \<Rightarrow> proxy_task list" where
  "unstopped m = filter (\<lambda>t. \<not> pt_stop t) (px_tasks m)"

definition live_sockets :: "proxy_manager \<Rightarrow> (protocol \<times> u16) list" where
  "live_sockets m = map (\<lambda>t. (pt_protocol t, pt_port t)) (unstopped m)"

section \<open>Operations\<close>

text \<open>The signal on channel \<open>c\<close>, from \<open>send(true)\<close> or from the drop of the sender.\<close>

definition signal :: "nat \<Rightarrow> proxy_task list \<Rightarrow> proxy_task list" where
  "signal c ts = (if c < length ts then ts[c := (ts ! c)\<lparr>pt_stop := True\<rparr>] else ts)"

definition remove_handle :: "string \<Rightarrow> proxy_manager \<Rightarrow> proxy_manager" where
  "remove_handle key m =
     (case px_proxies m key of
        None \<Rightarrow> m
      | Some handle \<Rightarrow>
          m\<lparr>px_proxies := (px_proxies m)(key := None),
            px_tasks := signal (ph_shutdown handle) (px_tasks m)\<rparr>)"

definition stop_proxy :: "string \<Rightarrow> (proxy_manager, unit) state" where
  "stop_proxy key = modify (remove_handle key)"

text \<open>
  \<open>HashMap::insert\<close> returns the handle it replaces, which is dropped with its sender; so an
  overwritten proxy stops as well.
\<close>

definition insert_handle :: "string \<Rightarrow> proxy_handle \<Rightarrow> proxy_manager \<Rightarrow> proxy_manager" where
  "insert_handle key handle m =
     m\<lparr>px_proxies := (px_proxies m)(key \<mapsto> handle),
       px_tasks := (case px_proxies m key of
                      None \<Rightarrow> px_tasks m
                    | Some old \<Rightarrow> signal (ph_shutdown old) (px_tasks m))\<rparr>"

definition bind_socket :: "os_bind \<Rightarrow> protocol \<Rightarrow> (proxy_manager, bind_reply) state" where
  "bind_socket bnd proto =
     State (\<lambda>m. (bnd (px_binds m) (live_sockets m) proto, m\<lparr>px_binds := Suc (px_binds m)\<rparr>))"

text \<open>\<open>tokio::spawn(run_tcp_proxy(..))\<close> or \<open>run_udp_proxy\<close>; returns the channel of the task.\<close>

definition spawn_proxy :: "string \<Rightarrow> string \<Rightarrow> protocol \<Rightarrow> u16 \<Rightarrow> (proxy_manager, nat) state" where
  "spawn_proxy key target proto port =
     State (\<lambda>m. (length (px_tasks m),
       m\<lparr>px_tasks := px_tasks m @
           [\<lparr>pt_port = port, pt_target = target, pt_protocol = proto, pt_key = key, pt_stop = False\<rparr>]\<rparr>))"

definition bind_error :: "protocol \<Rightarrow> string \<Rightarrow> string" where
  "bind_error proto e =
     (case proto of
        Tcp \<Rightarrow> ''Failed to bind TCP proxy listener: '' @ e
      | Udp \<Rightarrow> ''Failed to bind UDP proxy socket: '' @ e)"

text \<open>The part of \<open>ensure_proxy\<close> after the check of the proxy in the table.\<close>

definition restart_proxy ::
  "os_bind \<Rightarrow> string \<Rightarrow> string \<Rightarrow> protocol \<Rightarrow> (proxy_manager, (string, u16) outcome) state"
where
  "restart_proxy bnd key target proto = do {
     stop_proxy key;
     r \<leftarrow> bind_socket bnd proto;
     (case r of
        BindFailed e \<Rightarrow> ret (Err (bind_error proto e))
      | LocalAddrFailed e \<Rightarrow> ret (Err (''Failed to get local addr: '' @ e))
      | Bound local_port \<Rightarrow> do {
          c \<leftarrow> spawn_proxy key target proto local_port;
          modify (insert_handle key
            \<lparr>ph_local_port = local_port, ph_target = target, ph_protocol = proto, ph_shutdown = c\<rparr>);
          ret (Ok local_port)
        })
   }"

definition ensure_proxy ::
  "os_bind \<Rightarrow> string \<Rightarrow> string \<Rightarrow> protocol \<Rightarrow> (proxy_manager, (string, u16) outcome) state"
where
  "ensure_proxy bnd key target proto = do {
     found \<leftarrow> gets (\<lambda>m. px_proxies m key);
     (case found of
        Some handle \<Rightarrow>
          if ph_target handle = target \<and> ph_protocol handle = proto
          then ret (Ok (ph_local_port handle))
          else restart_proxy bnd key target proto
      | None \<Rightarrow> restart_proxy bnd key target proto)
   }"

definition get_port :: "proxy_manager \<Rightarrow> string \<Rightarrow> u16 option" where
  "get_port m key = map_option ph_local_port (px_proxies m key)"

text \<open>The keys in the (unspecified) order of the \<open>HashMap\<close>: a set.\<close>

definition active_keys :: "proxy_manager \<Rightarrow> string set" where
  "active_keys m = dom (px_proxies m)"

section \<open>The effect of the operations, in one step\<close>

definition count_bind :: "proxy_manager \<Rightarrow> proxy_manager" where
  "count_bind m = m\<lparr>px_binds := Suc (px_binds m)\<rparr>"

definition started :: "string \<Rightarrow> string \<Rightarrow> protocol \<Rightarrow> u16 \<Rightarrow> proxy_manager \<Rightarrow> proxy_manager" where
  "started key target proto port m =
     m\<lparr>px_proxies := (px_proxies m)(key \<mapsto>
         \<lparr>ph_local_port = port, ph_target = target, ph_protocol = proto,
          ph_shutdown = length (px_tasks m)\<rparr>),
       px_tasks := px_tasks m @
         [\<lparr>pt_port = port, pt_target = target, pt_protocol = proto, pt_key = key, pt_stop = False\<rparr>]\<rparr>"

lemma remove_handle_proxies [simp]:
  "px_proxies (remove_handle key m) = (px_proxies m)(key := None)"
  by (auto simp: remove_handle_def split: option.splits)

lemma remove_handle_binds [simp]: "px_binds (remove_handle key m) = px_binds m"
  by (simp add: remove_handle_def split: option.splits)

lemma remove_handle_lan_ip [simp]: "px_lan_ip (remove_handle key m) = px_lan_ip m"
  by (simp add: remove_handle_def split: option.splits)

lemma count_bind_simps [simp]:
  "px_proxies (count_bind m) = px_proxies m" "px_tasks (count_bind m) = px_tasks m"
  "px_lan_ip (count_bind m) = px_lan_ip m" "px_binds (count_bind m) = Suc (px_binds m)"
  "live_sockets (count_bind m) = live_sockets m"
  by (simp_all add: count_bind_def live_sockets_def unstopped_def)

lemma run_stop_proxy [simp]: "run_state (stop_proxy key) m = ((), remove_handle key m)"
  by (simp add: stop_proxy_def)

lemma run_restart_proxy:
  "run_state (restart_proxy bnd key target proto) m =
     (let m' = count_bind (remove_handle key m)
      in case bnd (px_binds m) (live_sockets (remove_handle key m)) proto of
           BindFailed e \<Rightarrow> (Err (bind_error proto e), m')
         | LocalAddrFailed e \<Rightarrow> (Err (''Failed to get local addr: '' @ e), m')
         | Bound port \<Rightarrow> (Ok port, started key target proto port m'))"
  by (simp add: restart_proxy_def bind_socket_def spawn_proxy_def Let_def insert_handle_def
      started_def flip: count_bind_def split: bind_reply.splits)

text \<open>The handle under \<open>key\<close> already serves the target over the protocol.\<close>

definition same_proxy :: "proxy_manager \<Rightarrow> string \<Rightarrow> string \<Rightarrow> protocol \<Rightarrow> u16 \<Rightarrow> bool" where
  "same_proxy m key target proto port \<longleftrightarrow>
     (case px_proxies m key of
        None \<Rightarrow> False
      | Some h \<Rightarrow> ph_target h = target \<and> ph_protocol h = proto \<and> ph_local_port h = port)"

lemma run_ensure_same:
  "same_proxy m key target proto port \<Longrightarrow> run_state (ensure_proxy bnd key target proto) m = (Ok port, m)"
  by (auto simp: ensure_proxy_def same_proxy_def split: option.splits)

lemma run_ensure_other:
  "(\<And>port. \<not> same_proxy m key target proto port) \<Longrightarrow>
   run_state (ensure_proxy bnd key target proto) m = run_state (restart_proxy bnd key target proto) m"
  unfolding ensure_proxy_def same_proxy_def by (cases "px_proxies m key") fastforce+

text \<open>The three ways a call of \<open>ensure_proxy\<close> can end.\<close>

lemma ensure_proxy_cases:
  assumes "run_state (ensure_proxy bnd key target proto) m = (r, m')"
  obtains (same) port where "same_proxy m key target proto port" "r = Ok port" "m' = m"
  | (start) port where
      "bnd (px_binds m) (live_sockets (remove_handle key m)) proto = Bound port" "r = Ok port"
      "m' = started key target proto port (count_bind (remove_handle key m))"
  | (fail) e where "r = Err e" "m' = count_bind (remove_handle key m)"
proof (cases "\<exists>port. same_proxy m key target proto port")
  case True
  with assms show ?thesis by (auto simp: run_ensure_same intro: same)
next
  case False
  with assms show ?thesis
    by (auto simp: run_ensure_other run_restart_proxy Let_def split: bind_reply.splits
        intro: start fail)
qed

end
