(* ===== verification/Proxy_Interface.thy ===== *)
theory Proxy_Interface
  imports Crds
begin

text \<open>
  The contract of the proxy manager as a locale, \<open>proxy_service\<close>, with what its clients (the
  Service and Pod reconcilers) derive from it, and its extension \<open>publishing_client\<close> for the
  loop that starts a proxy for every desired mapping and publishes its port. \<open>Proxy_Facts\<close>
  shows that the model of \<open>src/proxy.rs\<close> keeps the contract.
\<close>

section \<open>The interface\<close>

text \<open>
  The loop of the two annotation reconcilers (lines 375 to 427 and 525 to 576 of
  \<open>port_mapping_ctrl.rs\<close>), over what it does per entry: \<open>start\<close> a proxy, go on with the next
  entry if that fails, else \<open>publish\<close> the port and return on an error.
\<close>

fun desired_loop ::
  "('d \<Rightarrow> ('s, (string, u16) outcome) state) \<Rightarrow> ('d \<Rightarrow> u16 \<Rightarrow> ('s, ('e, unit) outcome) state) \<Rightarrow>
   'd list \<Rightarrow> ('s, ('e, unit) outcome) state"
where
  "desired_loop start publish [] = ret (Ok ())"
| "desired_loop start publish (d # ds) = do {
     r \<leftarrow> start d;
     (case r of
        Ok port \<Rightarrow> try_bind (publish d port) (\<lambda>_. desired_loop start publish ds)
      | Err e \<Rightarrow> desired_loop start publish ds
      | Panicked \<Rightarrow> ret Panicked)
   }"

context frame
begin

lemma keeps_desired_loop:
  "(\<And>d. state_io_rel R (start d)) \<Longrightarrow> (\<And>d port. state_io_rel R (publish d port)) \<Longrightarrow>
   state_io_rel R (desired_loop start publish ds)"
  by (induction ds) (auto intro!: keeps_intros)

end

locale proxy_service =
  fixes ensure :: "string \<Rightarrow> string \<Rightarrow> protocol \<Rightarrow> ('s, (string, u16) outcome) state"
    and stop :: "string \<Rightarrow> ('s, unit) state"
    and serves :: "'s \<Rightarrow> string \<Rightarrow> (string \<times> protocol \<times> u16) option"
    and inv :: "'s \<Rightarrow> bool"
  assumes ensure_Ok: "run_state (ensure k t p) s = (Ok port, s') \<Longrightarrow> serves s' k = Some (t, p, port)"
    and ensure_Err: "run_state (ensure k t p) s = (Err e, s') \<Longrightarrow> serves s' k = None"
    and ensure_no_panic: "run_state (ensure k t p) s \<noteq> (Panicked, s')"
    and ensure_frame: "run_state (ensure k t p) s = (r, s') \<Longrightarrow> k' \<noteq> k \<Longrightarrow> serves s' k' = serves s k'"
    and ensure_again: "serves s k = Some (t, p, port) \<Longrightarrow> run_state (ensure k t p) s = (Ok port, s)"
    and stop_serves: "run_state (stop k) s = (u, s') \<Longrightarrow> serves s' = (serves s)(k := None)"
    and ensure_inv: "run_state (ensure k t p) s = (r, s') \<Longrightarrow> inv s \<Longrightarrow> inv s'"
    and stop_inv: "run_state (stop k) s = (u, s') \<Longrightarrow> inv s \<Longrightarrow> inv s'"
begin

lemma ensure_idempotent:
  "run_state (ensure k t p) s = (Ok port, s') \<Longrightarrow> run_state (ensure k t p) s' = (Ok port, s')"
  by (rule ensure_again) (rule ensure_Ok)

lemma ensure_result:
  assumes "run_state (ensure k t p) s = (r, s')"
  shows "case r of Ok port \<Rightarrow> serves s' k = Some (t, p, port) | Err e \<Rightarrow> serves s' k = None
          | Panicked \<Rightarrow> False"
  using assms by (cases r) (auto dest: ensure_Ok ensure_Err simp: ensure_no_panic)

lemma stop_all_serves:
  "run_state (for_each stop ks) s = (u, s') \<Longrightarrow>
   serves s' = (\<lambda>k. if k \<in> set ks then None else serves s k)"
proof (induction ks arbitrary: s)
  case (Cons k ks)
  obtain v t where stop: "run_state (stop k) s = (v, t)" by (cases "run_state (stop k) s")
  with Cons.prems have "run_state (for_each stop ks) t = (u, s')" by simp
  then have "serves s' = (\<lambda>j. if j \<in> set ks then None else serves t j)" by (rule Cons.IH)
  with stop_serves [OF stop] show ?case by (auto simp: fun_eq_iff)
qed simp

lemma stop_all_inv: "run_state (for_each stop ks) s = (u, s') \<Longrightarrow> inv s \<Longrightarrow> inv s'"
  by (induction ks arbitrary: s) (auto split: prod.splits dest: stop_inv)

end

text \<open>
  A client that publishes the port of each proxy it starts: publishing leaves the table alone and
  is recorded, starting a proxy publishes nothing.
\<close>

locale publishing_client = proxy_service ensure stop serves inv
  for ensure :: "string \<Rightarrow> string \<Rightarrow> protocol \<Rightarrow> ('s, (string, u16) outcome) state"
    and stop serves inv +
  fixes publish :: "'d \<Rightarrow> u16 \<Rightarrow> ('s, ('e, unit) outcome) state"
    and key :: "'d \<Rightarrow> string"
    and target :: "'d \<Rightarrow> string"
    and proto :: "'d \<Rightarrow> protocol"
    and manifest :: "'d \<Rightarrow> u16 \<Rightarrow> 'm"
    and published :: "'s \<Rightarrow> 'm list"
  assumes publish_serves: "run_state (publish d port) s = (r, s') \<Longrightarrow> serves s' = serves s"
    and publish_inv: "run_state (publish d port) s = (r, s') \<Longrightarrow> inv s \<Longrightarrow> inv s'"
    and publish_log: "run_state (publish d port) s = (r, s') \<Longrightarrow> published s' = published s @ [manifest d port]"
    and ensure_log: "run_state (ensure k t p) s = (q, s') \<Longrightarrow> published s' = published s"
begin

abbreviation loop :: "'d list \<Rightarrow> ('s, ('e, unit) outcome) state" where
  "loop \<equiv> desired_loop (\<lambda>d. ensure (key d) (target d) (proto d)) publish"

lemma loop_frame:
  "run_state (loop ds) s = (r, s') \<Longrightarrow> k \<notin> key ` set ds \<Longrightarrow> serves s' k = serves s k"
proof (induction ds arbitrary: s)
  case (Cons d ds)
  obtain q t where q: "run_state (ensure (key d) (target d) (proto d)) s = (q, t)"
    by (cases "run_state (ensure (key d) (target d) (proto d)) s")
  have t: "serves t k = serves s k" using ensure_frame [OF q] Cons.prems(2) by auto
  show ?case
  proof (cases q)
    case (Ok port)
    obtain z u where z: "run_state (publish d port) t = (z, u)"
      by (cases "run_state (publish d port) t")
    with Cons.prems q Ok Cons.IH [of u] publish_serves [OF z] t show ?thesis
      by (cases z) (auto simp: run_try_bind)
  qed (use Cons q t in auto)
qed simp

lemma loop_inv: "run_state (loop ds) s = (r, s') \<Longrightarrow> inv s \<Longrightarrow> inv s'"
proof (induction ds arbitrary: s)
  case (Cons d ds)
  obtain q t where q: "run_state (ensure (key d) (target d) (proto d)) s = (q, t)"
    by (cases "run_state (ensure (key d) (target d) (proto d)) s")
  note t = ensure_inv [OF q Cons.prems(2)]
  show ?case
  proof (cases q)
    case (Ok port)
    obtain z u where z: "run_state (publish d port) t = (z, u)"
      by (cases "run_state (publish d port) t")
    with Cons.prems q Ok Cons.IH [of u] publish_inv [OF z t] show ?thesis
      by (cases z) (auto simp: run_try_bind)
  qed (use Cons q t in auto)
qed simp

text \<open>
  With distinct keys, what the loop published is what is served when it ends, whether it went
  through the list or returned early.
\<close>

definition backed :: "'s \<Rightarrow> 'd list \<Rightarrow> 'm \<Rightarrow> bool" where
  "backed s ds m \<longleftrightarrow>
     (\<exists>d \<in> set ds. \<exists>port. m = manifest d port \<and> serves s (key d) = Some (target d, proto d, port))"

lemma loop_published:
  assumes "run_state (loop ds) s = (r, s')" and "distinct (map key ds)"
  shows "\<exists>new. published s' = published s @ new \<and> (\<forall>m \<in> set new. backed s' ds m) \<and>
    (r = Ok () \<longrightarrow> (\<forall>d \<in> set ds. serves s' (key d) = None \<or> (\<exists>port. manifest d port \<in> set new)))"
  using assms
proof (induction ds arbitrary: s)
  case (Cons d ds)
  obtain q t where q: "run_state (ensure (key d) (target d) (proto d)) s = (q, t)"
    by (cases "run_state (ensure (key d) (target d) (proto d)) s")
  note pt = ensure_log [OF q]
  show ?case
  proof (cases q)
    case (Ok port)
    obtain z u where z: "run_state (publish d port) t = (z, u)"
      by (cases "run_state (publish d port) t")
    have d: "serves u (key d) = Some (target d, proto d, port)"
      using publish_serves [OF z] ensure_Ok q Ok by simp
    have pu: "published u = published s @ [manifest d port]"
      using publish_log [OF z] pt by simp
    show ?thesis
    proof (cases z)
      case [simp]: (Ok v)
      with Cons.prems(1) q z \<open>q = Ok port\<close> have rest: "run_state (loop ds) u = (r, s')"
        by (simp add: run_try_bind)
      then obtain new where new: "published s' = published u @ new"
        "\<forall>m \<in> set new. backed s' ds m"
        "r = Ok () \<longrightarrow> (\<forall>d \<in> set ds. serves s' (key d) = None \<or> (\<exists>port. manifest d port \<in> set new))"
        using Cons.IH [OF rest] Cons.prems(2) by auto
      moreover have "serves s' (key d) = Some (target d, proto d, port)"
        using loop_frame [OF rest, of "key d"] Cons.prems(2) d by simp
      ultimately show ?thesis
        using pu by (intro exI [of _ "manifest d port # new"]) (auto simp: backed_def)
    qed (use Cons.prems(1) q z \<open>q = Ok port\<close> d pu in \<open>auto simp: run_try_bind backed_def\<close>)
  next
    case (Err e)
    with Cons.prems q have "run_state (loop ds) t = (r, s')" "distinct (map key ds)" by simp_all
    from Cons.IH [OF this] obtain new where new: "published s' = published s @ new"
      "\<forall>m \<in> set new. backed s' ds m"
      "r = Ok () \<longrightarrow> (\<forall>d \<in> set ds. serves s' (key d) = None \<or> (\<exists>port. manifest d port \<in> set new))"
      unfolding pt by blast
    moreover have "serves s' (key d) = None"
      using loop_frame [OF \<open>run_state (loop ds) t = (r, s')\<close>, of "key d"] Cons.prems(2) q Err
      by (simp add: ensure_Err)
    ultimately show ?thesis by (intro exI [of _ new]) (auto simp: backed_def)
  next
    case Panicked
    with q show ?thesis by (simp add: ensure_no_panic)
  qed
qed simp

text \<open>Once every entry has its proxy, the loop only publishes: it does to the state what that does.\<close>

lemma loop_steady:
  assumes "run_state (loop ds) s = (r, s')" and "frame R"
    and publish: "\<And>d port s r s'. run_state (publish d port) s = (r, s') \<Longrightarrow> R s s'"
    and "\<And>d. d \<in> set ds \<Longrightarrow> \<exists>port. serves s (key d) = Some (target d, proto d, port)"
  shows "R s s'"
  using assms(1,4)
proof (induction ds arbitrary: s)
  case Nil
  then show ?case using frame.R_refl [OF assms(2)] by simp
next
  case (Cons d ds)
  then obtain port where "serves s (key d) = Some (target d, proto d, port)" by force
  then have q: "run_state (ensure (key d) (target d) (proto d)) s = (Ok port, s)" by (rule ensure_again)
  obtain z u where z: "run_state (publish d port) s = (z, u)" by (cases "run_state (publish d port) s")
  have "R u s' \<or> s' = u"
    using Cons.prems q z Cons.IH [of u] publish_serves [OF z] by (cases z) (auto simp: run_try_bind)
  with publish [OF z] show ?case by (auto intro: frame.R_trans [OF assms(2)])
qed

end

end
