(* ===== verification/World.thy ===== *)
theory World
  imports Proxy
begin

text \<open>
  The process and its surroundings. What the code calls outside itself (HTTP, the Kubernetes API
  server, the clock, the sockets, the XML reader) is the parameter \<open>env\<close> of the model: a record of
  answer functions, each given the calls made so far and the call at hand, so that any behaviour
  of the other side is an \<open>env\<close>. The calls are logged in the order they are made. The shared
  in-memory state (\<open>ProxyManager\<close>, \<open>EventingState\<close>, \<open>Metrics\<close> and the flags of \<open>main.rs\<close>)
  is a field each of the record \<open>world\<close>.
\<close>

section \<open>Calls\<close>

record http_request =
  rq_method :: string
  rq_url :: string
  rq_headers :: "(string \<times> string) list"
  rq_body :: string

text \<open>
  A response as \<open>reqwest\<close> gives it: \<open>status().is_success()\<close>, the printed status, a header with
  the result of its \<open>to_str\<close>, and the result of \<open>text()\<close>.
\<close>

record http_response =
  rs_success :: bool
  rs_status :: string
  rs_header :: "string \<Rightarrow> (string + string) option"
  rs_text :: "string + string"

text \<open>The manifest of the server-side apply with which the watchers write a PortMapping.\<close>

record pm_manifest =
  mf_api_version :: string
  mf_kind :: string
  mf_name :: string
  mf_namespace :: string
  mf_labels :: "(string \<times> string) list"
  mf_owner_references :: "owner_reference list"
  mf_spec :: port_mapping_spec

datatype kube_call =
    ListPortMappings string string                        \<comment> \<open>namespace, label selector\<close>
  | ApplyPortMapping string string string pm_manifest     \<comment> \<open>namespace, name, field manager\<close>
  | DeletePortMapping string string                       \<comment> \<open>namespace, name\<close>
  | PatchPortMappingStatus string string port_mapping_status
  | GetGatewayStatus string
  | CreateGatewayStatus gateway_status
  | PatchGatewayStatus string gateway_status_status
  | ListDnsEndpoints
  | PatchDnsEndpoint string string "endpoint list"        \<comment> \<open>namespace, name\<close>
  | PatchNodeAnnotation string string "string option"     \<comment> \<open>node, annotation, value or null\<close>

datatype call = Http http_request | Kube kube_call | UtcNow | InstantNow

text \<open>What \<open>quick_xml\<close>'s reader yields: tags by name, text with the result of \<open>unescape()\<close>.\<close>

datatype xml_event =
    XmlStart string | XmlText "string option" | XmlEnd string | XmlOther | XmlError string

section \<open>The environment\<close>

record env =
  http_answer :: "call list \<Rightarrow> http_request \<Rightarrow> string + http_response"
  kube_answer :: "call list \<Rightarrow> kube_call \<Rightarrow> string + unit"
  list_pm_answer :: "call list \<Rightarrow> kube_call \<Rightarrow> string + port_mapping list"
  get_gs_answer :: "call list \<Rightarrow> kube_call \<Rightarrow> string + gateway_status option"
  list_dns_answer :: "call list \<Rightarrow> kube_call \<Rightarrow> string + dns_endpoint list"
  utc_now :: "call list \<Rightarrow> datetime"
  instant_now :: "call list \<Rightarrow> int"
  add_secs :: "datetime \<Rightarrow> int \<Rightarrow> datetime"       \<comment> \<open>\<open>t + chrono::Duration::seconds(s)\<close>\<close>
  num_seconds :: "datetime \<Rightarrow> datetime \<Rightarrow> int"    \<comment> \<open>\<open>(t - u).num_seconds()\<close>\<close>
  timestamp :: "datetime \<Rightarrow> int"
  os_binds :: os_bind
  xml_events :: "string \<Rightarrow> xml_event list"

section \<open>The state of the process\<close>

record gena_subscription =
  gena_sid :: string
  gena_expiry :: int

record eventing_state =
  es_subscription :: "gena_subscription option"
  es_last_notify :: "int option"
  es_current_external_ip :: "string option"

definition eventing_state_new :: eventing_state where
  "eventing_state_new =
     \<lparr>es_subscription = None, es_last_notify = None, es_current_external_ip = None\<rparr>"

text \<open>
  The gauges and counters of \<open>src/metrics.rs\<close>; a labelled counter is a function of its labels. In the
  source they are \<open>f64\<close>; all operations on them add or subtract 1 or set 0, 1 or a timestamp in
  seconds, which \<open>f64\<close> computes exactly up to 2 ^ 53, so they are integers here; a count above 2 ^ 53,
  where \<open>f64\<close> would stop counting, is outside the model.
\<close>

record metrics =
  mt_active_port_mappings :: int
  mt_port_mapping_renewals :: "string \<Rightarrow> nat"
  mt_port_mapping_failures :: "string \<times> string \<Rightarrow> nat"
  mt_wan_ip_changes :: nat
  mt_gena_subscription_active :: int
  mt_gateway_last_seen :: int

definition metrics_new :: metrics where
  "metrics_new =
     \<lparr>mt_active_port_mappings = 0, mt_port_mapping_renewals = (\<lambda>_. 0),
      mt_port_mapping_failures = (\<lambda>_. 0), mt_wan_ip_changes = 0,
      mt_gena_subscription_active = 0, mt_gateway_last_seen = 0\<rparr>"

record world =
  w_calls :: "call list"
  w_proxies :: proxy_manager
  w_shutting_down :: bool
  w_eventing :: eventing_state
  w_subscription_id :: "string option"
  w_dns_active :: bool
  w_metrics :: metrics

text \<open>The state at the start of the process, once the LAN address is known.\<close>

definition world_new :: "string \<Rightarrow> world" where
  "world_new lan_ip =
     \<lparr>w_calls = [], w_proxies = new_manager lan_ip, w_shutting_down = False,
      w_eventing = eventing_state_new, w_subscription_id = None, w_dns_active = False,
      w_metrics = metrics_new\<rparr>"

section \<open>Primitive operations\<close>

fun sum_outcome :: "'e + 'a \<Rightarrow> ('e, 'a) outcome" where
  "sum_outcome (Inl e) = Err e"
| "sum_outcome (Inr a) = Ok a"

lemma sum_outcome_simps [simp]:
  "sum_outcome x = Ok a \<longleftrightarrow> x = Inr a" "sum_outcome x = Err e \<longleftrightarrow> x = Inl e" "sum_outcome x \<noteq> Panicked"
  by (cases x; simp)+

definition log_call :: "call \<Rightarrow> world \<Rightarrow> world" where
  "log_call c w = w\<lparr>w_calls := w_calls w @ [c]\<rparr>"

definition http_send :: "env \<Rightarrow> http_request \<Rightarrow> (world, (string, http_response) outcome) state" where
  "http_send env rq = State (\<lambda>w. (sum_outcome (http_answer env (w_calls w) rq), log_call (Http rq) w))"

definition kube_unit :: "env \<Rightarrow> kube_call \<Rightarrow> (world, (string, unit) outcome) state" where
  "kube_unit env c = State (\<lambda>w. (sum_outcome (kube_answer env (w_calls w) c), log_call (Kube c) w))"

definition kube_list_pm :: "env \<Rightarrow> kube_call \<Rightarrow> (world, (string, port_mapping list) outcome) state" where
  "kube_list_pm env c = State (\<lambda>w. (sum_outcome (list_pm_answer env (w_calls w) c), log_call (Kube c) w))"

definition kube_get_gs :: "env \<Rightarrow> kube_call \<Rightarrow> (world, (string, gateway_status option) outcome) state" where
  "kube_get_gs env c = State (\<lambda>w. (sum_outcome (get_gs_answer env (w_calls w) c), log_call (Kube c) w))"

definition kube_list_dns :: "env \<Rightarrow> kube_call \<Rightarrow> (world, (string, dns_endpoint list) outcome) state" where
  "kube_list_dns env c = State (\<lambda>w. (sum_outcome (list_dns_answer env (w_calls w) c), log_call (Kube c) w))"

definition read_utc :: "env \<Rightarrow> (world, datetime) state" where
  "read_utc env = State (\<lambda>w. (utc_now env (w_calls w), log_call UtcNow w))"

definition read_instant :: "env \<Rightarrow> (world, int) state" where
  "read_instant env = State (\<lambda>w. (instant_now env (w_calls w), log_call InstantNow w))"

text \<open>An operation of the proxy manager, on the proxy manager of the world.\<close>

definition on_proxies :: "(proxy_manager, 'a) state \<Rightarrow> (world, 'a) state" where
  "on_proxies m = State (\<lambda>w. map_prod id (\<lambda>p. w\<lparr>w_proxies := p\<rparr>) (run_state m (w_proxies w)))"

definition upd_metrics :: "(metrics \<Rightarrow> metrics) \<Rightarrow> (world, unit) state" where
  "upd_metrics f = modify (\<lambda>w. w\<lparr>w_metrics := f (w_metrics w)\<rparr>)"

definition upd_eventing :: "(eventing_state \<Rightarrow> eventing_state) \<Rightarrow> (world, unit) state" where
  "upd_eventing f = modify (\<lambda>w. w\<lparr>w_eventing := f (w_eventing w)\<rparr>)"

lemmas run_primitives =
  http_send_def kube_unit_def kube_list_pm_def kube_get_gs_def kube_list_dns_def read_utc_def
  read_instant_def on_proxies_def upd_metrics_def upd_eventing_def

lemma wp_primitives [wp_simps]:
  "wp (http_send env rq) Q w = Q (sum_outcome (http_answer env (w_calls w) rq)) (log_call (Http rq) w)"
  "wp (kube_unit env c) Q' w = Q' (sum_outcome (kube_answer env (w_calls w) c)) (log_call (Kube c) w)"
  "wp (kube_list_pm env c) Q1 w = Q1 (sum_outcome (list_pm_answer env (w_calls w) c)) (log_call (Kube c) w)"
  "wp (kube_get_gs env c) Q2 w = Q2 (sum_outcome (get_gs_answer env (w_calls w) c)) (log_call (Kube c) w)"
  "wp (kube_list_dns env c) Q3 w = Q3 (sum_outcome (list_dns_answer env (w_calls w) c)) (log_call (Kube c) w)"
  "wp (read_utc env) Q4 w = Q4 (utc_now env (w_calls w)) (log_call UtcNow w)"
  "wp (read_instant env) Q5 w = Q5 (instant_now env (w_calls w)) (log_call InstantNow w)"
  "wp (upd_metrics f) Q6 w = Q6 () (w\<lparr>w_metrics := f (w_metrics w)\<rparr>)"
  "wp (upd_eventing g) Q6 w = Q6 () (w\<lparr>w_eventing := g (w_eventing w)\<rparr>)"
  "wp (on_proxies m) Q7 w = wp m (\<lambda>a p. Q7 a (w\<lparr>w_proxies := p\<rparr>)) (w_proxies w)"
  by (simp_all add: wp_def run_primitives split: prod.splits)

lemma log_call_simps [simp]:
  "w_calls (log_call c w) = w_calls w @ [c]"
  "w_proxies (log_call c w) = w_proxies w"
  "w_shutting_down (log_call c w) = w_shutting_down w"
  "w_eventing (log_call c w) = w_eventing w"
  "w_subscription_id (log_call c w) = w_subscription_id w"
  "w_dns_active (log_call c w) = w_dns_active w"
  "w_metrics (log_call c w) = w_metrics w"
  by (simp_all add: log_call_def)

section \<open>Frames\<close>

text \<open>The PortMappings written by the calls made so far, with the namespace and name of the patch.\<close>

fun applied_manifest :: "call \<Rightarrow> (string \<times> string \<times> pm_manifest) list" where
  "applied_manifest (Kube (ApplyPortMapping ns name manager mf)) = [(ns, name, mf)]"
| "applied_manifest _ = []"

definition published :: "world \<Rightarrow> (string \<times> string \<times> pm_manifest) list" where
  "published w = concat (map applied_manifest (w_calls w))"

lemma published_log [simp]: "published (log_call c w) = published w @ applied_manifest c"
  by (simp add: published_def)

text \<open>
  The locale \<open>kube_frame\<close>: a reflexive and transitive relation on worlds that updating the metrics,
  other than the counter of address changes, and logging a call keep, if the call is not a request to
  the router and does not write a PortMapping; the locale \<open>world_frame\<close>: one that requests to the router keep as well. Every handler
  of the controllers keeps such a relation, up to the operations it is known to do besides (on
  proxies, on the eventing state, or writing PortMappings).
\<close>

definition query :: "kube_call \<Rightarrow> bool" where
  "query c \<longleftrightarrow> applied_manifest (Kube c) = []"

lemma query_simps [simp, intro]:
  "query (ListPortMappings ns l)" "query (DeletePortMapping ns n)" "query (PatchPortMappingStatus ns n st)"
  "query (GetGatewayStatus n)" "query (CreateGatewayStatus gs)" "query (PatchGatewayStatus n gst)"
  "query ListDnsEndpoints" "query (PatchDnsEndpoint ns n es)" "query (PatchNodeAnnotation n a v)"
  by (simp_all add: query_def)

fun to_router :: "call \<Rightarrow> bool" where
  "to_router (Http rq) \<longleftrightarrow> True"
| "to_router _ \<longleftrightarrow> False"

lemma other_metrics:
  "mt_wan_ip_changes (m\<lparr>mt_gateway_last_seen := t\<rparr>) = mt_wan_ip_changes m"
  "mt_wan_ip_changes (m\<lparr>mt_gena_subscription_active := g\<rparr>) = mt_wan_ip_changes m"
  by simp_all

locale kube_frame = frame R for R :: "world \<Rightarrow> world \<Rightarrow> bool" +
  assumes R_log: "applied_manifest c = [] \<Longrightarrow> \<not> to_router c \<Longrightarrow> R w (log_call c w)"
    and R_metrics: "mt_wan_ip_changes m = mt_wan_ip_changes (w_metrics w) \<Longrightarrow> R w (w\<lparr>w_metrics := m\<rparr>)"
begin

lemma keeps_primitives:
  "query c \<Longrightarrow> state_io_rel R (kube_unit env c)"
  "query c \<Longrightarrow> state_io_rel R (kube_list_pm env c)" "query c \<Longrightarrow> state_io_rel R (kube_get_gs env c)"
  "query c \<Longrightarrow> state_io_rel R (kube_list_dns env c)" "state_io_rel R (read_utc env)"
  "state_io_rel R (read_instant env)"
  "(\<And>m. mt_wan_ip_changes (f m) = mt_wan_ip_changes m) \<Longrightarrow> state_io_rel R (upd_metrics f)"
  by (simp_all add: state_io_rel_def run_primitives R_log R_metrics query_def)

lemmas kube_keeps = keeps_intros keeps_primitives query_simps other_metrics

end

locale world_frame = kube_frame R for R :: "world \<Rightarrow> world \<Rightarrow> bool" +
  assumes R_http: "R w (log_call (Http rq) w)"
begin

lemma keeps_http: "state_io_rel R (http_send env rq)"
  by (simp add: state_io_rel_def run_primitives R_http)

lemmas keeps = kube_keeps keeps_http

end

definition same_proxies :: "world \<Rightarrow> world \<Rightarrow> bool" where
  "same_proxies w v \<longleftrightarrow> w_proxies v = w_proxies w"

definition same_eventing :: "world \<Rightarrow> world \<Rightarrow> bool" where
  "same_eventing w v \<longleftrightarrow>
     w_eventing v = w_eventing w \<and> w_subscription_id v = w_subscription_id w \<and>
     w_dns_active v = w_dns_active w \<and> w_shutting_down v = w_shutting_down w"

definition calls_grow :: "world \<Rightarrow> world \<Rightarrow> bool" where
  "calls_grow w v \<longleftrightarrow> (\<exists>cs. w_calls v = w_calls w @ cs)"

interpretation same_proxies: world_frame same_proxies
  by unfold_locales (auto simp: same_proxies_def)

interpretation same_eventing: world_frame same_eventing
  by unfold_locales (auto simp: same_eventing_def)

interpretation calls_grow: world_frame calls_grow
  by unfold_locales (auto simp: calls_grow_def)

lemma on_proxies_frames:
  "state_io_rel same_eventing (on_proxies m)" "state_io_rel calls_grow (on_proxies m)"
  by (auto simp: state_io_rel_def on_proxies_def same_eventing_def calls_grow_def)

end
