(* ===== verification/Sample_Env.thy ===== *)
theory Sample_Env
  imports World
begin

text \<open>
  A concrete environment for the witnesses: every request succeeds with an empty answer, the clock
  advances by a second per call made, and durations and time stamps are \<open>chrono\<close>'s on
  nanoseconds. The witnesses replace the fields they care about.
\<close>

definition next_port_bind :: os_bind where
  "next_port_bind n inuse p =
     (let q = of_nat (Suc n)
      in if q = 0 \<or> (p, q) \<in> set inuse then BindFailed ''address in use'' else Bound q)"

definition sample_env :: env where
  "sample_env =
     \<lparr>http_answer = (\<lambda>h rq. Inr \<lparr>rs_success = True, rs_status = ''200 OK'', rs_header = (\<lambda>_. None), rs_text = Inr ''''\<rparr>),
      kube_answer = (\<lambda>h c. Inr ()),
      list_pm_answer = (\<lambda>h c. Inr []),
      get_gs_answer = (\<lambda>h c. Inr None),
      list_dns_answer = (\<lambda>h c. Inr []),
      utc_now = (\<lambda>h. int (length h) * 1000000000),
      instant_now = (\<lambda>h. int (length h) * 1000000000),
      add_secs = (\<lambda>t s. t + s * 1000000000),
      num_seconds = (\<lambda>t u. sgn (t - u) * (\<bar>t - u\<bar> div 1000000000)),
      timestamp = (\<lambda>t. t div 1000000000),
      os_binds = next_port_bind,
      xml_events = (\<lambda>_. [])\<rparr>"

end
