(* ===== verification/Proxy_Facts.thy ===== *)
theory Proxy_Facts
  imports Proxy Proxy_Interface Sample_Env
begin

text \<open>
  Correctness of the proxy manager: the invariant that ties the table of handles to the tasks
  not told to stop, the interpretation of \<open>proxy_service\<close>, and the ports of the proxies under
  the operating system's promise not to give out a bound port.
\<close>

section \<open>The invariant\<close>

definition task_of :: "string \<Rightarrow> proxy_handle \<Rightarrow> proxy_task" where
  "task_of key h =
     \<lparr>pt_port = ph_local_port h, pt_target = ph_target h, pt_protocol = ph_protocol h,
      pt_key = key, pt_stop = False\<rparr>"

text \<open>
  Every handle's channel leads to a task not told to stop for its key, target, protocol and port; every
  such task is reached from the table, under its own key.
\<close>

definition proxy_inv :: "proxy_manager \<Rightarrow> bool" where
  "proxy_inv m \<longleftrightarrow>
     (\<forall>k h. px_proxies m k = Some h \<longrightarrow>
        ph_shutdown h < length (px_tasks m) \<and> px_tasks m ! ph_shutdown h = task_of k h) \<and>
     (\<forall>c < length (px_tasks m). \<not> pt_stop (px_tasks m ! c) \<longrightarrow>
        (\<exists>h. px_proxies m (pt_key (px_tasks m ! c)) = Some h \<and> ph_shutdown h = c))"

lemma proxy_inv_handle:
  "proxy_inv m \<Longrightarrow> px_proxies m k = Some h \<Longrightarrow>
   ph_shutdown h < length (px_tasks m) \<and> px_tasks m ! ph_shutdown h = task_of k h"
  by (simp add: proxy_inv_def)

lemma proxy_inv_task:
  "proxy_inv m \<Longrightarrow> c < length (px_tasks m) \<Longrightarrow> \<not> pt_stop (px_tasks m ! c) \<Longrightarrow>
   \<exists>h. px_proxies m (pt_key (px_tasks m ! c)) = Some h \<and> ph_shutdown h = c"
  by (simp add: proxy_inv_def)

lemma proxy_inv_new [simp]: "proxy_inv (new_manager ip)"
  by (simp add: proxy_inv_def new_manager_def)

lemma proxy_inv_count_bind [simp]: "proxy_inv (count_bind m) \<longleftrightarrow> proxy_inv m"
  by (simp add: proxy_inv_def)

lemma signal_simps [simp]:
  "length (signal c ts) = length ts"
  "i < length ts \<Longrightarrow> signal c ts ! i = (if i = c then (ts ! i)\<lparr>pt_stop := True\<rparr> else ts ! i)"
  by (auto simp: signal_def nth_list_update)

lemma proxy_inv_remove:
  assumes inv: "proxy_inv m"
  shows "proxy_inv (remove_handle key m)"
proof (cases "px_proxies m key")
  case None
  then show ?thesis using inv by (simp add: remove_handle_def)
next
  case (Some h)
  note key = proxy_inv_handle [OF inv Some]
  have tasks: "px_tasks (remove_handle key m) = signal (ph_shutdown h) (px_tasks m)"
    by (simp add: remove_handle_def Some)
  have other: "ph_shutdown h' \<noteq> ph_shutdown h"
    if "px_proxies m k = Some h'" and "k \<noteq> key" for k h'
    using proxy_inv_handle [OF inv that(1)] key that(2) by (auto simp: task_of_def)
  have task_key: "pt_key (px_tasks m ! c) \<noteq> key"
    if "c < length (px_tasks m)" and "\<not> pt_stop (px_tasks m ! c)" and "c \<noteq> ph_shutdown h" for c
    using proxy_inv_task [OF inv that(1,2)] that(3) Some by auto
  show ?thesis
    unfolding proxy_inv_def tasks
    using inv other task_key by (auto simp: proxy_inv_def split: if_splits)
qed

lemma proxy_inv_started:
  assumes inv: "proxy_inv m" and None: "px_proxies m key = None"
  shows "proxy_inv (started key target proto port m)"
proof -
  have "pt_key (px_tasks m ! c) \<noteq> key" if "c < length (px_tasks m)" "\<not> pt_stop (px_tasks m ! c)" for c
    using proxy_inv_task [OF inv that] None by auto
  with inv show ?thesis
    by (fastforce simp: proxy_inv_def started_def task_of_def nth_append less_Suc_eq)
qed

lemma proxy_inv_ensure:
  assumes "run_state (ensure_proxy bnd key target proto) m = (r, m')" and "proxy_inv m"
  shows "proxy_inv m'"
  using assms(1) by (cases rule: ensure_proxy_cases)
    (simp_all add: assms(2) proxy_inv_remove proxy_inv_started)

section \<open>The contract\<close>

definition serves :: "proxy_manager \<Rightarrow> string \<Rightarrow> (string \<times> protocol \<times> u16) option" where
  "serves m key = map_option (\<lambda>h. (ph_target h, ph_protocol h, ph_local_port h)) (px_proxies m key)"

lemma serves_simps [simp]:
  "serves (count_bind m) = serves m"
  "serves (remove_handle key m) = (serves m)(key := None)"
  "serves (started key target proto port m) = (serves m)(key \<mapsto> (target, proto, port))"
  by (auto simp: serves_def started_def fun_eq_iff)

lemma same_proxy_iff: "same_proxy m key target proto port \<longleftrightarrow> serves m key = Some (target, proto, port)"
  by (auto simp: same_proxy_def serves_def split: option.splits)

interpretation px: proxy_service "ensure_proxy bnd" stop_proxy serves proxy_inv for bnd
proof unfold_locales
  fix k t p port m m' e r k'
  show "serves m' k = Some (t, p, port)" if "run_state (ensure_proxy bnd k t p) m = (Ok port, m')"
    using that by (cases rule: ensure_proxy_cases) (simp_all add: same_proxy_iff)
  show "serves m' k = None" if "run_state (ensure_proxy bnd k t p) m = (Err e, m')"
    using that by (cases rule: ensure_proxy_cases) simp_all
  show "run_state (ensure_proxy bnd k t p) m \<noteq> (Panicked, m')"
  proof
    assume "run_state (ensure_proxy bnd k t p) m = (Panicked, m')"
    then show False by (cases rule: ensure_proxy_cases) simp_all
  qed
  show "serves m' k' = serves m k'" if "run_state (ensure_proxy bnd k t p) m = (r, m')" "k' \<noteq> k"
    using that(1) by (cases rule: ensure_proxy_cases) (simp_all add: that(2))
  show "run_state (ensure_proxy bnd k t p) m = (Ok port, m)" if "serves m k = Some (t, p, port)"
    using that by (simp add: run_ensure_same same_proxy_iff)
  show "proxy_inv m'" if "run_state (ensure_proxy bnd k t p) m = (r, m')" "proxy_inv m"
    using that by (rule proxy_inv_ensure)
next
  fix k m m' and u :: unit
  assume run: "run_state (stop_proxy k) m = (u, m')"
  then show "serves m' = (serves m)(k := None)" by auto
  show "proxy_inv m'" if "proxy_inv m"
    using run that by (auto simp: proxy_inv_remove)
qed

text \<open>
  C18. A call of \<open>ensure_proxy\<close> that succeeds leaves a proxy under the key, for the target and the
  protocol asked for and on the port it returns; one that fails leaves none under the key; it never
  panics and touches no other key.
\<close>

theorem ensure_proxy_contract:
  assumes "run_state (ensure_proxy bnd key target proto) m = (r, m')"
  shows "(case r of Ok port \<Rightarrow> get_port m' key = Some port \<and> serves m' key = Some (target, proto, port)
           | Err e \<Rightarrow> get_port m' key = None
           | Panicked \<Rightarrow> False)
         \<and> (\<forall>k. k \<noteq> key \<longrightarrow> px_proxies m' k = px_proxies m k)"
proof -
  have "get_port n key = map_option (\<lambda>(t, p, port). port) (serves n key)" for n
    by (simp add: get_port_def serves_def option.map_comp o_def)
  moreover have "px_proxies m' k = px_proxies m k" if "k \<noteq> key" for k
    using assms by (cases rule: ensure_proxy_cases) (simp_all add: that started_def)
  ultimately show ?thesis
    using px.ensure_result [OF assms] by (auto split: outcome.splits)
qed

theorem ensure_proxy_contract_witness:
  "get_port (snd (run_state (ensure_proxy next_port_bind ''k'' ''10.0.0.1:80'' Tcp)
     (new_manager ''192.168.0.2''))) ''k'' = Some 1"
proof -
  let ?run = "run_state (ensure_proxy next_port_bind ''k'' ''10.0.0.1:80'' Tcp) (new_manager ''192.168.0.2'')"
  have run: "?run = (Ok 1, started ''k'' ''10.0.0.1:80'' Tcp 1 (count_bind (new_manager ''192.168.0.2'')))"
    by (simp add: run_ensure_other same_proxy_def run_restart_proxy next_port_bind_def new_manager_def
        remove_handle_def live_sockets_def unstopped_def Let_def)
  show ?thesis using ensure_proxy_contract [OF run] by (simp add: run)
qed

text \<open>A second call with the same arguments changes nothing and returns the same port.\<close>

lemma ensure_proxy_idempotent:
  assumes "run_state (ensure_proxy bnd key target proto) m = (Ok port, m')"
  shows "run_state (ensure_proxy bnd' key target proto) m' = (Ok port, m')"
  by (rule px.ensure_again) (rule px.ensure_Ok [OF assms])

section \<open>Every history of calls\<close>

datatype proxy_op = EnsureOp string string protocol | StopOp string

fun run_op :: "os_bind \<Rightarrow> proxy_op \<Rightarrow> proxy_manager \<Rightarrow> proxy_manager" where
  "run_op bnd (EnsureOp key target proto) m = snd (run_state (ensure_proxy bnd key target proto) m)"
| "run_op bnd (StopOp key) m = snd (run_state (stop_proxy key) m)"

definition run_ops :: "os_bind \<Rightarrow> string \<Rightarrow> proxy_op list \<Rightarrow> proxy_manager" where
  "run_ops bnd ip ops = fold (run_op bnd) ops (new_manager ip)"

lemma fold_run_op:
  assumes "\<And>m m' r k t p. run_state (ensure_proxy bnd k t p) m = (r, m') \<Longrightarrow> I m \<Longrightarrow> I m'"
    and "\<And>m k. I m \<Longrightarrow> I (remove_handle k m)" and "I m"
  shows "I (fold (run_op bnd) ops m)"
  using assms(3)
proof (induction ops arbitrary: m)
  case (Cons op ops)
  have "I (run_op bnd op m)"
    by (cases op) (auto intro: assms(1) [OF prod.collapse [symmetric]] assms(2) Cons.prems)
  then show ?case by (simp add: Cons.IH)
qed simp

lemma run_ops_inv: "proxy_inv (run_ops bnd ip ops)"
  unfolding run_ops_def by (rule fold_run_op) (auto intro: proxy_inv_ensure proxy_inv_remove)

lemma unstopped_iff_table:
  assumes "proxy_inv m"
  shows "set (unstopped m) = {task_of key h | key h. px_proxies m key = Some h}" (is "_ = ?T")
proof (intro equalityI subsetI)
  fix t assume "t \<in> set (unstopped m)"
  then obtain c where c: "c < length (px_tasks m)" "t = px_tasks m ! c" "\<not> pt_stop t"
    by (auto simp: unstopped_def in_set_conv_nth)
  then obtain h where h: "px_proxies m (pt_key t) = Some h" "ph_shutdown h = c"
    using proxy_inv_task [OF assms, of c] by auto
  then have "t = task_of (pt_key t) h"
    using proxy_inv_handle [OF assms h(1)] c(2) by simp
  with h(1) show "t \<in> ?T" by blast
next
  fix t assume "t \<in> ?T"
  then obtain k h where t: "t = task_of k h" "px_proxies m k = Some h" by blast
  from proxy_inv_handle [OF assms t(2)] have "t \<in> set (px_tasks m)" "\<not> pt_stop t"
    by (auto simp: t(1) in_set_conv_nth) (simp add: task_of_def)
  then show "t \<in> set (unstopped m)" by (simp add: unstopped_def)
qed

text \<open>
  After any sequence of \<open>ensure_proxy\<close> and \<open>stop_proxy\<close> calls, whatever the operating system
  answers to the binds, the proxy tasks that run are exactly those of the handles in the table: a
  replaced or removed proxy has been told to stop, and no proxy in the table has been.
\<close>

lemma no_leaked_proxy:
  "set (unstopped (run_ops bnd ip ops)) = {task_of key h | key h. px_proxies (run_ops bnd ip ops) key = Some h}"
  by (rule unstopped_iff_table [OF run_ops_inv])

section \<open>Ports\<close>

text \<open>
  What a socket bound to port 0 gets from the operating system: a port that no other socket of
  the protocol holds, and not 0.
\<close>

definition fresh_binds :: "os_bind \<Rightarrow> bool" where
  "fresh_binds bnd \<longleftrightarrow>
     (\<forall>n inuse p port. bnd n inuse p = Bound port \<longrightarrow> (p, port) \<notin> set inuse \<and> port \<noteq> 0)"

lemma fresh_next_port_bind: "fresh_binds next_port_bind"
  by (auto simp: fresh_binds_def next_port_bind_def Let_def split: if_splits)

lemma live_signal:
  "distinct (map f (filter (\<lambda>t. \<not> pt_stop t) ts)) \<Longrightarrow>
     distinct (map f (filter (\<lambda>t. \<not> pt_stop t) (signal c ts)))"
  "set (filter (\<lambda>t. \<not> pt_stop t) (signal c ts)) \<subseteq> set (filter (\<lambda>t. \<not> pt_stop t) ts)"
proof (induction ts arbitrary: c)
  case (Cons t ts)
  { case 1 then show ?case using Cons [of "c - 1"]
      by (cases c) (auto simp: signal_def split: if_splits) }
  { case 2 then show ?case using Cons [of "c - 1"]
      by (cases c) (auto simp: signal_def split: if_splits) }
qed (simp_all add: signal_def)

definition ports_inv :: "proxy_manager \<Rightarrow> bool" where
  "ports_inv m \<longleftrightarrow> distinct (live_sockets m) \<and> (\<forall>(p, port) \<in> set (live_sockets m). port \<noteq> 0)"

lemma live_sockets_started [simp]:
  "live_sockets (started key target proto port m) = live_sockets m @ [(proto, port)]"
  by (simp add: live_sockets_def unstopped_def started_def)

lemma ports_inv_remove: "ports_inv m \<Longrightarrow> ports_inv (remove_handle key m)"
  using live_signal(1) [where f = "\<lambda>t. (pt_protocol t, pt_port t)" and ts = "px_tasks m"]
    live_signal(2) [where ts = "px_tasks m"]
  by (fastforce simp: ports_inv_def live_sockets_def unstopped_def remove_handle_def split: option.splits)

lemma ports_inv_ensure:
  assumes "fresh_binds bnd" and "run_state (ensure_proxy bnd key target proto) m = (r, m')" and "ports_inv m"
  shows "ports_inv m'"
  using assms(2)
proof (cases rule: ensure_proxy_cases)
  case (start port)
  with assms(1) have "(proto, port) \<notin> set (live_sockets (remove_handle key m))" "port \<noteq> 0"
    by (auto simp: fresh_binds_def)
  with ports_inv_remove [OF assms(3), of key] show ?thesis
    by (auto simp: start(3) ports_inv_def)
qed (use assms(3) ports_inv_remove [OF assms(3)] in \<open>auto simp: ports_inv_def\<close>)

lemma ports_inv_new: "ports_inv (new_manager ip)"
  by (simp add: ports_inv_def new_manager_def live_sockets_def unstopped_def)

lemma run_ops_ports: "fresh_binds bnd \<Longrightarrow> ports_inv (run_ops bnd ip ops)"
  unfolding run_ops_def
  by (rule fold_run_op) (auto intro: ports_inv_ensure ports_inv_remove ports_inv_new)

lemma distinct_filter_nth:
  "distinct (map f (filter P ts)) \<Longrightarrow> i < length ts \<Longrightarrow> j < length ts \<Longrightarrow> P (ts ! i) \<Longrightarrow> P (ts ! j) \<Longrightarrow>
   f (ts ! i) = f (ts ! j) \<Longrightarrow> i = j"
proof (induction ts arbitrary: i j)
  case (Cons t ts)
  have rest: "distinct (map f (filter P ts))" using Cons.prems(1) by (simp split: if_splits)
  have head: False if "P t" and "n < length ts" and "P (ts ! n)" and "f (ts ! n) = f t" for n
  proof -
    have "f t \<notin> f ` {x \<in> set ts. P x}" using Cons.prems(1) that(1) by simp
    moreover have "f (ts ! n) \<in> f ` {x \<in> set ts. P x}" using that(2,3) by simp
    ultimately show False using that(4) by simp
  qed
  show ?case
  proof (cases i)
    case [simp]: 0
    then show ?thesis using Cons.prems head [of "j - 1"] by (cases j) auto
  next
    case [simp]: (Suc i')
    show ?thesis
    proof (cases j)
      case 0
      then show ?thesis using Cons.prems head [of i'] by auto
    next
      case [simp]: (Suc j')
      show ?thesis using Cons.IH [OF rest, of i' j'] Cons.prems by simp
    qed
  qed
qed simp

lemma table_ports_inj:
  assumes "proxy_inv m" and "ports_inv m" and "px_proxies m k = Some h" and "px_proxies m k' = Some h'"
    and "ph_protocol h = ph_protocol h'" and "ph_local_port h = ph_local_port h'"
  shows "k = k'"
proof -
  note h = proxy_inv_handle [OF assms(1,3)] proxy_inv_handle [OF assms(1,4)]
  have "ph_shutdown h = ph_shutdown h'"
    by (rule distinct_filter_nth [where f = "\<lambda>t. (pt_protocol t, pt_port t)" and P = "\<lambda>t. \<not> pt_stop t"
          and ts = "px_tasks m"])
      (use h assms(2,5,6) in \<open>auto simp: ports_inv_def live_sockets_def unstopped_def task_of_def\<close>)
  with h show ?thesis by (auto simp: task_of_def)
qed

text \<open>
  If the operating system gives out no port that a proxy of the protocol holds, two keys
  of the table never have the same port for the same protocol.
\<close>

lemma proxies_have_distinct_ports:
  assumes "fresh_binds bnd"
    and "px_proxies (run_ops bnd ip ops) k = Some h" and "px_proxies (run_ops bnd ip ops) k' = Some h'"
    and "k \<noteq> k'" and "ph_protocol h = ph_protocol h'"
  shows "ph_local_port h \<noteq> ph_local_port h'"
  using table_ports_inj [OF run_ops_inv run_ops_ports [OF assms(1)] assms(2,3,5)] assms(4) by auto

lemma proxies_have_distinct_ports_witness:
  "ph_local_port (the (px_proxies (run_ops next_port_bind ''ip'' [EnsureOp ''a'' ''t'' Tcp, EnsureOp ''b'' ''t'' Tcp]) ''a''))
   \<noteq> ph_local_port (the (px_proxies (run_ops next_port_bind ''ip'' [EnsureOp ''a'' ''t'' Tcp, EnsureOp ''b'' ''t'' Tcp]) ''b''))"
proof -
  let ?m = "run_ops next_port_bind ''ip'' [EnsureOp ''a'' ''t'' Tcp, EnsureOp ''b'' ''t'' Tcp]"
  have m: "px_proxies ?m = [''a'' \<mapsto> \<lparr>ph_local_port = 1, ph_target = ''t'', ph_protocol = Tcp, ph_shutdown = 0\<rparr>,
      ''b'' \<mapsto> \<lparr>ph_local_port = 2, ph_target = ''t'', ph_protocol = Tcp, ph_shutdown = 1\<rparr>]"
    by (simp add: run_ops_def run_ensure_other same_proxy_def run_restart_proxy next_port_bind_def
        new_manager_def remove_handle_def started_def count_bind_def live_sockets_def unstopped_def Let_def)
  show ?thesis
    by (rule proxies_have_distinct_ports [OF fresh_next_port_bind, of "''ip''" "[EnsureOp ''a'' ''t'' Tcp, EnsureOp ''b'' ''t'' Tcp]"
          "''a''" _ "''b''"]) (simp_all add: m)
qed

text \<open>The table is bounded by the ports there are: 65535 for each of the two protocols.\<close>

lemma proxy_count_bound:
  assumes "fresh_binds bnd"
  shows "card (active_keys (run_ops bnd ip ops)) \<le> 2 * 65535"
proof -
  let ?m = "run_ops bnd ip ops"
  let ?f = "\<lambda>k. (ph_protocol (the (px_proxies ?m k)), ph_local_port (the (px_proxies ?m k)))"
  let ?B = "(UNIV :: protocol set) \<times> (UNIV - {0 :: u16})"
  have "inj_on ?f (active_keys ?m)"
    by (auto simp: active_keys_def inj_on_def
        intro: table_ports_inj [OF run_ops_inv run_ops_ports [OF assms]])
  moreover have "?f ` active_keys ?m \<subseteq> ?B"
  proof
    fix x assume "x \<in> ?f ` active_keys ?m"
    then obtain k h where h: "px_proxies ?m k = Some h" "x = (ph_protocol h, ph_local_port h)"
      by (auto simp: active_keys_def)
    have "task_of k h \<in> set (unstopped ?m)" using h(1) unstopped_iff_table [OF run_ops_inv] by blast
    then have "x \<in> set (live_sockets ?m)"
      by (force simp: live_sockets_def task_of_def h(2))
    then show "x \<in> ?B"
      using run_ops_ports [OF assms, of ip ops] by (auto simp: ports_inv_def)
  qed
  ultimately have "card (active_keys ?m) \<le> card ?B"
    by (intro card_inj_on_le) simp_all
  also have "card ?B = 2 * 65535"
    by (simp add: card_cartesian_product card_protocol card_Diff_singleton card_word)
  finally show ?thesis .
qed

end
