(* ===== verification/Rust_Str_Facts.thy ===== *)
theory Rust_Str_Facts
  imports Rust_Str
begin

text \<open>
  The laws of \<open>Rust_Str\<close> that the components use: splitting against joining, first occurrences,
  slices at occurrences, and the round trip of decimal numbers.
\<close>

section \<open>Splitting and joining\<close>

lemma split_char_nonempty [simp]: "split_char d s \<noteq> []"
  by (cases s) auto

lemma split_char_notin: "d \<notin> set s \<Longrightarrow> split_char d s = [s]"
  by (induction s) auto

lemma split_char_append: "split_char d (a @ d # b) = split_char d a @ split_char d b"
  by (induction a) (auto simp: neq_Nil_conv)

lemma split_char_parts: "p \<in> set (split_char d s) \<Longrightarrow> d \<notin> set p"
proof (induction s arbitrary: p)
  case (Cons c s)
  have "d \<notin> set (hd (split_char d s))" by (rule Cons.IH) simp
  moreover have "q \<in> set (tl (split_char d s)) \<Longrightarrow> d \<notin> set q" for q
    by (rule Cons.IH) (auto dest: list.set_sel(2) [OF split_char_nonempty])
  moreover have "q \<in> set (split_char d s) \<Longrightarrow> d \<notin> set q" for q
    by (rule Cons.IH)
  ultimately show ?case using Cons.prems by (auto split: if_splits)
qed simp

lemma split_join:
  "ps \<noteq> [] \<Longrightarrow> \<forall>p \<in> set ps. d \<notin> set p \<Longrightarrow> split_char d (join_char d ps) = ps"
  by (induction d ps rule: join_char.induct) (auto simp: split_char_notin split_char_append)

lemma split_once_hit: "d \<notin> set a \<Longrightarrow> split_once d (a @ d # b) = Some (a, b)"
  by (induction a) auto

lemma split_once_None_iff: "split_once d s = None \<longleftrightarrow> d \<notin> set s"
  by (induction s) auto

lemma split_once_Some:
  "split_once d s = Some (a, b) \<Longrightarrow> s = a @ d # b \<and> d \<notin> set a"
  by (induction s arbitrary: a b) (auto split: if_splits simp: apfst_def map_prod_def)

section \<open>First occurrences\<close>

lemma find_sub_bound: "find_sub pat s = Some i \<Longrightarrow> i + length pat \<le> length s"
proof (induction s arbitrary: i)
  case (Cons c s)
  then show ?case
    by (auto split: if_splits dest: prefix_length_le)
qed (auto split: if_splits)

lemma find_sub_at: "find_sub pat s = Some i \<Longrightarrow> prefix pat (drop i s)"
  by (induction s arbitrary: i) (auto split: if_splits)

lemma find_sub_first: "find_sub pat s = Some i \<Longrightarrow> j < i \<Longrightarrow> \<not> prefix pat (drop j s)"
proof (induction s arbitrary: i j)
  case (Cons c s)
  then show ?case by (cases j) (auto split: if_splits)
qed (auto split: if_splits)

lemma find_sub_None_iff: "find_sub pat s = None \<longleftrightarrow> \<not> sublist pat s"
  by (induction s) (auto simp: sublist_Cons_right)

lemma str_contains_iff: "str_contains s pat \<longleftrightarrow> sublist pat s"
  by (simp add: str_contains_def find_sub_None_iff)

text \<open>A pattern is found where it stands when its first byte does not occur before.\<close>

lemma find_sub_skip: "c \<notin> set a \<Longrightarrow> find_sub (c # p) (a @ s) = map_option ((+) (length a)) (find_sub (c # p) s)"
proof (induction a)
  case (Cons x a)
  then show ?case by (cases "find_sub (c # p) s") auto
next
  case Nil
  then show ?case by (cases "find_sub (c # p) s") auto
qed

lemma find_sub_here: "find_sub p (p @ s) = Some 0"
proof (cases "p @ s")
  case (Cons a r)
  have "prefix p (p @ s)" by simp
  then show ?thesis unfolding Cons by simp
qed simp

lemma find_sub_absent: "c \<notin> set s \<Longrightarrow> find_sub (c # p) s = None"
  by (induction s) auto

section \<open>Slices\<close>

lemma utf8_from_append: "utf8_from b (s @ t) \<Longrightarrow> utf8_from b s \<and> (\<exists>b'. utf8_from b' t)"
  by (induction s arbitrary: b) auto

lemma utf8_from_weaken: "utf8_from b s \<Longrightarrow> utf8_from False s"
  by (cases s) auto

lemma utf8_lead_ranges:
  "utf8_lead b = Some rs \<Longrightarrow>
     (b < 128 \<longrightarrow> rs = []) \<and> (128 \<le> b \<longrightarrow> 192 \<le> b) \<and> (\<forall>(lo, hi) \<in> set rs. 128 \<le> lo \<and> hi < 192)"
  by (auto simp: utf8_lead_def split: if_splits)

lemma utf8_rest_from:
  "utf8_rest rs s \<Longrightarrow> \<forall>(lo, hi) \<in> set rs. 128 \<le> lo \<and> hi < 192 \<Longrightarrow> utf8_from (rs = []) s"
proof (induction rs s rule: utf8_rest.induct)
  case (3 c s)
  then obtain rs where rs: "utf8_lead (byte c) = Some rs" "utf8_rest rs s" by (auto split: option.splits)
  note r = utf8_lead_ranges [OF rs(1)]
  with 3 rs have "utf8_from (rs = []) s" by blast
  then have "utf8_from (is_ascii c) s"
    using r utf8_from_weaken by (cases "is_ascii c") (auto simp: is_ascii_def)
  moreover have "\<not> is_cont c" using r by (auto simp: is_cont_def)
  ultimately show ?case by simp
next
  case (4 lo hi rs c s)
  then have "utf8_from False s" using utf8_from_weaken by auto
  moreover have "\<not> is_ascii c" using 4 by (auto simp: is_ascii_def)
  ultimately show ?case by simp
qed simp_all

text \<open>What \<open>String::from_utf8\<close> accepts has the property the proofs use.\<close>

lemma valid_utf8_utf8: "valid_utf8 s \<Longrightarrow> utf8 s"
  using utf8_rest_from [of "[]" s] by (simp add: valid_utf8_def utf8_def)

lemma utf8_from_after_ascii:
  "utf8_from b (s @ c # t) \<Longrightarrow> is_ascii c \<Longrightarrow> utf8_from True t"
  by (induction s arbitrary: b) auto

text \<open>The offset of an ASCII byte, and the offset right after one, are character boundaries.\<close>

lemma boundary_at_ascii:
  "is_ascii c \<Longrightarrow> is_char_boundary (a @ c # b) (length a)"
  by (simp add: is_char_boundary_def ascii_not_cont)

lemma boundary_after_ascii:
  assumes "utf8 (a @ c # b)" and "is_ascii c"
  shows "is_char_boundary (a @ c # b) (Suc (length a))"
proof (cases b)
  case (Cons d b')
  with assms have "\<not> is_cont d"
    using utf8_from_after_ascii [of True a c b] by (simp add: utf8_def)
  then show ?thesis by (simp add: is_char_boundary_def Cons nth_append)
qed (simp add: is_char_boundary_def)

lemma str_slice_middle:
  assumes "is_char_boundary (a @ m @ b) (length a)"
    and "is_char_boundary (a @ m @ b) (length a + length m)"
  shows "str_slice (a @ m @ b) (length a) (length a + length m) = Ok m"
  using assms by (simp add: str_slice_def)

lemma str_slice_never_err: "str_slice s a b \<noteq> Err e"
  by (simp add: str_slice_def)

section \<open>Decimal numbers\<close>

lemma byte_digit_char: "d < 10 \<Longrightarrow> byte (digit_char d) = 48 + d"
  by (simp add: byte_def digit_char_def)

lemma digit_val_digit_char [simp]: "d < 10 \<Longrightarrow> digit_val (digit_char d) = Some d"
  by (simp add: digit_val_def byte_digit_char)

lemma digits_value_append:
  "digits_value mx acc (a @ b) =
     (case digits_value mx acc a of None \<Rightarrow> None | Some v \<Rightarrow> digits_value mx v b)"
  by (induction a arbitrary: acc) (auto split: option.splits)

lemma digits_value_show_nat: "n \<le> mx \<Longrightarrow> digits_value mx 0 (show_nat n) = Some n"
proof (induction n rule: show_nat.induct)
  case (1 n)
  show ?case
  proof (cases "n < 10")
    case True
    with "1.prems" show ?thesis by (simp add: show_nat.simps [of n])
  next
    case False
    moreover have "digits_value mx 0 (show_nat (n div 10)) = Some (n div 10)"
      using False "1.prems" by (intro "1.IH") auto
    ultimately show ?thesis
      using "1.prems" by (simp add: show_nat.simps [of n] digits_value_append)
  qed
qed

lemma digits_value_bound: "acc \<le> mx \<Longrightarrow> digits_value mx acc s = Some v \<Longrightarrow> v \<le> mx"
  by (induction s arbitrary: acc) (fastforce simp: not_less split: option.splits if_splits)+

lemma parse_unsigned_bound: "parse_unsigned mx s = Some v \<Longrightarrow> v \<le> mx"
  by (auto simp: parse_unsigned_def simp del: digits_value.simps
        split: list.splits if_splits dest: digits_value_bound [rotated])

text \<open>The bytes of a printed number are digits, and there is at least one.\<close>

definition digit_byte :: "char \<Rightarrow> bool" where
  "digit_byte c \<longleftrightarrow> 48 \<le> byte c \<and> byte c \<le> 57"

lemma show_nat_digits: "c \<in> set (show_nat n) \<Longrightarrow> digit_byte c"
proof (induction n rule: show_nat.induct)
  case (1 n)
  then show ?case
    by (subst (asm) (2) show_nat.simps) (auto simp: digit_byte_def byte_digit_char split: if_splits)
qed

lemma show_nat_nonempty [simp]: "show_nat n \<noteq> []"
  by (subst show_nat.simps) simp

lemma not_digit_notin: "\<not> digit_byte c \<Longrightarrow> c \<notin> set (show_nat n)"
  by (auto dest: show_nat_digits)

lemma parse_unsigned_show: "n \<le> mx \<Longrightarrow> parse_unsigned mx (show_nat n) = Some n"
proof -
  assume le: "n \<le> mx"
  obtain c r where cr: "show_nat n = c # r" by (cases "show_nat n") auto
  then have "digit_byte c" by (intro show_nat_digits [of c n]) simp
  then have "c \<noteq> CHR ''+''" by (auto simp: digit_byte_def byte_def)
  then show ?thesis
    using digits_value_show_nat [OF le] by (simp add: parse_unsigned_def cr)
qed

lemma parse_show_u16 [simp]: "parse_u16 (show_u16 p) = Some p"
proof -
  have "unat p \<le> 2 ^ 16 - 1" using unsigned_less [of p, where ?'a = nat] by simp
  then show ?thesis by (simp add: parse_u16_def show_u16_def parse_unsigned_show del: One_nat_def)
qed

lemma parse_show_u32 [simp]: "parse_u32 (show_u32 p) = Some p"
proof -
  have "unat p \<le> 2 ^ 32 - 1" using unsigned_less [of p, where ?'a = nat] by simp
  then show ?thesis by (simp add: parse_u32_def show_u32_def parse_unsigned_show del: One_nat_def)
qed

lemma show_nat_inj: "show_nat m = show_nat n \<Longrightarrow> m = n"
  by (metis max.cobounded1 max.cobounded2 option.inject parse_unsigned_show)

lemma show_u16_inj: "show_u16 p = show_u16 q \<longleftrightarrow> p = q"
  by (metis option.inject parse_show_u16)

section \<open>Trimming\<close>

text \<open>A string whose first and last bytes are visible ASCII is its own trim.\<close>

definition visible :: "char \<Rightarrow> bool" where
  "visible c \<longleftrightarrow> 32 < byte c \<and> byte c < 128"

lemma visible_not_ws:
  "visible c \<Longrightarrow> \<not> ws1 c \<and> \<not> ws2 c b \<and> \<not> ws2 b c \<and> \<not> ws3 c b d \<and> \<not> ws3 b d c"
  by (auto simp: visible_def ws1_def ws2_def ws3_def)

lemma trim_start_visible: "visible c \<Longrightarrow> trim_start (c # s) = c # s"
  by (cases s rule: trim_start.cases) (auto simp: visible_not_ws)

lemma trim_rev_visible: "visible c \<Longrightarrow> trim_rev (c # s) = c # s"
  by (cases s rule: trim_rev.cases) (auto simp: visible_not_ws)

lemma trim_visible:
  assumes "s \<noteq> []" and "visible (hd s)" and "visible (last s)"
  shows "trim s = s"
proof -
  have "trim_start s = s"
    using assms(1,2) trim_start_visible [of "hd s" "tl s"] by simp
  moreover have "trim_rev (rev s) = rev s"
    using assms(1,3) trim_rev_visible [of "last s" "rev (butlast s)"]
    by (metis append_butlast_last_id rev.simps(2) rev_rev_ident rev_swap)
  ultimately show ?thesis by (simp add: trim_def)
qed

lemma trim_Nil [simp]: "trim [] = []"
  by (simp add: trim_def)

lemma digit_visible: "digit_byte c \<Longrightarrow> visible c"
  by (simp add: digit_byte_def visible_def)

lemma trim_show_nat [simp]: "trim (show_nat n) = show_nat n"
  by (intro trim_visible digit_visible show_nat_digits [of _ n]) auto

lemma trim_show_u16 [simp]: "trim (show_u16 p) = show_u16 p"
  by (simp add: show_u16_def)

lemma trim_start_suffix: "suffix (trim_start s) s"
  by (induction s rule: trim_start.induct) (auto simp: suffix_Cons)

lemma trim_rev_suffix: "suffix (trim_rev s) s"
  by (induction s rule: trim_rev.induct) (auto simp: suffix_Cons)

lemma trim_subset: "set (trim s) \<subseteq> set s"
proof -
  have "set (trim_rev (rev (trim_start s))) \<subseteq> set (rev (trim_start s))"
    by (rule set_mono_suffix) (rule trim_rev_suffix)
  also have "set (rev (trim_start s)) \<subseteq> set s"
    using set_mono_suffix [OF trim_start_suffix] by simp
  finally show ?thesis by (simp add: trim_def)
qed

end
