(* ===== verification/Upnp_Client.thy ===== *)
theory Upnp_Client
  imports World Rust_Str_Facts
begin

text \<open>
  The SOAP client of \<open>src/upnp/port_mapping.rs\<close>: the requests it writes, the field extraction by
  string search with which it reads responses, and the operations on port mappings. A response
  whose closing tag stands before its opening tag makes the slice in \<open>extract_xml_value\<close> panic.
\<close>

section \<open>Reading fields\<close>

definition open_tag :: "string \<Rightarrow> string" where
  "open_tag tag = ''<'' @ tag @ ''>''"

definition close_tag :: "string \<Rightarrow> string" where
  "close_tag tag = ''</'' @ tag @ ''>''"

definition extract_xml_value :: "string \<Rightarrow> string \<Rightarrow> (string, string) outcome" where
  "extract_xml_value xml tag =
     (case (find_sub (open_tag tag) xml, find_sub (close_tag tag) xml) of
        (Some start, Some end_) \<Rightarrow> str_slice xml (start + length (open_tag tag)) end_
      | _ \<Rightarrow> Err (''Tag '' @ tag @ '' not found in XML''))"

definition parse_external_ip :: "string \<Rightarrow> (string, string) outcome" where
  "parse_external_ip xml =
     map_err (\<lambda>_. ''ExternalIPAddress not found in response'')
       (extract_xml_value xml ''NewExternalIPAddress'')"

record port_mapping_entry =
  pe_external_port :: u16
  pe_protocol :: string
  pe_internal_client :: string
  pe_internal_port :: u16
  pe_description :: string
  pe_enabled :: bool
  pe_lease_duration :: u32

text \<open>\<open>unwrap_or_default\<close>, \<open>unwrap_or\<close>: an error becomes a value, a panic stays one.\<close>

fun recover :: "'a \<Rightarrow> ('e, 'a) outcome \<Rightarrow> ('e, 'a) outcome" where
  "recover d (Ok a) = Ok a"
| "recover d (Err e) = Ok d"
| "recover d Panicked = Panicked"

definition parse_port_mapping_entry :: "string \<Rightarrow> (string, port_mapping_entry) outcome" where
  "parse_port_mapping_entry xml =
     and_then (extract_xml_value xml ''NewExternalPort'') (\<lambda>ep.
     and_then (ok_or ''Invalid external port'' (parse_u16 ep)) (\<lambda>external_port.
     and_then (extract_xml_value xml ''NewProtocol'') (\<lambda>protocol.
     and_then (extract_xml_value xml ''NewInternalClient'') (\<lambda>internal_client.
     and_then (extract_xml_value xml ''NewInternalPort'') (\<lambda>ip.
     and_then (ok_or ''Invalid internal port'' (parse_u16 ip)) (\<lambda>internal_port.
     and_then (recover [] (extract_xml_value xml ''NewPortMappingDescription'')) (\<lambda>description.
     and_then (recover [] (extract_xml_value xml ''NewEnabled'')) (\<lambda>enabled.
     and_then (recover [] (extract_xml_value xml ''NewLeaseDuration'')) (\<lambda>lease.
       Ok \<lparr>pe_external_port = external_port, pe_protocol = protocol,
           pe_internal_client = internal_client, pe_internal_port = internal_port,
           pe_description = description, pe_enabled = (enabled = ''1''),
           pe_lease_duration = (case parse_u32 lease of Some l \<Rightarrow> l | None \<Rightarrow> 0)\<rparr>)))))))))"

section \<open>Writing requests\<close>

definition SOAP_NAMESPACE :: string where
  "SOAP_NAMESPACE = ''urn:schemas-upnp-org:service:WANIPConnection:1''"

definition nl :: string where
  "nl = [CHR 0x0A]"

definition quoted :: "string \<Rightarrow> string" where
  "quoted s = [CHR 0x22] @ s @ [CHR 0x22]"

definition xml_elem :: "string \<Rightarrow> string \<Rightarrow> string" where
  "xml_elem tag v = open_tag tag @ v @ close_tag tag"

definition soap_body :: "string \<Rightarrow> string" where
  "soap_body body =
     ''<?xml version='' @ quoted ''1.0'' @ ''?>'' @ nl @
     ''<s:Envelope xmlns:s='' @ quoted ''http://schemas.xmlsoap.org/soap/envelope/'' @ nl @
     ''            s:encodingStyle='' @ quoted ''http://schemas.xmlsoap.org/soap/encoding/'' @ ''>'' @ nl @
     ''  <s:Body>'' @ body @ ''</s:Body>'' @ nl @
     ''</s:Envelope>''"

text \<open>The element of an action, with each argument on a line of its own.\<close>

definition action_open :: "string \<Rightarrow> string" where
  "action_open action = ''<u:'' @ action @ '' xmlns:u='' @ quoted SOAP_NAMESPACE @ ''>''"

definition action_close :: "string \<Rightarrow> string" where
  "action_close action = ''</u:'' @ action @ ''>''"

definition add_port_mapping_body :: "u16 \<Rightarrow> string \<Rightarrow> u16 \<Rightarrow> string \<Rightarrow> string \<Rightarrow> u32 \<Rightarrow> string" where
  "add_port_mapping_body external_port internal_host internal_port protocol description lease_duration =
     action_open ''AddPortMapping'' @ nl @
     ''  '' @ xml_elem ''NewRemoteHost'' [] @ nl @
     ''  '' @ xml_elem ''NewExternalPort'' (show_u16 external_port) @ nl @
     ''  '' @ xml_elem ''NewProtocol'' protocol @ nl @
     ''  '' @ xml_elem ''NewInternalPort'' (show_u16 internal_port) @ nl @
     ''  '' @ xml_elem ''NewInternalClient'' internal_host @ nl @
     ''  '' @ xml_elem ''NewEnabled'' ''1'' @ nl @
     ''  '' @ xml_elem ''NewPortMappingDescription'' description @ nl @
     ''  '' @ xml_elem ''NewLeaseDuration'' (show_u32 lease_duration) @ nl @
     action_close ''AddPortMapping''"

definition delete_port_mapping_body :: "u16 \<Rightarrow> string \<Rightarrow> string" where
  "delete_port_mapping_body external_port protocol =
     action_open ''DeletePortMapping'' @ nl @
     ''  '' @ xml_elem ''NewRemoteHost'' [] @ nl @
     ''  '' @ xml_elem ''NewExternalPort'' (show_u16 external_port) @ nl @
     ''  '' @ xml_elem ''NewProtocol'' protocol @ nl @
     action_close ''DeletePortMapping''"

definition get_external_ip_body :: string where
  "get_external_ip_body = action_open ''GetExternalIPAddress'' @ action_close ''GetExternalIPAddress''"

definition get_entry_body :: "u32 \<Rightarrow> string" where
  "get_entry_body index =
     action_open ''GetGenericPortMappingEntry'' @ nl @
     ''  '' @ xml_elem ''NewPortMappingIndex'' (show_u32 index) @ nl @
     action_close ''GetGenericPortMappingEntry''"

section \<open>The client\<close>

record upnp_client =
  uc_control_url :: string

definition upnp_client_new :: "string \<Rightarrow> upnp_client" where
  "upnp_client_new control_url = \<lparr>uc_control_url = control_url\<rparr>"

definition soap_request :: "upnp_client \<Rightarrow> string \<Rightarrow> string \<Rightarrow> http_request" where
  "soap_request client action body =
     \<lparr>rq_method = ''POST'', rq_url = uc_control_url client,
      rq_headers = [(''Content-Type'', ''text/xml; charset=utf-8''),
                    (''SOAPAction'', quoted (SOAP_NAMESPACE @ ''#'' @ action))],
      rq_body = soap_body body\<rparr>"

text \<open>What \<open>soap_action\<close> makes of the answer to its request.\<close>

definition soap_result :: "string + http_response \<Rightarrow> (string, string) outcome" where
  "soap_result answer =
     (case answer of
        Inl e \<Rightarrow> Err ''SOAP request failed''
      | Inr response \<Rightarrow>
          (case rs_text response of
             Inl e \<Rightarrow> Err ''Failed to read SOAP response''
           | Inr text \<Rightarrow>
               if \<not> rs_success response
               then Err (''SOAP error '' @ rs_status response @ '': '' @ text)
               else Ok text))"

definition soap_action :: "env \<Rightarrow> upnp_client \<Rightarrow> string \<Rightarrow> string \<Rightarrow> (world, (string, string) outcome) state" where
  "soap_action env client action body = do {
     response \<leftarrow> http_send env (soap_request client action body);
     (case response of
        Ok rs \<Rightarrow> ret (soap_result (Inr rs))
      | Err e \<Rightarrow> ret (soap_result (Inl e))
      | Panicked \<Rightarrow> ret Panicked)
   }"

definition add_port_mapping ::
  "env \<Rightarrow> upnp_client \<Rightarrow> u16 \<Rightarrow> string \<Rightarrow> u16 \<Rightarrow> string \<Rightarrow> string \<Rightarrow> u32 \<Rightarrow> (world, (string, u32) outcome) state"
where
  "add_port_mapping env client external_port internal_host internal_port protocol description lease_duration =
     try_bind (soap_action env client ''AddPortMapping''
         (add_port_mapping_body external_port internal_host internal_port protocol description lease_duration))
       (\<lambda>_. ret (Ok lease_duration))"

definition delete_port_mapping ::
  "env \<Rightarrow> upnp_client \<Rightarrow> u16 \<Rightarrow> string \<Rightarrow> (world, (string, unit) outcome) state"
where
  "delete_port_mapping env client external_port protocol =
     try_bind (soap_action env client ''DeletePortMapping'' (delete_port_mapping_body external_port protocol))
       (\<lambda>_. ret (Ok ()))"

definition get_external_ip :: "env \<Rightarrow> upnp_client \<Rightarrow> (world, (string, string) outcome) state" where
  "get_external_ip env client =
     try_bind (soap_action env client ''GetExternalIPAddress'' get_external_ip_body)
       (\<lambda>response. ret (parse_external_ip response))"

definition get_generic_port_mapping_entry ::
  "env \<Rightarrow> upnp_client \<Rightarrow> u32 \<Rightarrow> (world, (string, port_mapping_entry option) outcome) state"
where
  "get_generic_port_mapping_entry env client index = do {
     r \<leftarrow> soap_action env client ''GetGenericPortMappingEntry'' (get_entry_body index);
     (case r of
        Ok response \<Rightarrow> ret (and_then (parse_port_mapping_entry response) (\<lambda>e. Ok (Some e)))
      | Err e \<Rightarrow>
          if str_contains e ''SpecifiedArrayIndexInvalid'' \<or> str_contains e ''713''
          then ret (Ok None) else ret (Err e)
      | Panicked \<Rightarrow> ret Panicked)
   }"

text \<open>
  The loop of \<open>list_port_mappings\<close> asks for index after index until the router has no entry; a
  router that always answers keeps it going, so it runs on fuel, \<open>None\<close> being out of fuel.
  \<open>index += 1\<close> wraps, as in a release build.
\<close>

fun list_port_mappings_from ::
  "nat \<Rightarrow> env \<Rightarrow> upnp_client \<Rightarrow> u32 \<Rightarrow> port_mapping_entry list \<Rightarrow>
   (world, (string, port_mapping_entry list) outcome option) state"
where
  "list_port_mappings_from 0 env client index mappings = ret None"
| "list_port_mappings_from (Suc fuel) env client index mappings = do {
     r \<leftarrow> get_generic_port_mapping_entry env client index;
     (case r of
        Ok (Some entry) \<Rightarrow> list_port_mappings_from fuel env client (index + 1) (mappings @ [entry])
      | Ok None \<Rightarrow> ret (Some (Ok mappings))
      | Err e \<Rightarrow> ret (Some (Err e))
      | Panicked \<Rightarrow> ret (Some Panicked))
   }"

definition list_port_mappings ::
  "nat \<Rightarrow> env \<Rightarrow> upnp_client \<Rightarrow> (world, (string, port_mapping_entry list) outcome option) state"
where
  "list_port_mappings fuel env client = list_port_mappings_from fuel env client 0 []"

section \<open>Effects\<close>

lemma wp_soap_action [wp_simps]:
  "wp (soap_action env client action body) Q w =
     Q (soap_result (http_answer env (w_calls w) (soap_request client action body)))
       (log_call (Http (soap_request client action body)) w)"
  by (simp add: soap_action_def wp_simps split: outcome.splits sum.splits)

lemma soap_result_no_panic [simp]: "soap_result answer \<noteq> Panicked"
  by (simp add: soap_result_def split: sum.splits)

lemmas upnp_defs =
  add_port_mapping_def delete_port_mapping_def get_external_ip_def get_generic_port_mapping_entry_def

context world_frame
begin

lemma keeps_soap_action: "state_io_rel R (soap_action env client action body)"
  unfolding soap_action_def by (intro keeps)

lemma keeps_upnp:
  "state_io_rel R (add_port_mapping env client ep host ip proto desc lease)"
  "state_io_rel R (delete_port_mapping env client ep proto)"
  "state_io_rel R (get_external_ip env client)"
  unfolding upnp_defs by (intro keeps keeps_soap_action)+

end

end
