(* ===== verification/Upnp_Facts.thy ===== *)
theory Upnp_Facts
  imports Upnp_Client Sample_Env
begin

text \<open>
  Correctness of the SOAP client. On a document made of simple elements, \<open>extract_xml_value\<close> is
  the lookup of an association list; so what \<open>add_port_mapping\<close> writes reads back as its
  arguments, and a rendered entry parses to itself. When it panics is characterised exactly.
\<close>

section \<open>Elements\<close>

abbreviation lt :: char where "lt \<equiv> CHR ''<''"
abbreviation gt :: char where "gt \<equiv> CHR ''>''"
abbreviation slash :: char where "slash \<equiv> CHR ''/''"

text \<open>Element names: not empty, without the bytes that end a tag, and ASCII at the end.\<close>

definition tag_name :: "string \<Rightarrow> bool" where
  "tag_name t \<longleftrightarrow> t \<noteq> [] \<and> lt \<notin> set t \<and> gt \<notin> set t \<and> slash \<notin> set t"

definition starts_chunk :: "string \<Rightarrow> bool" where
  "starts_chunk s \<longleftrightarrow> s = [] \<or> hd s = lt"

lemma starts_chunk_simps [simp]:
  "starts_chunk []" "starts_chunk (c # s) \<longleftrightarrow> c = lt"
  by (simp_all add: starts_chunk_def)

text \<open>A pattern free of \<open><\<close> matches inside the stretch up to the next \<open><\<close> or not at all.\<close>

lemma prefix_up_to_chunk:
  assumes "lt \<notin> set p" and "starts_chunk s"
  shows "prefix p (b @ s) \<longleftrightarrow> prefix p b"
proof -
  have "us = []" if "p = b @ us" and "prefix us s" for us
    using that assms by (cases us; cases s) auto
  then show ?thesis by (auto simp: prefix_append)
qed

lemma find_chunk:
  assumes "lt \<notin> set b" and "lt \<notin> set p" and "starts_chunk s"
  shows "find_sub (lt # p) (lt # b @ s) =
    (if prefix p b then Some 0 else map_option ((+) (Suc (length b))) (find_sub (lt # p) s))"
proof -
  have "find_sub (lt # p) (b @ s) = map_option ((+) (length b)) (find_sub (lt # p) s)"
    using assms(1) by (rule find_sub_skip)
  then show ?thesis using assms(2,3)
    by (cases "find_sub (lt # p) s") (simp_all add: prefix_up_to_chunk)
qed

text \<open>Text before the first element.\<close>

lemma find_gap: "lt \<notin> set g \<Longrightarrow> find_sub (lt # p) (g @ s) = map_option ((+) (length g)) (find_sub (lt # p) s)"
  by (rule find_sub_skip)

lemma prefix_tag_iff:
  assumes "gt \<notin> set t" and "gt \<notin> set u"
  shows "prefix (t @ [gt]) (u @ gt # v) \<longleftrightarrow> t = u"
  using assms by (induction t arbitrary: u) (case_tac u; auto simp: prefix_def)+

subsection \<open>Stretches of a document in which neither tag begins\<close>

definition skips :: "string \<Rightarrow> string \<Rightarrow> bool" where
  "skips tag a \<longleftrightarrow>
     (\<forall>s. find_sub (open_tag tag) (a @ s) = map_option ((+) (length a)) (find_sub (open_tag tag) s) \<and>
          find_sub (close_tag tag) (a @ s) = map_option ((+) (length a)) (find_sub (close_tag tag) s))"

lemma map_option_plus: "map_option ((+) (a :: nat)) (map_option ((+) b) x) = map_option ((+) (a + b)) x"
  by (cases x) simp_all

lemma map_option_plus_0 [simp]: "map_option ((+) (0 :: nat)) x = x"
  by (cases x) simp_all

lemma skips_Nil [simp]: "skips tag []"
  by (simp add: skips_def)

lemma skips_append: "skips tag a \<Longrightarrow> skips tag b \<Longrightarrow> skips tag (a @ b)"
  by (simp add: skips_def map_option_plus)

lemma skips_gap: "lt \<notin> set g \<Longrightarrow> skips tag g"
  by (simp add: skips_def open_tag_def close_tag_def find_sub_skip)

lemma find_mismatch:
  assumes "lt \<notin> set b" and "\<not> prefix p (b @ s)"
  shows "find_sub (lt # p) (lt # b @ s) = map_option ((+) (Suc (length b))) (find_sub (lt # p) s)"
proof -
  have "find_sub (lt # p) (b @ s) = map_option ((+) (length b)) (find_sub (lt # p) s)"
    using assms(1) by (rule find_sub_skip)
  then show ?thesis using assms(2) by (cases "find_sub (lt # p) s") simp_all
qed

text \<open>An opening tag of another name, by its first byte (the tags of the SOAP envelope).\<close>

lemma skips_chunk:
  assumes "lt \<notin> set b" and "b \<noteq> []" and "tag_name tag" and "hd b \<noteq> hd tag" and "hd b \<noteq> slash"
  shows "skips tag (lt # b)"
proof -
  have "\<not> prefix (tag @ [gt]) (b @ s)" "\<not> prefix (slash # tag @ [gt]) (b @ s)" for s
    using assms by (cases b; cases tag; simp add: tag_name_def)+
  then show ?thesis
    using assms(1) find_mismatch unfolding skips_def open_tag_def close_tag_def by simp
qed

lemma tags_eq: "open_tag tag = lt # (tag @ [gt])" "close_tag tag = lt # (slash # tag @ [gt])"
  by (simp_all add: open_tag_def close_tag_def)

lemma xml_elem_chunks: "xml_elem t v @ s = lt # (t @ gt # v) @ (lt # (slash # t @ [gt]) @ s)"
  by (simp add: xml_elem_def open_tag_def close_tag_def)

lemma not_prefix_slash: "tag_name t \<Longrightarrow> \<not> prefix (slash # p) (t @ s)"
  by (cases t) (auto simp: tag_name_def)

lemma not_prefix_name: "tag_name t \<Longrightarrow> \<not> prefix (t @ p) (slash # s)"
  by (cases t) (auto simp: tag_name_def)

lemma skips_elem:
  assumes t: "tag_name t" "tag_name tag" "t \<noteq> tag" and v: "lt \<notin> set v"
  shows "skips tag (xml_elem t v)"
proof -
  have 1: "lt \<notin> set (t @ gt # v)" "lt \<notin> set (slash # t @ [gt])"
    using t(1) v by (simp_all add: tag_name_def)
  have 2: "\<not> prefix (tag @ [gt]) ((t @ gt # v) @ s)" for s
    using t prefix_tag_iff [of tag t "v @ s"] by (simp add: tag_name_def)
  have 3: "\<not> prefix (slash # tag @ [gt]) ((slash # t @ [gt]) @ s)" for s
    using t prefix_tag_iff [of tag t s] by (simp add: tag_name_def)
  have 4: "\<not> prefix (slash # tag @ [gt]) ((t @ gt # v) @ s)" for s
    using not_prefix_slash [OF t(1)] by simp
  have 5: "\<not> prefix (tag @ [gt]) ((slash # t @ [gt]) @ s)" for s
    using not_prefix_name [OF t(2)] by simp
  have len: "Suc (length (t @ gt # v)) + Suc (length (slash # t @ [gt])) = length (xml_elem t v)"
    by (simp add: xml_elem_def open_tag_def close_tag_def)
  have op: "find_sub (open_tag tag) (xml_elem t v @ s)
      = map_option ((+) (length (xml_elem t v))) (find_sub (open_tag tag) s)" for s
    unfolding xml_elem_chunks tags_eq
    by (simp only: find_mismatch [OF 1(1) 2] find_mismatch [OF 1(2) 5] map_option_plus len)
  have cl: "find_sub (close_tag tag) (xml_elem t v @ s)
      = map_option ((+) (length (xml_elem t v))) (find_sub (close_tag tag) s)" for s
    unfolding xml_elem_chunks tags_eq
    by (simp only: find_mismatch [OF 1(1) 4] find_mismatch [OF 1(2) 3] map_option_plus len)
  from op cl show ?thesis by (simp add: skips_def)
qed

lemma find_own_open: "find_sub (open_tag t) (xml_elem t v @ s) = Some 0"
  unfolding xml_elem_def append_assoc by (rule find_sub_here)

lemma find_own_close:
  assumes "tag_name t" and "lt \<notin> set v"
  shows "find_sub (close_tag t) (xml_elem t v @ s) = Some (length (open_tag t) + length v)"
proof -
  have 1: "lt \<notin> set (t @ gt # v)" using assms by (simp add: tag_name_def)
  have 2: "\<not> prefix (slash # t @ [gt]) ((t @ gt # v) @ s')" for s'
    using not_prefix_slash [OF assms(1)] by simp
  have 3: "find_sub (lt # slash # t @ [gt]) (lt # (slash # t @ [gt]) @ s) = Some 0"
    using find_sub_here [of "lt # slash # t @ [gt]" s] by simp
  show ?thesis
    unfolding xml_elem_chunks tags_eq
    by (simp only: find_mismatch [OF 1 2] 3) simp
qed

section \<open>Extraction is lookup\<close>

lemma utf8_append:
  assumes "utf8 a" and "utf8 b"
  shows "utf8 (a @ b)"
proof -
  have "utf8_from f a \<Longrightarrow> utf8_from f (a @ b)" for f
  proof (induction a arbitrary: f)
    case Nil
    from assms(2) show ?case by (cases b) (auto simp: utf8_def)
  qed auto
  with assms(1) show ?thesis by (simp add: utf8_def)
qed

lemma utf8_ascii:
  assumes "\<forall>c \<in> set s. is_ascii c"
  shows "utf8 s"
proof -
  have "\<forall>c \<in> set s. is_ascii c \<Longrightarrow> utf8_from f s" for f
    by (induction s arbitrary: f) (auto simp: ascii_not_cont)
  with assms show ?thesis by (simp add: utf8_def)
qed

lemma extract_hit:
  assumes skip: "skips tag a" and tag: "tag_name tag" and v: "lt \<notin> set v"
    and utf8: "utf8 (a @ xml_elem tag v @ z)"
  shows "extract_xml_value (a @ xml_elem tag v @ z) tag = Ok v"
proof -
  let ?xml = "a @ xml_elem tag v @ z"
  let ?a = "a @ lt # tag"
  have xml: "?xml = (?a @ [gt]) @ v @ (close_tag tag @ z)" "?xml = ?a @ gt # (v @ close_tag tag @ z)"
    "?xml = (?a @ gt # v) @ lt # (slash # tag @ gt # z)"
    by (simp_all add: xml_elem_def open_tag_def close_tag_def)
  have op: "find_sub (open_tag tag) ?xml = Some (length a)"
    using skip find_own_open by (simp add: skips_def)
  have cl: "find_sub (close_tag tag) ?xml = Some (length a + (length (open_tag tag) + length v))"
    using skip find_own_close [OF tag v] by (simp add: skips_def)
  have ascii: "is_ascii gt" "is_ascii lt" by (simp_all add: is_ascii_def byte_def)
  have "is_char_boundary ?xml (length (?a @ [gt]))"
    using boundary_after_ascii [OF utf8 [unfolded xml(2)] ascii(1)] unfolding xml(2) by simp
  moreover have "is_char_boundary ?xml (length (?a @ [gt]) + length v)"
    using boundary_at_ascii [OF ascii(2), of "?a @ gt # v"] unfolding xml(3) by (simp add: add.assoc)
  ultimately have "str_slice ?xml (length (?a @ [gt])) (length (?a @ [gt]) + length v) = Ok v"
    unfolding xml(1) by (rule str_slice_middle)
  then show ?thesis
    unfolding extract_xml_value_def op cl by (simp add: open_tag_def add.assoc)
qed

lemma extract_miss:
  assumes "skips tag a" and "lt \<notin> set z"
  shows "extract_xml_value (a @ z) tag = Err (''Tag '' @ tag @ '' not found in XML'')"
proof -
  have "find_sub (open_tag tag) z = None"
    using assms(2) by (simp add: open_tag_def find_sub_absent)
  with assms(1) show ?thesis by (simp add: extract_xml_value_def skips_def)
qed

text \<open>A field is the text before its element, the name of the element, and its content.\<close>

definition xml_fields :: "(string \<times> string \<times> string) list \<Rightarrow> string" where
  "xml_fields fs = concat (map (\<lambda>(g, t, v). g @ xml_elem t v) fs)"

definition valid_fields :: "(string \<times> string \<times> string) list \<Rightarrow> bool" where
  "valid_fields fs \<longleftrightarrow> (\<forall>(g, t, v) \<in> set fs. lt \<notin> set g \<and> tag_name t \<and> lt \<notin> set v)"

lemma valid_fields_simps [simp]:
  "valid_fields []"
  "valid_fields ((g, t, v) # fs) \<longleftrightarrow> lt \<notin> set g \<and> tag_name t \<and> lt \<notin> set v \<and> valid_fields fs"
  by (simp_all add: valid_fields_def)

lemma extract_fields:
  assumes "valid_fields fs" and "tag_name tag" and "skips tag hdr" and "utf8 (hdr @ xml_fields fs @ z)"
    and "tag \<notin> set (map (fst \<circ> snd) fs) \<Longrightarrow> lt \<notin> set z"
  shows "extract_xml_value (hdr @ xml_fields fs @ z) tag =
    (case map_of (map snd fs) tag of
       Some v \<Rightarrow> Ok v | None \<Rightarrow> Err (''Tag '' @ tag @ '' not found in XML''))"
  using assms
proof (induction fs arbitrary: hdr)
  case Nil
  then show ?case using extract_miss [of tag hdr z] by (simp add: xml_fields_def)
next
  case (Cons f fs)
  obtain g t v where f: "f = (g, t, v)" by (cases f)
  have hg: "skips tag (hdr @ g)"
    using Cons.prems(1,3) f by (auto intro: skips_append skips_gap)
  show ?case
  proof (cases "t = tag")
    case True
    have "extract_xml_value ((hdr @ g) @ xml_elem tag v @ (xml_fields fs @ z)) tag = Ok v"
      using hg Cons.prems(1,2,4) f True by (intro extract_hit) (auto simp: xml_fields_def)
    then show ?thesis by (simp add: f True xml_fields_def)
  next
    case False
    have "skips tag ((hdr @ g) @ xml_elem t v)"
      using Cons.prems(1,2) f False by (intro skips_append [OF hg] skips_elem) auto
    from Cons.IH [OF _ Cons.prems(2) this] Cons.prems(1,4,5) f False show ?thesis
      by (auto simp: xml_fields_def)
  qed
qed

text \<open>
  C34. On a document of simple elements, with any text between them, the search by string gives what a
  lookup by element name gives: the content of the first element of the name, or the error when there
  is none. In particular no name is found inside another one.
\<close>

theorem extract_is_lookup:
  assumes "valid_fields fs" and "tag_name tag" and "lt \<notin> set z" and "utf8 (xml_fields fs @ z)"
  shows "extract_xml_value (xml_fields fs @ z) tag =
    (case map_of (map snd fs) tag of
       Some v \<Rightarrow> Ok v | None \<Rightarrow> Err (''Tag '' @ tag @ '' not found in XML''))"
  using extract_fields [of fs tag "[]" z] assms by simp

theorem extract_is_lookup_witness:
  "extract_xml_value (xml_fields [(''A'', ''NewEnabled'', ''1''), ('' '', ''NewProtocol'', ''TCP'')] @ '' '') ''NewProtocol''
   = Ok ''TCP''"
  using extract_is_lookup [of "[(''A'', ''NewEnabled'', ''1''), ('' '', ''NewProtocol'', ''TCP'')]" "''NewProtocol''" "'' ''"]
  by (simp add: tag_name_def utf8_def xml_fields_def xml_elem_def open_tag_def close_tag_def
      is_cont_def is_ascii_def byte_def)

section \<open>When extraction panics\<close>

lemma find_sub_split:
  assumes "find_sub p s = Some i"
  shows "\<exists>a b. s = a @ p @ b \<and> length a = i"
proof -
  obtain b where "drop i s = p @ b"
    using find_sub_at [OF assms] by (auto simp: prefix_def)
  then have "s = take i s @ p @ b" by (metis append_take_drop_id)
  moreover have "length (take i s) = i" using find_sub_bound [OF assms] by simp
  ultimately show ?thesis by blast
qed

lemma extract_slice:
  assumes "utf8 xml" and "find_sub (open_tag tag) xml = Some i" and "find_sub (close_tag tag) xml = Some j"
  shows "extract_xml_value xml tag = Panicked \<longleftrightarrow> j < i + length (open_tag tag)"
proof -
  have ascii: "is_ascii gt" "is_ascii lt" by (simp_all add: is_ascii_def byte_def)
  obtain a b where ab: "xml = a @ open_tag tag @ b" "length a = i"
    using find_sub_split [OF assms(2)] by blast
  obtain c d where cd: "xml = c @ close_tag tag @ d" "length c = j"
    using find_sub_split [OF assms(3)] by blast
  have "is_char_boundary xml (i + length (open_tag tag))"
    using boundary_after_ascii [of "a @ lt # tag" gt b] assms(1) ab ascii(1) by (simp add: open_tag_def)
  moreover have "is_char_boundary xml j"
    using boundary_at_ascii [OF ascii(2), of c "slash # tag @ gt # d"] cd by (simp add: close_tag_def)
  moreover have "j \<le> length xml" using find_sub_bound [OF assms(3)] by simp
  ultimately show ?thesis
    using assms(2,3) by (auto simp: extract_xml_value_def str_slice_def)
qed

text \<open>
  C35. The reading of a field panics exactly on the documents that hold both tags, the first closing
  one before the end of the first opening one.
\<close>

theorem extract_panics_iff:
  assumes "utf8 xml"
  shows "extract_xml_value xml tag = Panicked \<longleftrightarrow>
    (\<exists>i j. find_sub (open_tag tag) xml = Some i \<and> find_sub (close_tag tag) xml = Some j \<and>
           j < i + length (open_tag tag))"
  using extract_slice [OF assms]
  by (cases "find_sub (open_tag tag) xml"; cases "find_sub (close_tag tag) xml")
    (auto simp: extract_xml_value_def)

theorem extract_panics_iff_witness:
  "extract_xml_value ''</NewExternalIPAddress><NewExternalIPAddress>'' ''NewExternalIPAddress'' = Panicked"
proof -
  have "utf8 ''</NewExternalIPAddress><NewExternalIPAddress>''"
    by (simp add: utf8_def is_cont_def is_ascii_def byte_def)
  from extract_panics_iff [OF this, of "''NewExternalIPAddress''"] show ?thesis
    by (simp add: open_tag_def close_tag_def)
qed

section \<open>What is written reads back\<close>

definition soap_pre :: string where
  "soap_pre =
     ''<?xml version='' @ quoted ''1.0'' @ ''?>'' @ nl @
     ''<s:Envelope xmlns:s='' @ quoted ''http://schemas.xmlsoap.org/soap/envelope/'' @ nl @
     ''            s:encodingStyle='' @ quoted ''http://schemas.xmlsoap.org/soap/encoding/'' @ ''>'' @ nl @
     ''  <s:Body>''"

definition soap_post :: string where
  "soap_post = ''</s:Body>'' @ nl @ ''</s:Envelope>''"

lemma soap_body_eq: "soap_body b = soap_pre @ b @ soap_post"
  by (simp add: soap_body_def soap_pre_def soap_post_def)

lemma skips_soap_pre:
  assumes "tag_name tag" and "hd tag = CHR ''N''" and "lt \<notin> set action"
  shows "skips tag (soap_pre @ action_open action)"
proof -
  have "skips tag (lt # b)" if "lt \<notin> set b" "b \<noteq> []" "hd b \<in> {CHR ''?'', CHR ''s'', CHR ''u''}" for b
    using that assms by (intro skips_chunk) auto
  note chunk = this
  have "soap_pre @ action_open action =
     (lt # ''?xml version='' @ quoted ''1.0'' @ ''?>'' @ nl) @
     (lt # ''s:Envelope xmlns:s='' @ quoted ''http://schemas.xmlsoap.org/soap/envelope/'' @ nl @
       ''            s:encodingStyle='' @ quoted ''http://schemas.xmlsoap.org/soap/encoding/'' @ ''>'' @ nl @ ''  '') @
     (lt # ''s:Body>'') @ (lt # ''u:'' @ action @ '' xmlns:u='' @ quoted SOAP_NAMESPACE @ ''>'')"
    by (simp add: soap_pre_def action_open_def)
  also have "skips tag \<dots>"
    by (intro skips_append chunk) (simp_all add: nl_def quoted_def SOAP_NAMESPACE_def assms(3))
  finally show ?thesis .
qed

lemma utf8_soap_pre: "utf8 soap_pre" "utf8 soap_post"
  "utf8 (action_open ''AddPortMapping'')" "utf8 (action_close ''AddPortMapping'')" "utf8 nl"
  by (rule utf8_ascii; simp add: soap_pre_def soap_post_def action_open_def action_close_def nl_def
      quoted_def SOAP_NAMESPACE_def is_ascii_def byte_def)+

lemma utf8_show_nat: "utf8 (show_nat n)"
  by (rule utf8_ascii) (auto dest!: show_nat_digits simp: digit_byte_def is_ascii_def)

lemma lt_notin_show_nat [simp]: "lt \<notin> set (show_nat n)"
  by (rule not_digit_notin) (simp add: digit_byte_def byte_def)

definition add_fields :: "u16 \<Rightarrow> string \<Rightarrow> u16 \<Rightarrow> string \<Rightarrow> string \<Rightarrow> u32 \<Rightarrow> (string \<times> string \<times> string) list" where
  "add_fields external_port internal_host internal_port protocol description lease_duration =
     [(nl @ ''  '', ''NewRemoteHost'', []),
      (nl @ ''  '', ''NewExternalPort'', show_u16 external_port),
      (nl @ ''  '', ''NewProtocol'', protocol),
      (nl @ ''  '', ''NewInternalPort'', show_u16 internal_port),
      (nl @ ''  '', ''NewInternalClient'', internal_host),
      (nl @ ''  '', ''NewEnabled'', ''1''),
      (nl @ ''  '', ''NewPortMappingDescription'', description),
      (nl @ ''  '', ''NewLeaseDuration'', show_u32 lease_duration)]"

lemma add_body_fields:
  "add_port_mapping_body ep host ip proto desc lease =
     action_open ''AddPortMapping'' @ xml_fields (add_fields ep host ip proto desc lease) @
     nl @ action_close ''AddPortMapping''"
  by (simp add: add_port_mapping_body_def add_fields_def xml_fields_def)

lemma tag_names:
  "tag_name ''NewRemoteHost''" "tag_name ''NewExternalPort''" "tag_name ''NewProtocol''"
  "tag_name ''NewInternalPort''" "tag_name ''NewInternalClient''" "tag_name ''NewEnabled''"
  "tag_name ''NewPortMappingDescription''" "tag_name ''NewLeaseDuration''"
  by (simp_all add: tag_name_def)

lemma utf8_xml_elem: "tag_name t \<Longrightarrow> \<forall>c \<in> set t. is_ascii c \<Longrightarrow> utf8 v \<Longrightarrow> utf8 (xml_elem t v)"
  unfolding xml_elem_def open_tag_def close_tag_def
  by (intro utf8_append) (auto intro!: utf8_ascii simp: is_ascii_def byte_def)

lemma utf8_fields:
  "\<forall>(g, t, v) \<in> set fs. utf8 g \<and> tag_name t \<and> (\<forall>c \<in> set t. is_ascii c) \<and> utf8 v \<Longrightarrow> utf8 (xml_fields fs)"
proof (induction fs)
  case (Cons f fs)
  then show ?case
    by (cases f) (auto simp: xml_fields_def intro!: utf8_append utf8_xml_elem)
qed (simp add: xml_fields_def utf8_def)

text \<open>An entry is read from the fields that carry its components, wherever they stand.\<close>

lemma parse_entry_fields:
  assumes valid: "valid_fields fs" and utf8: "utf8 (hdr @ xml_fields fs @ z)"
    and skip: "\<And>tag. tag_name tag \<Longrightarrow> hd tag = CHR ''N'' \<Longrightarrow> skips tag hdr"
    and fields: "map_of (map snd fs) ''NewExternalPort'' = Some (show_u16 ep)"
      "map_of (map snd fs) ''NewProtocol'' = Some proto"
      "map_of (map snd fs) ''NewInternalClient'' = Some host"
      "map_of (map snd fs) ''NewInternalPort'' = Some (show_u16 ip)"
      "map_of (map snd fs) ''NewPortMappingDescription'' = Some desc"
      "map_of (map snd fs) ''NewEnabled'' = Some en"
      "map_of (map snd fs) ''NewLeaseDuration'' = Some (show_u32 lease)"
  shows "parse_port_mapping_entry (hdr @ xml_fields fs @ z) =
    Ok \<lparr>pe_external_port = ep, pe_protocol = proto, pe_internal_client = host, pe_internal_port = ip,
        pe_description = desc, pe_enabled = (en = ''1''), pe_lease_duration = lease\<rparr>"
proof -
  have get: "extract_xml_value (hdr @ xml_fields fs @ z) tag = Ok v"
    if "tag_name tag" "hd tag = CHR ''N''" "map_of (map snd fs) tag = Some v" for tag v
  proof -
    have "tag \<in> set (map (fst \<circ> snd) fs)"
      using map_of_SomeD [OF that(3)] by force
    with extract_fields [OF valid that(1) skip [OF that(1,2)] utf8] that(3) show ?thesis by simp
  qed
  show ?thesis
    using fields tag_names by (simp add: parse_port_mapping_entry_def get)
qed

text \<open>The arguments of \<open>add_port_mapping\<close>, read back from its request.\<close>

lemma add_request_read:
  assumes "lt \<notin> set host" and "lt \<notin> set desc" and "utf8 host" and "utf8 desc"
  shows "parse_port_mapping_entry
      (rq_body (soap_request client ''AddPortMapping''
        (add_port_mapping_body ep host ip (protocol_to_string p) desc lease))) =
    Ok \<lparr>pe_external_port = ep, pe_protocol = protocol_to_string p, pe_internal_client = host,
        pe_internal_port = ip, pe_description = desc, pe_enabled = True, pe_lease_duration = lease\<rparr>"
proof -
  let ?fs = "add_fields ep host ip (protocol_to_string p) desc lease"
  let ?z = "nl @ action_close ''AddPortMapping'' @ soap_post"
  have proto: "lt \<notin> set (protocol_to_string p)" "utf8 (protocol_to_string p)"
    by (cases p; simp add: utf8_def is_cont_def is_ascii_def byte_def)+
  have valid: "valid_fields ?fs"
    using assms proto tag_names by (simp add: add_fields_def nl_def show_u16_def show_u32_def)
  have gap: "utf8 (nl @ ''  '')" "utf8 ''1''" "utf8 []"
    by (simp_all add: nl_def utf8_def is_cont_def is_ascii_def byte_def)
  have "utf8 (xml_fields ?fs)"
    using assms(3,4) proto gap utf8_show_nat tag_names
    by (intro utf8_fields) (simp add: add_fields_def show_u16_def show_u32_def is_ascii_def byte_def)
  then have utf8: "utf8 ((soap_pre @ action_open ''AddPortMapping'') @ xml_fields ?fs @ ?z)"
    by (intro utf8_append utf8_soap_pre)
  have "rq_body (soap_request client ''AddPortMapping''
      (add_port_mapping_body ep host ip (protocol_to_string p) desc lease))
    = (soap_pre @ action_open ''AddPortMapping'') @ xml_fields ?fs @ ?z"
    by (simp add: soap_request_def soap_body_eq add_body_fields)
  then show ?thesis
    using parse_entry_fields [OF valid utf8, of ep "protocol_to_string p" host ip desc "''1''" lease]
    by (simp add: skips_soap_pre add_fields_def)
qed

text \<open>Port and protocol of a \<open>DeletePortMapping\<close> request.\<close>

lemma delete_request_read:
  fixes client ep p
  defines "xml \<equiv> rq_body (soap_request client ''DeletePortMapping'' (delete_port_mapping_body ep (protocol_to_string p)))"
  shows "extract_xml_value xml ''NewExternalPort'' = Ok (show_u16 ep)"
    and "extract_xml_value xml ''NewProtocol'' = Ok (protocol_to_string p)"
proof -
  let ?fs = "[(nl @ ''  '', ''NewRemoteHost'', []), (nl @ ''  '', ''NewExternalPort'', show_u16 ep),
    (nl @ ''  '', ''NewProtocol'', protocol_to_string p)]"
  let ?hdr = "soap_pre @ action_open ''DeletePortMapping''"
  let ?z = "nl @ action_close ''DeletePortMapping'' @ soap_post"
  have xml: "xml = ?hdr @ xml_fields ?fs @ ?z"
    by (simp add: xml_def soap_request_def soap_body_eq delete_port_mapping_body_def xml_fields_def)
  have proto: "lt \<notin> set (protocol_to_string p)" "utf8 (protocol_to_string p)"
    by (cases p; simp add: utf8_def is_cont_def is_ascii_def byte_def)+
  have valid: "valid_fields ?fs" using proto tag_names by (simp add: nl_def show_u16_def)
  have gap: "utf8 (nl @ ''  '')" "utf8 []"
    by (simp_all add: nl_def utf8_def is_cont_def is_ascii_def byte_def)
  have "utf8 (xml_fields ?fs)"
    using proto gap utf8_show_nat tag_names
    by (intro utf8_fields) (simp add: show_u16_def is_ascii_def byte_def)
  moreover have "utf8 (action_open ''DeletePortMapping'')" "utf8 (action_close ''DeletePortMapping'')"
    by (rule utf8_ascii; simp add: action_open_def action_close_def quoted_def SOAP_NAMESPACE_def is_ascii_def byte_def)+
  ultimately have utf8: "utf8 (?hdr @ xml_fields ?fs @ ?z)"
    by (intro utf8_append utf8_soap_pre)
  have get: "extract_xml_value xml tag = Ok v"
    if "tag_name tag" "hd tag = CHR ''N''" "map_of (map snd ?fs) tag = Some v" for tag v
  proof -
    have "tag \<in> set (map (fst \<circ> snd) ?fs)" using map_of_SomeD [OF that(3)] by force
    moreover have "skips tag ?hdr" by (intro skips_soap_pre that) simp
    ultimately show ?thesis using extract_fields [OF valid that(1) _ utf8] that(3) by (simp add: xml)
  qed
  show "extract_xml_value xml ''NewExternalPort'' = Ok (show_u16 ep)"
    "extract_xml_value xml ''NewProtocol'' = Ok (protocol_to_string p)"
    by (rule get; simp add: tag_names)+
qed

text \<open>
  C19. If the host and the description have no opening angle bracket (and are UTF-8, as every Rust string
  is), the body that \<open>add_port_mapping\<close> posts, read with the client's own parser of entries, gives
  back all its arguments: all ports, both protocols and all 32-bit leases. Nothing is escaped, so
  without that condition it can be read as another request (\<open>description_injects_lease\<close>).
\<close>

theorem add_request_roundtrip:
  assumes "lt \<notin> set host" and "lt \<notin> set desc" and "utf8 host" and "utf8 desc"
  shows "parse_port_mapping_entry
      (rq_body (soap_request client ''AddPortMapping''
        (add_port_mapping_body ep host ip (protocol_to_string p) desc lease))) =
    Ok \<lparr>pe_external_port = ep, pe_protocol = protocol_to_string p, pe_internal_client = host,
        pe_internal_port = ip, pe_description = desc, pe_enabled = True, pe_lease_duration = lease\<rparr>"
  using assms by (rule add_request_read)

theorem add_request_roundtrip_witness:
  "parse_port_mapping_entry
     (rq_body (soap_request (upnp_client_new ''http://192.168.0.1/ctl'') ''AddPortMapping''
       (add_port_mapping_body 8080 ''192.168.0.2'' 80 (protocol_to_string Udp) ''web'' 3600))) =
   Ok \<lparr>pe_external_port = 8080, pe_protocol = ''UDP'', pe_internal_client = ''192.168.0.2'',
       pe_internal_port = 80, pe_description = ''web'', pe_enabled = True, pe_lease_duration = 3600\<rparr>"
  using add_request_roundtrip [of "''192.168.0.2''" "''web''" "upnp_client_new ''http://192.168.0.1/ctl''" 8080 80 Udp 3600]
  by (simp add: utf8_def is_cont_def is_ascii_def byte_def)

text \<open>
  Nothing escapes the description (or the host): one that closes its own element and opens another
  changes what the router reads. The lease asked for is \<open>lease\<close>, the lease read is 0, a mapping
  that never expires.
\<close>

definition closing_description :: string where
  "closing_description = ''x'' @ close_tag ''NewPortMappingDescription'' @
     xml_elem ''NewLeaseDuration'' ''0'' @ open_tag ''NewPortMappingDescription''"

text \<open>
  The description is not escaped: with one that closes its own element and opens another, the
  lease a router reads is 0, which means for ever, whatever lease the controller asks for.
\<close>

lemma description_injects_lease:
  "extract_xml_value
     (add_port_mapping_body ep ''192.168.0.2'' ip ''TCP'' closing_description lease)
     ''NewLeaseDuration'' = Ok ''0''"
proof -
  let ?fs = "butlast (add_fields ep ''192.168.0.2'' ip ''TCP'' ''x'' lease)"
  let ?z = "open_tag ''NewPortMappingDescription'' @ close_tag ''NewPortMappingDescription'' @ nl @ ''  '' @
    xml_elem ''NewLeaseDuration'' (show_u32 lease) @ nl @ action_close ''AddPortMapping''"
  let ?hdr = "action_open ''AddPortMapping''"
  have body: "add_port_mapping_body ep ''192.168.0.2'' ip ''TCP'' closing_description lease
    = ?hdr @ xml_fields (?fs @ [([], ''NewLeaseDuration'', ''0'')]) @ ?z"
    by (simp add: add_port_mapping_body_def add_fields_def xml_fields_def closing_description_def xml_elem_def)
  have valid: "valid_fields (?fs @ [([], ''NewLeaseDuration'', ''0'')])"
    using tag_names by (simp add: add_fields_def nl_def show_u16_def)
  have hdr: "skips ''NewLeaseDuration'' ?hdr"
    unfolding action_open_def append_Cons append_Nil
    by (rule skips_chunk) (simp_all add: tag_names quoted_def SOAP_NAMESPACE_def)
  have gap: "utf8 (nl @ ''  '')" "utf8 ''x''" "utf8 ''1''" "utf8 ''0''" "utf8 []" "utf8 ''TCP''" "utf8 ''192.168.0.2''" "utf8 ''  ''"
    "utf8 (open_tag ''NewPortMappingDescription'')" "utf8 (close_tag ''NewPortMappingDescription'')"
    by (simp_all add: nl_def open_tag_def close_tag_def utf8_def is_cont_def is_ascii_def byte_def)
  have ascii: "\<forall>c \<in> set ''NewLeaseDuration''. is_ascii c" by (simp add: is_ascii_def byte_def)
  have "utf8 (xml_fields (?fs @ [([], ''NewLeaseDuration'', ''0'')]))"
    using gap utf8_show_nat tag_names
    by (intro utf8_fields) (simp add: add_fields_def show_u16_def is_ascii_def byte_def)
  then have "utf8 (?hdr @ xml_fields (?fs @ [([], ''NewLeaseDuration'', ''0'')]) @ ?z)"
    using gap by (intro utf8_append utf8_soap_pre utf8_xml_elem tag_names ascii)
      (simp_all add: utf8_show_nat show_u32_def)
  from extract_fields [OF valid tag_names(8) hdr this]
  show ?thesis unfolding body by (simp add: add_fields_def)
qed

section \<open>Listing the mappings\<close>

definition get_entry_request :: "upnp_client \<Rightarrow> u32 \<Rightarrow> http_request" where
  "get_entry_request client index =
     soap_request client ''GetGenericPortMappingEntry'' (get_entry_body index)"

lemma wp_get_entry [wp_simps]:
  "wp (get_generic_port_mapping_entry env client index) Q w =
     Q (case soap_result (http_answer env (w_calls w) (get_entry_request client index)) of
          Ok response \<Rightarrow> and_then (parse_port_mapping_entry response) (\<lambda>e. Ok (Some e))
        | Err e \<Rightarrow> if str_contains e ''SpecifiedArrayIndexInvalid'' \<or> str_contains e ''713'' then Ok None else Err e
        | Panicked \<Rightarrow> Panicked)
       (log_call (Http (get_entry_request client index)) w)"
  by (simp add: get_generic_port_mapping_entry_def wp_simps get_entry_request_def split: outcome.splits)

lemma wp_list_step:
  assumes "soap_result (http_answer env (w_calls w) (get_entry_request client index)) = Ok text"
    and "parse_port_mapping_entry text = Ok entry"
  shows "wp (list_port_mappings_from (Suc fuel) env client index acc) Q w =
    wp (list_port_mappings_from fuel env client (index + 1) (acc @ [entry])) Q
      (log_call (Http (get_entry_request client index)) w)"
  using assms by (simp add: wp_simps)

lemma list_port_mappings_run:
  assumes hit: "\<And>h j. j < n \<Longrightarrow>
      soap_result (http_answer env h (get_entry_request client (of_nat j))) = Ok (texts j)"
    and parse: "\<And>j. j < n \<Longrightarrow> parse_port_mapping_entry (texts j) = Ok (es j)"
    and stop: "\<And>h. soap_result (http_answer env h (get_entry_request client (of_nat n))) = Err e"
    and code: "str_contains e ''713''"
    and len: "k \<le> n"
  shows "wp (list_port_mappings_from (Suc (n - k)) env client (of_nat k) (map es [0..<k]))
    (\<lambda>r w'. r = Some (Ok (map es [0..<n])) \<and>
       w_calls w' = w_calls w @ map (\<lambda>j. Http (get_entry_request client (of_nat j))) [k..<Suc n]) w"
  using len
proof (induction "n - k" arbitrary: k w)
  case 0
  then have [simp]: "k = n" by simp
  show ?case by (simp add: wp_simps stop code)
next
  case (Suc d)
  then have k: "k < n" and d: "d = n - Suc k" by simp_all
  let ?w = "log_call (Http (get_entry_request client (of_nat k))) w"
  have eqs: "of_nat k + 1 = (of_nat (Suc k) :: u32)" "map es [0..<k] @ [es k] = map es [0..<Suc k]"
    "n - k = Suc (n - Suc k)" "[k..<Suc n] = k # [Suc k..<Suc n]"
    using k by (simp_all add: upt_conv_Cons)
  show ?case
    unfolding wp_list_step [OF hit [OF k] parse [OF k]] unfolding eqs
    using Suc.hyps(1) [OF d, of ?w] k by (rule_tac wp_mono) (auto simp del: upt_Suc)
qed

text \<open>
  C36. On a router that holds \<open>n\<close> entries and answers the index after them with error 713, listing
  terminates after \<open>n + 1\<close> requests and returns all entries in their order.
\<close>

theorem list_port_mappings_complete:
  assumes "\<And>h j. j < n \<Longrightarrow>
      soap_result (http_answer env h (get_entry_request client (of_nat j))) = Ok (texts j)"
    and "\<And>j. j < n \<Longrightarrow> parse_port_mapping_entry (texts j) = Ok (es j)"
    and "\<And>h. soap_result (http_answer env h (get_entry_request client (of_nat n))) = Err e"
    and "str_contains e ''713''"
  shows "fst (run_state (list_port_mappings (Suc n) env client) w) = Some (Ok (map es [0..<n]))"
  using list_port_mappings_run [of n env client texts es e 0 w, OF assms]
  by (simp add: list_port_mappings_def wp_run)

definition sample_entry_text :: string where
  "sample_entry_text = ''<NewExternalPort>80</NewExternalPort><NewProtocol>TCP</NewProtocol>''
     @ ''<NewInternalPort>8080</NewInternalPort><NewInternalClient>10.0.0.9</NewInternalClient>''"

definition sample_entry :: port_mapping_entry where
  "sample_entry = \<lparr>pe_external_port = 80, pe_protocol = ''TCP'', pe_internal_client = ''10.0.0.9'',
     pe_internal_port = 8080, pe_description = [], pe_enabled = False, pe_lease_duration = 0\<rparr>"

lemma parse_sample_entry: "parse_port_mapping_entry sample_entry_text = Ok sample_entry"
  by (simp add: parse_port_mapping_entry_def extract_xml_value_def sample_entry_text_def sample_entry_def
      open_tag_def close_tag_def str_eval)

definition one_entry_env :: "upnp_client \<Rightarrow> env" where
  "one_entry_env client = sample_env\<lparr>http_answer := (\<lambda>h rq. Inr
     (if rq = get_entry_request client 0
      then \<lparr>rs_success = True, rs_status = ''200 OK'', rs_header = (\<lambda>_. None), rs_text = Inr sample_entry_text\<rparr>
      else \<lparr>rs_success = False, rs_status = ''500'', rs_header = (\<lambda>_. None), rs_text = Inr ''713''\<rparr>))\<rparr>"

theorem list_port_mappings_complete_witness:
  "fst (run_state (list_port_mappings 2 (one_entry_env (upnp_client_new ''u'')) (upnp_client_new ''u''))
     (world_new ''192.168.0.2'')) = Some (Ok [sample_entry])"
proof -
  let ?c = "upnp_client_new ''u''"
  have other: "get_entry_request ?c 1 \<noteq> get_entry_request ?c 0"
    by (simp add: get_entry_request_def soap_request_def soap_body_eq get_entry_body_def xml_elem_def
        show_u32_def show_nat.simps digit_char_def char_of_eq_iff)
  have "fst (run_state (list_port_mappings (Suc 1) (one_entry_env ?c) ?c) (world_new ''192.168.0.2''))
    = Some (Ok (map (\<lambda>_. sample_entry) [0..<1]))"
    by (rule list_port_mappings_complete [where texts = "\<lambda>_. sample_entry_text" and e = "''SOAP error 500: 713''"])
      (use other in \<open>simp_all add: one_entry_env_def sample_env_def soap_result_def parse_sample_entry str_eval\<close>)
  then show ?thesis by (simp add: numeral_2_eq_2)
qed

section \<open>One request per operation\<close>

text \<open>Adding a mapping is one SOAP request, and a grant is whatever was asked for.\<close>

lemma add_port_mapping_effect:
  "run_state (add_port_mapping env client ep host ip proto desc lease) w =
     (let rq = soap_request client ''AddPortMapping'' (add_port_mapping_body ep host ip proto desc lease)
      in (case soap_result (http_answer env (w_calls w) rq) of
            Ok text \<Rightarrow> Ok lease | Err e \<Rightarrow> Err e | Panicked \<Rightarrow> Panicked,
          log_call (Http rq) w))"
  by (simp add: add_port_mapping_def run_try_bind soap_action_def http_send_def Let_def
      split: outcome.splits sum.splits)

end
