(* ===== verification/Annotations.thy ===== *)
theory Annotations
  imports Crds Rust_Str_Facts
begin

text \<open>
  The port-forward annotation of \<open>src/controllers/port_mapping_ctrl.rs\<close>: how its value and the
  declared ports of a Service or a Pod give the desired mappings (external port, internal port,
  protocol), and how a PortMapping is named. With it, the laws of the annotation language.
\<close>

section \<open>Parsing\<close>

type_synonym desired = "u16 \<times> u16 \<times> protocol"

definition parse_k8s_protocol :: "string option \<Rightarrow> protocol" where
  "parse_k8s_protocol proto = (if proto = Some ''UDP'' then Udp else Tcp)"

text \<open>What one comma-separated part pushes onto the result.\<close>

definition parse_part :: "(u16 \<Rightarrow> protocol list) \<Rightarrow> string \<Rightarrow> desired list" where
  "parse_part lookup_protocols untrimmed =
     (let part = trim untrimmed
      in if part = [] then []
         else case split_once (CHR '':'') part of
           Some (ext, svc) \<Rightarrow>
             (case (parse_u16 (trim ext), parse_u16 (trim svc)) of
                (Some ext_port, Some svc_port) \<Rightarrow>
                  (let protocols = lookup_protocols svc_port
                   in if protocols = [] then [(ext_port, svc_port, Tcp)]
                      else map (\<lambda>protocol. (ext_port, svc_port, protocol)) protocols)
              | _ \<Rightarrow> [])
         | None \<Rightarrow>
             (case parse_u16 part of
                Some port \<Rightarrow> map (\<lambda>protocol. (port, port, protocol)) (lookup_protocols port)
              | None \<Rightarrow> []))"

definition parse_port_list :: "string \<Rightarrow> (u16 \<Rightarrow> protocol list) \<Rightarrow> desired list" where
  "parse_port_list value lookup_protocols =
     fold (\<lambda>part result. result @ parse_part lookup_protocols part) (split_char (CHR '','') value) []"

text \<open>The port of a Service or container is an \<open>i32\<close>; \<open>as u16\<close> keeps the low 16 bits.\<close>

definition service_protocols :: "service_port list \<Rightarrow> u16 \<Rightarrow> protocol list" where
  "service_protocols service_ports port =
     map (\<lambda>sp. parse_k8s_protocol (sp_protocol sp)) (filter (\<lambda>sp. ucast (sp_port sp) = port) service_ports)"

definition parse_service_annotation :: "string \<Rightarrow> service_port list \<Rightarrow> desired list" where
  "parse_service_annotation value service_ports =
     (if value = ''true''
      then map (\<lambda>sp. let port = ucast (sp_port sp); protocol = parse_k8s_protocol (sp_protocol sp)
                     in (port, port, protocol)) service_ports
      else parse_port_list value (service_protocols service_ports))"

definition container_protocols :: "container_port list \<Rightarrow> u16 \<Rightarrow> protocol list" where
  "container_protocols container_ports port =
     map (\<lambda>cp. parse_k8s_protocol (cp_protocol cp)) (filter (\<lambda>cp. ucast (cp_container_port cp) = port) container_ports)"

definition parse_pod_annotation :: "string \<Rightarrow> container_port list \<Rightarrow> desired list" where
  "parse_pod_annotation value container_ports =
     (if value = ''true''
      then map (\<lambda>cp. let port = ucast (cp_container_port cp); protocol = parse_k8s_protocol (cp_protocol cp)
                     in (port, port, protocol)) container_ports
      else parse_port_list value (container_protocols container_ports))"

definition pm_name_for_owner :: "string \<Rightarrow> string \<Rightarrow> u16 \<Rightarrow> protocol \<Rightarrow> string" where
  "pm_name_for_owner ns name external_port protocol =
     (let proto = (case protocol of Tcp \<Rightarrow> ''tcp'' | Udp \<Rightarrow> ''udp'')
      in ns @ ''-'' @ name @ ''-'' @ show_u16 external_port @ ''-'' @ proto)"

section \<open>Laws of the annotation language\<close>

lemma parse_port_list_concat:
  "parse_port_list value lookup = concat (map (parse_part lookup) (split_char (CHR '','') value))"
proof -
  have "fold (\<lambda>part result. result @ parse_part lookup part) ps acc = acc @ concat (map (parse_part lookup) ps)"
    for ps acc
    by (induction ps arbitrary: acc) simp_all
  then show ?thesis by (simp add: parse_port_list_def)
qed

text \<open>A comma separates independent requests: no part affects what another gives.\<close>

lemma parse_port_list_comma:
  "parse_port_list (a @ CHR '','' # b) lookup = parse_port_list a lookup @ parse_port_list b lookup"
  by (simp add: parse_port_list_concat split_char_append)

text \<open>The abstract annotation: a list of plain and remapped ports, its text, and its meaning.\<close>

datatype port_item = Plain u16 | Remap u16 u16

fun show_item :: "port_item \<Rightarrow> string" where
  "show_item (Plain p) = show_u16 p"
| "show_item (Remap e s) = show_u16 e @ '':'' @ show_u16 s"

fun item_meaning :: "(u16 \<Rightarrow> protocol list) \<Rightarrow> port_item \<Rightarrow> desired list" where
  "item_meaning lookup (Plain p) = map (\<lambda>proto. (p, p, proto)) (lookup p)"
| "item_meaning lookup (Remap e s) =
     (if lookup s = [] then [(e, s, Tcp)] else map (\<lambda>proto. (e, s, proto)) (lookup s))"

lemma show_u16_simps [simp]:
  "show_u16 p \<noteq> []" "CHR '':'' \<notin> set (show_u16 p)" "CHR '','' \<notin> set (show_u16 p)" "CHR ''-'' \<notin> set (show_u16 p)"
  by (simp_all add: show_u16_def not_digit_notin digit_byte_def byte_def)

lemma show_u16_ends_visible: "visible (hd (show_u16 p))" "visible (last (show_u16 p))"
  by (auto intro!: digit_visible show_nat_digits [of _ "unat p"] simp: show_u16_def)

lemma parse_part_show: "parse_part lookup (show_item i) = item_meaning lookup i"
proof (cases i)
  case (Plain p)
  then show ?thesis
    using split_once_None_iff [of "CHR '':''" "show_u16 p"] by (simp add: parse_part_def Let_def)
next
  case (Remap e s)
  have "trim (show_u16 e @ CHR '':'' # show_u16 s) = show_u16 e @ CHR '':'' # show_u16 s"
    by (rule trim_visible) (simp_all add: show_u16_ends_visible)
  then show ?thesis
    using Remap by (simp add: parse_part_def Let_def split_once_hit)
qed

text \<open>
  C25. A list of ports and remappings, written out with colons and commas, is parsed to what the
  documentation says it means: a port stands for one mapping per protocol declared for it, and a
  remapping for one per protocol of its internal port, or for TCP if none is declared.
\<close>

theorem parse_port_list_items:
  assumes "items \<noteq> []"
  shows "parse_port_list (join_char (CHR '','') (map show_item items)) lookup =
    concat (map (item_meaning lookup) items)"
proof -
  have "CHR '','' \<notin> set (show_item i)" for i by (cases i) auto
  then have "split_char (CHR '','') (join_char (CHR '','') (map show_item items)) = map show_item items"
    using assms by (intro split_join) auto
  then show ?thesis
    by (simp add: parse_port_list_concat parse_part_show o_def)
qed

theorem parse_port_list_items_witness:
  "parse_port_list ''8443:443,80'' (\<lambda>p. if p = 443 then [Tcp, Udp] else [Tcp]) =
   [(8443, 443, Tcp), (8443, 443, Udp), (80, 80, Tcp)]"
proof -
  have "join_char (CHR '','') (map show_item [Remap 8443 443, Plain 80]) = ''8443:443,80''"
    by (simp add: show_u16_def show_nat.simps digit_char_def char_of_eq_iff)
  then show ?thesis
    using parse_port_list_items [of "[Remap 8443 443, Plain 80]" "\<lambda>p. if p = 443 then [Tcp, Udp] else [Tcp]"]
    by simp
qed

lemma parse_part_sound:
  "(e, i, p) \<in> set (parse_part lookup part) \<Longrightarrow> p \<in> set (lookup i) \<or> (lookup i = [] \<and> p = Tcp)"
  by (auto simp: parse_part_def Let_def split: if_splits option.splits)

lemma parse_port_list_sound:
  "(e, i, p) \<in> set (parse_port_list value lookup) \<Longrightarrow> p \<in> set (lookup i) \<or> (lookup i = [] \<and> p = Tcp)"
  by (auto simp: parse_port_list_concat dest: parse_part_sound)

text \<open>
  A mapping carries a protocol its Service declares for that port; only for a port the Service
  does not declare (possible in a remap) is it TCP.
\<close>

lemma parse_service_annotation_sound:
  assumes "(e, i, p) \<in> set (parse_service_annotation value ports)"
  shows "(\<exists>sp \<in> set ports. ucast (sp_port sp) = i \<and> parse_k8s_protocol (sp_protocol sp) = p) \<or>
    ((\<forall>sp \<in> set ports. ucast (sp_port sp) \<noteq> i) \<and> p = Tcp)"
proof (cases "value = ''true''")
  case True
  with assms show ?thesis by (auto simp: parse_service_annotation_def Let_def)
next
  case False
  with assms have "p \<in> set (service_protocols ports i) \<or> (service_protocols ports i = [] \<and> p = Tcp)"
    by (intro parse_port_list_sound) (simp add: parse_service_annotation_def)
  then show ?thesis by (fastforce simp: service_protocols_def filter_empty_conv)
qed

lemma parse_service_annotation_sound_witness:
  "\<exists>sp \<in> set [\<lparr>sp_port = 53, sp_protocol = Some ''UDP''\<rparr>]. ucast (sp_port sp) = (53 :: u16) \<and> parse_k8s_protocol (sp_protocol sp) = Udp"
  using parse_service_annotation_sound [of 53 53 Udp "''true''" "[\<lparr>sp_port = 53, sp_protocol = Some ''UDP''\<rparr>]"]
  by (simp add: parse_service_annotation_def parse_k8s_protocol_def Let_def)

text \<open>Services and Pods share one annotation language.\<close>

lemma parse_pod_annotation_as_service:
  "parse_pod_annotation value cps =
   parse_service_annotation value (map (\<lambda>cp. \<lparr>sp_port = cp_container_port cp, sp_protocol = cp_protocol cp\<rparr>) cps)"
proof -
  have "container_protocols cps = service_protocols (map (\<lambda>cp. \<lparr>sp_port = cp_container_port cp, sp_protocol = cp_protocol cp\<rparr>) cps)"
    by (auto simp: container_protocols_def service_protocols_def fun_eq_iff filter_map o_def)
  then show ?thesis
    by (simp add: parse_pod_annotation_def parse_service_annotation_def o_def)
qed

section \<open>Names\<close>

lemma split_last_eq:
  fixes d :: char
  assumes "a @ d # b = a' @ d # b'" and "d \<notin> set b" and "d \<notin> set b'"
  shows "a = a' \<and> b = b'"
proof -
  from assms(1) obtain us where "a = a' @ us \<and> us @ d # b = d # b' \<or> a @ us = a' \<and> d # b = us @ d # b'"
    by (auto simp: append_eq_append_conv2)
  with assms(2,3) show ?thesis by (cases us) auto
qed

lemma pm_name_inj:
  "pm_name_for_owner ns name e p = pm_name_for_owner ns name' e' p' \<longleftrightarrow> name = name' \<and> e = e' \<and> p = p'"
proof
  assume eq: "pm_name_for_owner ns name e p = pm_name_for_owner ns name' e' p'"
  let ?s = "\<lambda>q. case q of Tcp \<Rightarrow> ''tcp'' | Udp \<Rightarrow> ''udp''"
  have "(name @ CHR ''-'' # show_u16 e) @ CHR ''-'' # ?s p = (name' @ CHR ''-'' # show_u16 e') @ CHR ''-'' # ?s p'"
    using eq by (simp add: pm_name_for_owner_def)
  then have 1: "name @ CHR ''-'' # show_u16 e = name' @ CHR ''-'' # show_u16 e'" "?s p = ?s p'"
    by (auto dest!: split_last_eq split: protocol.splits)
  from 1(1) have "name = name' \<and> show_u16 e = show_u16 e'"
    by (rule split_last_eq) (rule show_u16_simps(4))+
  with 1(2) show "name = name' \<and> e = e' \<and> p = p'"
    by (auto simp: show_u16_inj split: protocol.splits)
qed simp

text \<open>
  The names of the PortMappings of one namespace are unambiguous: two of them are equal exactly
  if the owner's name, the external port and the protocol are.
\<close>

lemma pm_name_injective:
  "pm_name_for_owner ns name e p = pm_name_for_owner ns name' e' p' \<longleftrightarrow> name = name' \<and> e = e' \<and> p = p'"
  by (rule pm_name_inj)

lemma pm_name_collision:
  "pm_name_for_owner (a @ ''-'' @ b) c e p = pm_name_for_owner a (b @ ''-'' @ c) e p"
  by (simp add: pm_name_for_owner_def)

end
