(* ===== verification/Discovery.thy ===== *)
theory Discovery
  imports Upnp_Client Sample_Env
begin

text \<open>
  Gateway discovery, \<open>src/upnp/discovery.rs\<close>: the LOCATION header of an SSDP response, the base URL
  of the root description, and the services found in it. The events of \<open>quick_xml\<close>'s reader come
  from the environment (\<open>xml_events\<close>, with \<open>trim_text\<close> on); a datagram is the argument of
  \<open>ssdp_discover\<close>, \<open>None\<close> when a socket operation failed or timed out.
\<close>

section \<open>SSDP\<close>

fun ssdp_location :: "string list \<Rightarrow> (string, string option) outcome" where
  "ssdp_location [] = Ok None"
| "ssdp_location (line # lines) =
     (case (case strip_prefix_str ''LOCATION:'' line of
              Some value \<Rightarrow> Some value | None \<Rightarrow> strip_prefix_str ''Location:'' line) of
        Some value \<Rightarrow> Ok (Some (trim value))
      | None \<Rightarrow>
          if length line > 9
          then and_then (str_upto line 9) (\<lambda>name.
                 if eq_ignore_ascii_case name ''location:''
                 then and_then (str_from line 9) (\<lambda>value. Ok (Some (trim value)))
                 else ssdp_location lines)
          else ssdp_location lines)"

definition parse_ssdp_location :: "string \<Rightarrow> (string, string option) outcome" where
  "parse_ssdp_location response = ssdp_location (str_lines response)"

definition ssdp_discover :: "string option \<Rightarrow> (string, string option) outcome" where
  "ssdp_discover datagram =
     (case datagram of Some response \<Rightarrow> parse_ssdp_location response | None \<Rightarrow> Ok None)"

section \<open>URLs\<close>

definition base_url_from :: "string \<Rightarrow> (string, string) outcome" where
  "base_url_from url =
     (case find_sub ''://'' url of
        Some idx \<Rightarrow>
          and_then (str_from url (idx + 3)) (\<lambda>after_scheme.
            case find_sub ''/'' after_scheme of
              Some slash_idx \<Rightarrow>
                and_then (str_upto after_scheme slash_idx) (\<lambda>host_port.
                and_then (str_upto url idx) (\<lambda>scheme.
                  Ok (scheme @ ''://'' @ host_port)))
            | None \<Rightarrow> Ok url)
      | None \<Rightarrow> Ok url)"

section \<open>The root description\<close>

record gateway_services =
  gs_root_url :: string
  gs_wan_ip_control_url :: "string option"
  gs_wan_ip_event_url :: "string option"
  gs_wan_ppp_control_url :: "string option"
  gs_wan_ppp_event_url :: "string option"

fun or_else :: "'a option \<Rightarrow> 'a option \<Rightarrow> 'a option" where
  "or_else (Some a) _ = Some a"
| "or_else None b = b"

definition control_url :: "gateway_services \<Rightarrow> string option" where
  "control_url s = or_else (gs_wan_ip_control_url s) (gs_wan_ppp_control_url s)"

definition event_url :: "gateway_services \<Rightarrow> string option" where
  "event_url s = or_else (gs_wan_ip_event_url s) (gs_wan_ppp_event_url s)"

text \<open>The variables of the loop.\<close>

record reader_state =
  rd_services :: gateway_services
  rd_service_type :: string
  rd_control_url :: string
  rd_event_url :: string
  rd_in_service :: bool
  rd_tag :: string

definition absolute :: "string \<Rightarrow> string \<Rightarrow> string" where
  "absolute base_url url = (if prefix ''/'' url then base_url @ url else url)"

text \<open>The end of a \<open>service\<close> element.\<close>

definition record_service :: "string \<Rightarrow> reader_state \<Rightarrow> gateway_services" where
  "record_service base_url st =
     (let control = absolute base_url (rd_control_url st);
          event = absolute base_url (rd_event_url st);
          services = rd_services st
      in if str_contains (rd_service_type st) ''WANIPConnection''
         then services\<lparr>gs_wan_ip_control_url := Some control, gs_wan_ip_event_url := Some event\<rparr>
         else if str_contains (rd_service_type st) ''WANPPPConnection''
         then services\<lparr>gs_wan_ppp_control_url := Some control, gs_wan_ppp_event_url := Some event\<rparr>
         else services)"

fun on_event :: "string \<Rightarrow> xml_event \<Rightarrow> reader_state \<Rightarrow> reader_state" where
  "on_event base_url (XmlStart tag) st =
     (if tag = ''service''
      then st\<lparr>rd_tag := tag, rd_in_service := True, rd_service_type := '''', rd_control_url := '''', rd_event_url := ''''\<rparr>
      else st\<lparr>rd_tag := tag\<rparr>)"
| "on_event base_url (XmlText unescaped) st =
     (let text = (case unescaped of Some t \<Rightarrow> t | None \<Rightarrow> '''')
      in if \<not> rd_in_service st then st
         else if rd_tag st = ''serviceType'' then st\<lparr>rd_service_type := text\<rparr>
         else if rd_tag st = ''controlURL'' then st\<lparr>rd_control_url := text\<rparr>
         else if rd_tag st = ''eventSubURL'' then st\<lparr>rd_event_url := text\<rparr>
         else st)"
| "on_event base_url (XmlEnd tag) st =
     (if tag = ''service'' \<and> rd_in_service st
      then st\<lparr>rd_services := record_service base_url st, rd_in_service := False\<rparr>
      else st)"
| "on_event base_url XmlOther st = st"
| "on_event base_url (XmlError e) st = st"

text \<open>The end of the list is \<open>Event::Eof\<close>.\<close>

fun read_events :: "string \<Rightarrow> xml_event list \<Rightarrow> reader_state \<Rightarrow> (string, gateway_services) outcome" where
  "read_events base_url [] st = Ok (rd_services st)"
| "read_events base_url (XmlError e # evs) st = Err (''XML parse error: '' @ e)"
| "read_events base_url (ev # evs) st = read_events base_url evs (on_event base_url ev st)"

definition no_services :: "string \<Rightarrow> gateway_services" where
  "no_services root_url =
     \<lparr>gs_root_url = root_url, gs_wan_ip_control_url = None, gs_wan_ip_event_url = None,
      gs_wan_ppp_control_url = None, gs_wan_ppp_event_url = None\<rparr>"

definition parse_root_desc :: "env \<Rightarrow> string \<Rightarrow> string \<Rightarrow> string \<Rightarrow> (string, gateway_services) outcome" where
  "parse_root_desc env xml base_url root_url =
     read_events base_url (xml_events env xml)
       \<lparr>rd_services = no_services root_url, rd_service_type = '''', rd_control_url = '''',
        rd_event_url = '''', rd_in_service = False, rd_tag = ''''\<rparr>"

definition root_desc_request :: "string \<Rightarrow> http_request" where
  "root_desc_request url = \<lparr>rq_method = ''GET'', rq_url = url, rq_headers = [], rq_body = ''''\<rparr>"

definition discover_gateway :: "env \<Rightarrow> string \<Rightarrow> (world, (string, gateway_services) outcome) state" where
  "discover_gateway env root_desc_url =
     try_bind (ret (base_url_from root_desc_url)) (\<lambda>base_url. do {
       r \<leftarrow> http_send env (root_desc_request root_desc_url);
       ret (and_then (map_err (\<lambda>_. ''Failed to fetch rootDesc.xml'') r) (\<lambda>response.
            and_then (map_err (\<lambda>_. ''Failed to read rootDesc.xml body'') (sum_outcome (rs_text response))) (\<lambda>xml.
              parse_root_desc env xml base_url root_desc_url)))
     })"

end
