(* ===== verification/Discovery_Facts.thy ===== *)
theory Discovery_Facts
  imports Discovery
begin

text \<open>
  Correctness of discovery: the LOCATION header is found whatever its case, a response that makes
  the slice fall inside a character is a panic, a base URL is the scheme and host of the URL, and
  the reader's loop finds the WAN services of a description.
\<close>

section \<open>The LOCATION header\<close>

definition crlf :: string where
  "crlf = [CHR 0x0D, CHR 0x0A]"

definition response_of :: "string list \<Rightarrow> string" where
  "response_of ls = concat (map (\<lambda>l. l @ crlf) ls)"

lemma split_response:
  assumes "\<forall>l \<in> set ls. CHR 0x0A \<notin> set l"
  shows "split_char (CHR 0x0A) (response_of ls) = map (\<lambda>l. l @ [CHR 0x0D]) ls @ [[]]"
  using assms
proof (induction ls)
  case (Cons l ls)
  have "split_char (CHR 0x0A) (response_of (l # ls)) =
    split_char (CHR 0x0A) ((l @ [CHR 0x0D]) @ CHR 0x0A # response_of ls)"
    by (simp add: response_of_def crlf_def)
  also have "\<dots> = (l @ [CHR 0x0D]) # split_char (CHR 0x0A) (response_of ls)"
    unfolding split_char_append using Cons.prems by (simp add: split_char_notin)
  finally show ?case using Cons by simp
qed (simp add: response_of_def)

lemma lines_response:
  assumes "\<forall>l \<in> set ls. CHR 0x0A \<notin> set l"
  shows "str_lines (response_of ls) = ls"
proof -
  have "lines_from (map (\<lambda>l. l @ [CHR 0x0D]) ls @ [[]]) = ls"
  proof (induction ls)
    case (Cons l ls)
    have "lines_from ((l @ [CHR 0x0D]) # map (\<lambda>l. l @ [CHR 0x0D]) ls @ [[]]) =
      strip_cr (l @ [CHR 0x0D]) # lines_from (map (\<lambda>l. l @ [CHR 0x0D]) ls @ [[]])"
      by (cases ls) simp_all
    then show ?case using Cons by (simp add: strip_cr_def)
  qed simp
  then show ?thesis by (simp add: str_lines_def split_response [OF assms])
qed

definition location_name :: "string \<Rightarrow> bool" where
  "location_name n \<longleftrightarrow> eq_ignore_ascii_case n ''location:''"

lemma location_name_length: "location_name n \<Longrightarrow> length n = 9"
  by (auto simp: location_name_def eq_ignore_ascii_case_def dest: arg_cong [of _ _ length])

lemma location_names: "location_name ''LOCATION:''" "location_name ''Location:''"
  by (simp_all add: location_name_def eq_ignore_ascii_case_def ascii_lower_def byte_def char_of_eq_iff)

lemma ascii_line_slices:
  assumes "\<forall>c \<in> set line. is_ascii c" and "length line > 9"
  shows "str_upto line 9 = Ok (take 9 line)" "str_from line 9 = Ok (drop 9 line)"
proof -
  have "is_ascii (line ! 9)" using assms by (simp add: nth_mem)
  then show "str_upto line 9 = Ok (take 9 line)" "str_from line 9 = Ok (drop 9 line)"
    using assms(2) by (simp_all add: str_upto_def str_from_def str_slice_def is_char_boundary_def ascii_not_cont)
qed

lemma strip_prefix_hit: "strip_prefix_str p (p @ s) = Some s"
  by (simp add: strip_prefix_str_def)

lemma strip_prefix_name:
  assumes "strip_prefix_str p line = Some v" and "location_name p"
  shows "location_name (take 9 line)" "v = drop 9 line"
  using assms location_name_length [OF assms(2)] by (auto simp: strip_prefix_str_def prefix_def split: if_splits)

text \<open>A header line, and a line that is none.\<close>

lemma location_line:
  assumes "location_name n" and "value \<noteq> []" and "\<forall>c \<in> set (n @ value). is_ascii c"
  shows "ssdp_location ((n @ value) # ls) = Ok (Some (trim value))"
proof -
  note n = location_name_length [OF assms(1)]
  note strip = strip_prefix_name [of _ "n @ value"]
  have len: "length (n @ value) > 9" using n assms(2) by simp
  show ?thesis
  proof (cases "strip_prefix_str ''LOCATION:'' (n @ value)")
    case (Some v)
    then show ?thesis using strip(2) [OF Some location_names(1)] n by simp
  next
    case upper: None
    show ?thesis
    proof (cases "strip_prefix_str ''Location:'' (n @ value)")
      case (Some v)
      then show ?thesis using upper strip(2) [OF Some location_names(2)] n by simp
    next
      case None
      with upper len n assms(1) show ?thesis
        by (simp add: location_name_def ascii_line_slices [OF assms(3) len])
    qed
  qed
qed

lemma other_line:
  assumes "\<not> location_name (take 9 line)" and "\<forall>c \<in> set line. is_ascii c"
  shows "ssdp_location (line # ls) = ssdp_location ls"
proof -
  have "strip_prefix_str ''LOCATION:'' line = None" "strip_prefix_str ''Location:'' line = None"
    using strip_prefix_name(1) location_names assms(1) by (metis option.exhaust)+
  with assms show ?thesis
    by (simp add: location_name_def ascii_line_slices)
qed

text \<open>
  In an ASCII response the LOCATION header is found in any line and in any case, and its value
  comes without the white space around it.
\<close>

lemma location_header_found:
  assumes "location_name n" and "value \<noteq> []" and "\<forall>c \<in> set (n @ value). is_ascii c"
    and before: "\<forall>l \<in> set before. (\<forall>c \<in> set l. is_ascii c) \<and> \<not> location_name (take 9 l)"
    and lf: "\<forall>l \<in> set (before @ (n @ value) # after). CHR 0x0A \<notin> set l"
  shows "parse_ssdp_location (response_of (before @ (n @ value) # after)) = Ok (Some (trim value))"
proof -
  have "ssdp_location (before @ (n @ value) # after) = Ok (Some (trim value))"
    using before location_line [OF assms(1-3)] by (induction before) (simp_all add: other_line del: ssdp_location.simps(2))
  then show ?thesis by (simp only: parse_ssdp_location_def lines_response [OF lf])
qed

lemma location_header_found_witness:
  "parse_ssdp_location (response_of [''HTTP/1.1 200 OK'', ''lOcAtIoN: http://192.168.0.1:5000/rootDesc.xml'', ''''])
     = Ok (Some ''http://192.168.0.1:5000/rootDesc.xml'')"
proof -
  have 1: "location_name ''lOcAtIoN:''" "\<not> location_name ''HTTP/1.1 ''"
    by (simp_all add: location_name_def eq_ignore_ascii_case_def ascii_lower_def byte_def char_of_eq_iff)
  have "trim '' http://192.168.0.1:5000/rootDesc.xml'' = ''http://192.168.0.1:5000/rootDesc.xml''"
    by (simp add: trim_def ws1_def ws2_def ws3_def byte_def)
  then show ?thesis
    using location_header_found [of "''lOcAtIoN:''" "'' http://192.168.0.1:5000/rootDesc.xml''" "[''HTTP/1.1 200 OK'']" "['''']"] 1
    by (simp add: is_ascii_def byte_def)
qed

text \<open>
  A response with a line whose tenth byte is inside a character makes discovery panic, unless
  the header was found before. The slice that should compare the first nine bytes is to blame.
\<close>

lemma ssdp_slice_panics:
  assumes "str_lines response = line # ls" and "length line > 9" and "is_cont (line ! 9)"
    and "\<not> prefix ''LOCATION:'' line" and "\<not> prefix ''Location:'' line"
  shows "parse_ssdp_location response = Panicked"
  using assms
  by (simp add: parse_ssdp_location_def strip_prefix_str_def str_upto_def str_slice_def is_char_boundary_def)

lemma ssdp_slice_panics_witness:
  "ssdp_discover (Some (response_of [''Server: '' @ [CHR 0xC3, CHR 0xA9], ''LOCATION: http://192.168.0.1/''])) = Panicked"
proof -
  have "str_lines (response_of [''Server: '' @ [CHR 0xC3, CHR 0xA9], ''LOCATION: http://192.168.0.1/'']) =
    (''Server: '' @ [CHR 0xC3, CHR 0xA9]) # [''LOCATION: http://192.168.0.1/'']"
    by (rule lines_response) simp
  from ssdp_slice_panics [OF this] show ?thesis
    by (simp add: ssdp_discover_def is_cont_def byte_def)
qed

section \<open>URLs\<close>

lemma find_scheme:
  assumes "CHR '':'' \<notin> set scheme"
  shows "find_sub ''://'' (scheme @ ''://'' @ rest) = Some (length scheme)"
proof -
  have "find_sub ''://'' (''://'' @ rest) = Some 0" by (rule find_sub_here)
  then show ?thesis using find_sub_skip [OF assms, of "''//''" "''://'' @ rest"] by simp
qed

lemma slices_at_scheme:
  assumes "utf8 (scheme @ ''://'' @ rest)"
  shows "str_from (scheme @ ''://'' @ rest) (length scheme + 3) = Ok rest"
    and "str_upto (scheme @ ''://'' @ rest) (length scheme) = Ok scheme"
proof -
  have ascii: "is_ascii (CHR '':'')" "is_ascii (CHR ''/'')" by (simp_all add: is_ascii_def byte_def)
  have "is_char_boundary (scheme @ ''://'' @ rest) (length scheme + 3)"
    using boundary_after_ascii [of "scheme @ '':/''" "CHR ''/''" rest] ascii(2) assms by (simp add: numeral_3_eq_3)
  then show "str_from (scheme @ ''://'' @ rest) (length scheme + 3) = Ok rest"
    by (simp add: str_from_def str_slice_def is_char_boundary_def)
  show "str_upto (scheme @ ''://'' @ rest) (length scheme) = Ok scheme"
    using boundary_at_ascii [OF ascii(1), of scheme "''//'' @ rest"]
    by (simp add: str_upto_def str_slice_def) (simp add: is_char_boundary_def)
qed

text \<open>
  The base of a URL with a path is its scheme, host and port; a URL without a path is its own
  base; and neither panics.
\<close>

lemma base_url_is_origin:
  assumes "CHR '':'' \<notin> set scheme" and "CHR ''/'' \<notin> set host"
    and "utf8 (scheme @ ''://'' @ host @ ''/'' @ path)" and "utf8 (scheme @ ''://'' @ host)"
  shows "base_url_from (scheme @ ''://'' @ host @ ''/'' @ path) = Ok (scheme @ ''://'' @ host) \<and>
    base_url_from (scheme @ ''://'' @ host) = Ok (scheme @ ''://'' @ host)"
proof
  have slash: "find_sub ''/'' (host @ ''/'' @ path) = Some (length host)"
    using find_sub_skip [OF assms(2), of "[]" "''/'' @ path"] by simp
  have "is_ascii (CHR ''/'')" by (simp add: is_ascii_def byte_def)
  then have upto: "str_upto (host @ ''/'' @ path) (length host) = Ok host"
    using boundary_at_ascii [of "CHR ''/''" host path]
    by (simp add: str_upto_def str_slice_def) (simp add: is_char_boundary_def)
  show "base_url_from (scheme @ ''://'' @ host @ ''/'' @ path) = Ok (scheme @ ''://'' @ host)"
    unfolding base_url_from_def find_scheme [OF assms(1)] option.case
      slices_at_scheme [OF assms(3)] and_then.simps slash upto ..
  have none: "find_sub ''/'' host = None" using assms(2) by (rule find_sub_absent)
  show "base_url_from (scheme @ ''://'' @ host) = Ok (scheme @ ''://'' @ host)"
    unfolding base_url_from_def find_scheme [OF assms(1)] option.case
      slices_at_scheme [OF assms(4)] and_then.simps none ..
qed

lemma base_url_is_origin_witness:
  "base_url_from ''http://192.168.0.1:5000/rootDesc.xml'' = Ok ''http://192.168.0.1:5000''"
  using base_url_is_origin [of "''http''" "''192.168.0.1:5000''" "''rootDesc.xml''"]
  by (simp add: utf8_def is_cont_def is_ascii_def byte_def)

section \<open>The services of a description\<close>

text \<open>A service as it stands in the description, and the events the reader gives for it.\<close>

record service_entry =
  se_type :: string
  se_control :: string
  se_event :: string

definition text_element :: "string \<Rightarrow> string \<Rightarrow> xml_event list" where
  "text_element tag t = [XmlStart tag, XmlText (Some t), XmlEnd tag]"

definition service_events :: "service_entry \<Rightarrow> xml_event list" where
  "service_events s =
     [XmlStart ''service''] @ text_element ''serviceType'' (se_type s) @
     text_element ''controlURL'' (se_control s) @ text_element ''eventSubURL'' (se_event s) @
     [XmlEnd ''service'']"

text \<open>Events outside the services: other elements, their texts, comments.\<close>

fun outside :: "xml_event \<Rightarrow> bool" where
  "outside (XmlStart tag) \<longleftrightarrow> tag \<noteq> ''service''"
| "outside (XmlEnd tag) \<longleftrightarrow> tag \<noteq> ''service''"
| "outside (XmlError e) \<longleftrightarrow> False"
| "outside _ \<longleftrightarrow> True"

definition is_ip_service :: "service_entry \<Rightarrow> bool" where
  "is_ip_service s \<longleftrightarrow> str_contains (se_type s) ''WANIPConnection''"

definition is_ppp_service :: "service_entry \<Rightarrow> bool" where
  "is_ppp_service s \<longleftrightarrow> \<not> is_ip_service s \<and> str_contains (se_type s) ''WANPPPConnection''"

definition last_of :: "(service_entry \<Rightarrow> bool) \<Rightarrow> (service_entry \<Rightarrow> string) \<Rightarrow> string \<Rightarrow> service_entry list \<Rightarrow> string option" where
  "last_of P get base_url ss =
     (case rev (filter P ss) of [] \<Rightarrow> None | s # _ \<Rightarrow> Some (absolute base_url (get s)))"

definition services_found :: "string \<Rightarrow> string \<Rightarrow> service_entry list \<Rightarrow> gateway_services" where
  "services_found base_url root_url ss =
     \<lparr>gs_root_url = root_url,
      gs_wan_ip_control_url = last_of is_ip_service se_control base_url ss,
      gs_wan_ip_event_url = last_of is_ip_service se_event base_url ss,
      gs_wan_ppp_control_url = last_of is_ppp_service se_control base_url ss,
      gs_wan_ppp_event_url = last_of is_ppp_service se_event base_url ss\<rparr>"

lemma last_of_snoc:
  "last_of P get b (ss @ [s]) = (if P s then Some (absolute b (get s)) else last_of P get b ss)"
  by (simp add: last_of_def)

lemma services_found_snoc:
  "services_found b root (ss @ [s]) =
    (if is_ip_service s
     then (services_found b root ss)\<lparr>gs_wan_ip_control_url := Some (absolute b (se_control s)),
            gs_wan_ip_event_url := Some (absolute b (se_event s))\<rparr>
     else if is_ppp_service s
     then (services_found b root ss)\<lparr>gs_wan_ppp_control_url := Some (absolute b (se_control s)),
            gs_wan_ppp_event_url := Some (absolute b (se_event s))\<rparr>
     else services_found b root ss)"
  by (auto simp: services_found_def last_of_snoc is_ppp_service_def)

lemma read_outside:
  assumes "\<forall>ev \<in> set evs. outside ev" and "\<not> rd_in_service st"
  shows "\<exists>st'. rd_services st' = rd_services st \<and> \<not> rd_in_service st' \<and>
    (\<forall>more. read_events b (evs @ more) st = read_events b more st')"
  using assms
proof (induction evs arbitrary: st)
  case (Cons ev evs)
  have "rd_services (on_event b ev st) = rd_services st" "\<not> rd_in_service (on_event b ev st)"
    using Cons.prems by (cases ev; simp add: Let_def)+
  with Cons.IH [of "on_event b ev st"] Cons.prems show ?case by (cases ev) auto
qed auto

lemma read_service:
  assumes "rd_services st = services_found b root ss" and "\<not> rd_in_service st"
  shows "\<exists>st'. rd_services st' = services_found b root (ss @ [s]) \<and> \<not> rd_in_service st' \<and>
    (\<forall>more. read_events b (service_events s @ more) st = read_events b more st')"
  by (rule exI [of _ "fold (on_event b) (service_events s) st"])
    (simp add: service_events_def text_element_def record_service_def assms Let_def services_found_snoc
      is_ip_service_def is_ppp_service_def)

lemma read_description:
  assumes "rd_services st = services_found b root ss" and "\<not> rd_in_service st"
    and "\<forall>(pre, s) \<in> set items. \<forall>ev \<in> set pre. outside ev" and "\<forall>ev \<in> set post. outside ev"
  shows "read_events b (concat (map (\<lambda>(pre, s). pre @ service_events s) items) @ post) st =
    Ok (services_found b root (ss @ map snd items))"
  using assms(1-3)
proof (induction items arbitrary: st ss)
  case Nil
  then show ?case using read_outside [OF assms(4), of st b] by (metis append_Nil append_Nil2 concat.simps(1)
      list.map(1) read_events.simps(1))
next
  case (Cons it items)
  obtain pre s where it: "it = (pre, s)" by (cases it)
  obtain st1 where st1: "rd_services st1 = services_found b root ss" "\<not> rd_in_service st1"
    "\<And>more. read_events b (pre @ more) st = read_events b more st1"
    using read_outside [of pre st b] Cons.prems it by auto
  obtain st2 where st2: "rd_services st2 = services_found b root (ss @ [s])" "\<not> rd_in_service st2"
    "\<And>more. read_events b (service_events s @ more) st1 = read_events b more st2"
    using read_service [OF st1(1,2)] by blast
  show ?case
    using Cons.IH [OF st2(1,2)] Cons.prems(3) it st1(3) st2(3) by simp
qed

text \<open>
  Whatever stands around the services of a description (and however they are nested in devices),
  parsing it gives the URLs of the last WANIPConnection and of the last WANPPPConnection service,
  with paths resolved against the base URL.
\<close>

lemma root_desc_services:
  assumes "xml_events env xml = concat (map (\<lambda>(pre, s). pre @ service_events s) items) @ post"
    and "\<forall>(pre, s) \<in> set items. \<forall>ev \<in> set pre. outside ev" and "\<forall>ev \<in> set post. outside ev"
  shows "parse_root_desc env xml base_url root_url = Ok (services_found base_url root_url (map snd items))"
  unfolding parse_root_desc_def assms(1)
  by (subst read_description [where ss = "[]" and root = root_url])
    (use assms(2,3) in \<open>simp_all add: services_found_def no_services_def last_of_def\<close>)

definition ppp_entry :: service_entry where
  "ppp_entry =
     \<lparr>se_type = ''urn:schemas-upnp-org:service:WANPPPConnection:1'', se_control = ''/ctl/PPP'', se_event = ''/evt/PPP''\<rparr>"

definition ppp_env :: env where
  "ppp_env = sample_env\<lparr>xml_events := (\<lambda>_. [XmlStart ''root'', XmlStart ''device''] @ service_events ppp_entry @
     [XmlEnd ''device'', XmlEnd ''root''])\<rparr>"

lemma ppp_found:
  "services_found ''http://192.168.0.1'' root [ppp_entry] =
    \<lparr>gs_root_url = root, gs_wan_ip_control_url = None, gs_wan_ip_event_url = None,
     gs_wan_ppp_control_url = Some ''http://192.168.0.1/ctl/PPP'', gs_wan_ppp_event_url = Some ''http://192.168.0.1/evt/PPP''\<rparr>"
  by (simp add: services_found_def last_of_def is_ppp_service_def is_ip_service_def ppp_entry_def str_contains_def absolute_def)

lemma root_desc_services_witness:
  "parse_root_desc ppp_env '''' ''http://192.168.0.1'' ''http://192.168.0.1/d'' =
    Ok \<lparr>gs_root_url = ''http://192.168.0.1/d'', gs_wan_ip_control_url = None, gs_wan_ip_event_url = None,
      gs_wan_ppp_control_url = Some ''http://192.168.0.1/ctl/PPP'', gs_wan_ppp_event_url = Some ''http://192.168.0.1/evt/PPP''\<rparr>"
  using root_desc_services [of ppp_env "''''" "[([XmlStart ''root'', XmlStart ''device''], ppp_entry)]"
      "[XmlEnd ''device'', XmlEnd ''root'']" "''http://192.168.0.1''" "''http://192.168.0.1/d''"]
  by (simp add: ppp_found ppp_env_def)

text \<open>
  A gateway that offers only WANPPPConnection is addressed at the URL of that service, with the
  SOAP action of another one: the namespace of WANIPConnection.
\<close>

lemma ppp_gateway_asked_for_ip_service:
  assumes "control_url (services_found base_url root_url ss) = Some url"
    and "\<forall>s \<in> set ss. \<not> is_ip_service s"
  shows "(\<exists>s \<in> set ss. is_ppp_service s \<and> url = absolute base_url (se_control s)) \<and>
    map_of (rq_headers (soap_request (upnp_client_new url) action body)) ''SOAPAction'' =
      Some (quoted (''urn:schemas-upnp-org:service:WANIPConnection:1#'' @ action)) \<and>
    rq_url (soap_request (upnp_client_new url) action body) = url"
proof -
  have "filter is_ip_service ss = []" using assms(2) by (simp add: filter_empty_conv)
  then have "last_of is_ppp_service se_control base_url ss = Some url"
    using assms(1) by (simp add: control_url_def services_found_def last_of_def)
  then obtain s r where s: "rev (filter is_ppp_service ss) = s # r" "url = absolute base_url (se_control s)"
    by (simp add: last_of_def split: list.splits)
  have "s \<in> set (rev (filter is_ppp_service ss))" unfolding s(1) by simp
  then have "s \<in> set ss \<and> is_ppp_service s" by simp
  with s(2) show ?thesis
    by (auto simp: soap_request_def upnp_client_new_def SOAP_NAMESPACE_def)
qed

lemma ppp_gateway_asked_for_ip_service_witness:
  "map_of (rq_headers (soap_request (upnp_client_new ''http://192.168.0.1/ctl/PPP'') ''AddPortMapping'' ''b'')) ''SOAPAction'' =
     Some (quoted ''urn:schemas-upnp-org:service:WANIPConnection:1#AddPortMapping'')"
proof -
  have "control_url (services_found ''http://192.168.0.1'' root [ppp_entry]) = Some ''http://192.168.0.1/ctl/PPP''" for root
    by (simp add: ppp_found control_url_def)
  moreover have "\<forall>s \<in> set [ppp_entry]. \<not> is_ip_service s"
    by (simp add: is_ip_service_def ppp_entry_def str_contains_def)
  ultimately show ?thesis
    using ppp_gateway_asked_for_ip_service [of "''http://192.168.0.1''" _ "[ppp_entry]" "''http://192.168.0.1/ctl/PPP''" "''AddPortMapping''" "''b''"]
    by (simp only: append_Cons append_Nil)
qed

end
