(* ===== verification/Config_Model.thy ===== *)
theory Config_Model
  imports Rust_Str_Facts
begin

text \<open>
  The configuration, \<open>src/config.rs\<close>: the environment variables with their defaults, the callback
  URL, and the host of a URL. \<open>env::var\<close> is the argument \<open>getenv\<close>, \<open>None\<close> when the variable is
  unset or not Unicode. A \<open>u64\<close> is a natural number that \<open>parse_u64\<close> bounds.
\<close>

record config =
  cf_gateway_url :: "string option"
  cf_notify_port :: u16
  cf_metrics_port :: u16
  cf_poll_interval_secs :: nat
  cf_poll_interval_fast_secs :: nat
  cf_gena_enabled :: bool
  cf_log_level :: string
  cf_leader_election_namespace :: string
  cf_pod_ip :: "string option"
  cf_lan_ip :: "string option"

fun unwrap_or :: "'a \<Rightarrow> 'a option \<Rightarrow> 'a" where
  "unwrap_or d (Some a) = a"
| "unwrap_or d None = d"

definition from_env :: "(string \<Rightarrow> string option) \<Rightarrow> config" where
  "from_env getenv =
     \<lparr>cf_gateway_url = getenv ''GATEWAY_URL'',
      cf_notify_port = unwrap_or 9091 (Option.bind (getenv ''NOTIFY_PORT'') parse_u16),
      cf_metrics_port = unwrap_or 9090 (Option.bind (getenv ''METRICS_PORT'') parse_u16),
      cf_poll_interval_secs = unwrap_or 600 (Option.bind (getenv ''POLL_INTERVAL_SECS'') parse_u64),
      cf_poll_interval_fast_secs = unwrap_or 10 (Option.bind (getenv ''POLL_INTERVAL_FAST_SECS'') parse_u64),
      cf_gena_enabled = unwrap_or True (map_option (\<lambda>v. v \<noteq> ''false'' \<and> v \<noteq> ''0'') (getenv ''GENA_ENABLED'')),
      cf_log_level = unwrap_or ''warn'' (getenv ''LOG_LEVEL''),
      cf_leader_election_namespace = unwrap_or ''upnp-controller'' (getenv ''LEADER_ELECTION_NAMESPACE''),
      cf_pod_ip = getenv ''POD_IP'',
      cf_lan_ip = None\<rparr>"

definition notify_callback_url :: "config \<Rightarrow> string" where
  "notify_callback_url cfg =
     (let ip = unwrap_or ''127.0.0.1'' (case cf_lan_ip cfg of Some ip \<Rightarrow> Some ip | None \<Rightarrow> cf_pod_ip cfg)
      in ''http://'' @ ip @ '':'' @ show_u16 (cf_notify_port cfg) @ ''/notify'')"

text \<open>
  What the operating system answers about UDP sockets: to a bind on \<open>0.0.0.0:0\<close>, to a connect of that
  socket, and the local address of the socket connected to a peer, printed.
\<close>

record udp_os =
  uo_bind :: "string + nat"
  uo_connect :: "nat \<Rightarrow> string \<times> u16 \<Rightarrow> string + unit"
  uo_local_ip :: "nat \<Rightarrow> string \<times> u16 \<Rightarrow> string + string"

definition detect_lan_ip :: "udp_os \<Rightarrow> string \<Rightarrow> string + string" where
  "detect_lan_ip os gateway_host =
     (case uo_bind os of
        Inl e \<Rightarrow> Inl e
      | Inr socket \<Rightarrow>
          (case uo_connect os socket (gateway_host, 1900) of
             Inl e \<Rightarrow> Inl e
           | Inr _ \<Rightarrow> uo_local_ip os socket (gateway_host, 1900)))"

text \<open>\<open>split(c).next()\<close> always has a first piece.\<close>

definition parse_host :: "string \<Rightarrow> string option" where
  "parse_host url =
     (case (case strip_prefix_str ''http://'' url of
              Some s \<Rightarrow> Some s | None \<Rightarrow> strip_prefix_str ''https://'' url) of
        None \<Rightarrow> None
      | Some after_scheme \<Rightarrow>
          let host_port = hd (split_char (CHR ''/'') after_scheme)
          in Some (hd (split_char (CHR '':'') host_port)))"

lemma hd_split_char: "hd (split_char d s) = takeWhile (\<lambda>c. c \<noteq> d) s"
  by (induction s) auto

lemma parse_host_eq:
  "parse_host (''http://'' @ s) = Some (takeWhile (\<lambda>c. c \<noteq> CHR '':'' \<and> c \<noteq> CHR ''/'') s)"
  "parse_host (''https://'' @ s) = Some (takeWhile (\<lambda>c. c \<noteq> CHR '':'' \<and> c \<noteq> CHR ''/'') s)"
proof -
  have "takeWhile P (takeWhile Q s) = takeWhile (\<lambda>c. P c \<and> Q c) s" for P Q and s :: string
    by (induction s) auto
  then show "parse_host (''http://'' @ s) = Some (takeWhile (\<lambda>c. c \<noteq> CHR '':'' \<and> c \<noteq> CHR ''/'') s)"
    "parse_host (''https://'' @ s) = Some (takeWhile (\<lambda>c. c \<noteq> CHR '':'' \<and> c \<noteq> CHR ''/'') s)"
    by (simp_all add: parse_host_def strip_prefix_str_def hd_split_char)
qed

text \<open>
  The host of an \<open>http\<close> or \<open>https\<close> URL is found with and without port and path; for any other
  scheme there is none. A bracketed IPv6 host is cut at its first colon.
\<close>

lemma parse_host_of_url:
  assumes "CHR '':'' \<notin> set host" and "CHR ''/'' \<notin> set host"
  shows "parse_host (''http://'' @ host @ '':'' @ port_path) = Some host \<and>
    parse_host (''https://'' @ host @ ''/'' @ path) = Some host \<and>
    parse_host (''http://'' @ host) = Some host \<and>
    parse_host (''ftp://'' @ host) = None \<and>
    parse_host (''http://['' @ host @ '':'' @ port_path) = Some (''['' @ host)"
proof -
  let ?P = "\<lambda>c. c \<noteq> CHR '':'' \<and> c \<noteq> CHR ''/''"
  have all: "\<forall>c \<in> set host. ?P c" using assms by auto
  then have "takeWhile ?P (host @ rest) = host @ takeWhile ?P rest" for rest
    by (simp add: takeWhile_append2)
  moreover from this [of "[]"] have "takeWhile ?P host = host" by simp
  moreover have "parse_host (''ftp://'' @ host) = None"
    by (simp add: parse_host_def strip_prefix_str_def)
  ultimately show ?thesis
    unfolding parse_host_eq by (simp add: parse_host_eq(1) [of "CHR ''['' # _", simplified])
qed

lemma parse_host_of_url_witness:
  "parse_host ''http://192.168.0.1:5000/rootDesc.xml'' = Some ''192.168.0.1''"
  using parse_host_of_url [of "''192.168.0.1''" "''5000/rootDesc.xml''" "[]"] by simp

end
