(* ===== verification/Eventing.thy ===== *)
theory Eventing
  imports Upnp_Facts
begin

text \<open>
  GENA eventing, \<open>src/upnp/eventing.rs\<close>: subscription, renewal and cancellation, the reading of a
  NOTIFY body, and one round of the renewal loop. \<open>tokio\<close>'s sleep between the rounds is not
  modelled; a round is \<open>renewal_tick\<close>. An \<open>Instant\<close> is a number of nanoseconds.
\<close>

section \<open>Requests\<close>

definition gena_request :: "string \<Rightarrow> string \<Rightarrow> (string \<times> string) list \<Rightarrow> http_request" where
  "gena_request verb event_url headers =
     \<lparr>rq_method = verb, rq_url = event_url, rq_headers = headers, rq_body = ''''\<rparr>"

definition timeout_header :: "u32 \<Rightarrow> string \<times> string" where
  "timeout_header timeout_secs = (''TIMEOUT'', ''Second-'' @ show_u32 timeout_secs)"

definition subscribe_request :: "string \<Rightarrow> string \<Rightarrow> u32 \<Rightarrow> http_request" where
  "subscribe_request event_url callback_url timeout_secs =
     gena_request ''SUBSCRIBE'' event_url
       [(''NT'', ''upnp:event''), (''CALLBACK'', ''<'' @ callback_url @ ''>''), timeout_header timeout_secs]"

text \<open>What \<open>subscribe\<close> makes of the response.\<close>

definition subscribe_result :: "http_response \<Rightarrow> (string, string) outcome" where
  "subscribe_result response =
     (if \<not> rs_success response then Err (''SUBSCRIBE failed with status '' @ rs_status response)
      else case rs_header response ''SID'' of
             None \<Rightarrow> Err ''No SID in SUBSCRIBE response''
           | Some (Inl e) \<Rightarrow> Err ''Invalid SID header''
           | Some (Inr sid) \<Rightarrow> Ok sid)"

definition subscribe :: "env \<Rightarrow> string \<Rightarrow> string \<Rightarrow> u32 \<Rightarrow> (world, (string, string) outcome) state" where
  "subscribe env event_url callback_url timeout_secs = do {
     r \<leftarrow> http_send env (subscribe_request event_url callback_url timeout_secs);
     ret (and_then (map_err (\<lambda>_. ''SUBSCRIBE request failed'') r) subscribe_result)
   }"

definition renew_request :: "string \<Rightarrow> string \<Rightarrow> u32 \<Rightarrow> http_request" where
  "renew_request event_url sid timeout_secs =
     gena_request ''SUBSCRIBE'' event_url [(''SID'', sid), timeout_header timeout_secs]"

definition renew_subscription :: "env \<Rightarrow> string \<Rightarrow> string \<Rightarrow> u32 \<Rightarrow> (world, (string, unit) outcome) state" where
  "renew_subscription env event_url sid timeout_secs = do {
     r \<leftarrow> http_send env (renew_request event_url sid timeout_secs);
     ret (and_then (map_err (\<lambda>_. ''SUBSCRIBE renewal failed'') r) (\<lambda>response.
       if \<not> rs_success response then Err (''SUBSCRIBE renewal failed: '' @ rs_status response) else Ok ()))
   }"

definition unsubscribe :: "env \<Rightarrow> string \<Rightarrow> string \<Rightarrow> (world, (string, unit) outcome) state" where
  "unsubscribe env event_url sid = do {
     r \<leftarrow> http_send env (gena_request ''UNSUBSCRIBE'' event_url [(''SID'', sid)]);
     ret (and_then (map_err (\<lambda>_. ''UNSUBSCRIBE failed'') r) (\<lambda>_. Ok ()))
   }"

section \<open>Notifications\<close>

text \<open>One round of the loop over the two tags; no error is possible, a panic is.\<close>

definition notify_tag :: "string \<Rightarrow> string \<Rightarrow> (string, string option) outcome" where
  "notify_tag xml tag =
     (case (find_sub (open_tag tag) xml, find_sub (close_tag tag) xml) of
        (Some start, Some end_) \<Rightarrow>
          and_then (str_slice xml (start + length (open_tag tag)) end_) (\<lambda>v.
            let value = trim v in Ok (if value \<noteq> [] then Some value else None))
      | _ \<Rightarrow> Ok None)"

fun notify_tags :: "string \<Rightarrow> string list \<Rightarrow> (string, string option) outcome" where
  "notify_tags xml [] = Ok None"
| "notify_tags xml (tag # tags) =
     and_then (notify_tag xml tag) (\<lambda>r. case r of Some value \<Rightarrow> Ok (Some value) | None \<Rightarrow> notify_tags xml tags)"

definition parse_notify_body :: "string \<Rightarrow> (string, string option) outcome" where
  "parse_notify_body xml = notify_tags xml [''NewExternalIPAddress'', ''ExternalIPAddress'']"

section \<open>The renewal loop\<close>

definition renewal_tick :: "env \<Rightarrow> string \<Rightarrow> u32 \<Rightarrow> (world, unit) state" where
  "renewal_tick env event_url ttl_secs = do {
     sid \<leftarrow> gets (\<lambda>w. map_option gena_sid (es_subscription (w_eventing w)));
     (case sid of
        None \<Rightarrow> ret ()
      | Some sid \<Rightarrow> do {
          r \<leftarrow> renew_subscription env event_url sid ttl_secs;
          (case r of
             Ok _ \<Rightarrow> do {
               sub \<leftarrow> gets (\<lambda>w. es_subscription (w_eventing w));
               (case sub of
                  None \<Rightarrow> ret ()
                | Some s \<Rightarrow> do {
                    now \<leftarrow> read_instant env;
                    upd_eventing (\<lambda>e. e\<lparr>es_subscription :=
                      Some (s\<lparr>gena_expiry := now + uint ttl_secs * 1000000000\<rparr>)\<rparr>)
                  })
             }
           | _ \<Rightarrow> upd_eventing (\<lambda>e. e\<lparr>es_subscription := None\<rparr>))
        })
   }"

section \<open>What a notification says\<close>

lemma notify_tag_extract:
  "notify_tag xml tag =
     (case extract_xml_value xml tag of
        Ok v \<Rightarrow> Ok (if trim v \<noteq> [] then Some (trim v) else None) | Err _ \<Rightarrow> Ok None | Panicked \<Rightarrow> Panicked)"
  by (cases "str_slice xml (the (find_sub (open_tag tag) xml) + length (open_tag tag)) (the (find_sub (close_tag tag) xml)) :: (string, string) outcome")
    (auto simp: notify_tag_def extract_xml_value_def Let_def str_slice_never_err split: option.splits)

lemma extract_none: "skips tag d \<Longrightarrow> extract_xml_value d tag = Err (''Tag '' @ tag @ '' not found in XML'')"
  using extract_miss [of tag d "[]"] by simp

text \<open>The property set a gateway posts, with one property.\<close>

definition gena_pre :: string where
  "gena_pre =
     ''<?xml version='' @ quoted ''1.0'' @ ''?>'' @ nl @
     ''<e:propertyset xmlns:e='' @ quoted ''urn:schemas-upnp-org:event-1-0'' @ ''>'' @ nl @
     ''  <e:property>'' @ nl @ ''    ''"

definition gena_post :: string where
  "gena_post = nl @ ''  </e:property>'' @ nl @ ''</e:propertyset>''"

definition notify_doc :: "string \<Rightarrow> string \<Rightarrow> string" where
  "notify_doc tag value = gena_pre @ xml_elem tag value @ gena_post"

lemma skips_gena_pre:
  assumes "tag_name tag" and "hd tag \<notin> {CHR ''?'', CHR ''e''}"
  shows "skips tag gena_pre"
proof -
  have chunk: "skips tag (lt # b)" if "lt \<notin> set b" "b \<noteq> []" "hd b \<in> {CHR ''?'', CHR ''e''}" for b
    using that assms by (intro skips_chunk) auto
  have "gena_pre =
     (lt # ''?xml version='' @ quoted ''1.0'' @ ''?>'' @ nl) @
     (lt # ''e:propertyset xmlns:e='' @ quoted ''urn:schemas-upnp-org:event-1-0'' @ ''>'' @ nl @ ''  '') @
     (lt # ''e:property>'' @ nl @ ''    '')"
    by (simp add: gena_pre_def)
  also have "skips tag \<dots>"
    by (intro skips_append chunk) (simp_all add: nl_def quoted_def)
  finally show ?thesis .
qed

lemma skips_gena_post:
  assumes "tag_name tag" and "hd tag \<noteq> CHR ''e''"
  shows "skips tag gena_post"
proof -
  have chunk: "skips tag (lt # slash # b)" if lt: "lt \<notin> set b" and hd: "b \<noteq> []" "hd b = CHR ''e''" for b
  proof -
    obtain b' where b: "b = CHR ''e'' # b'" using hd by (cases b) auto
    obtain t ts where t: "tag = t # ts" "t \<noteq> CHR ''e''" "t \<noteq> slash"
      using assms by (cases tag) (auto simp: tag_name_def)
    have "\<not> prefix (tag @ [gt]) ((slash # b) @ s)" "\<not> prefix (slash # tag @ [gt]) ((slash # b) @ s)" for s
      unfolding b t(1) using t(2,3) by simp_all
    then show ?thesis
      using lt find_mismatch [of "slash # b"] unfolding skips_def tags_eq by simp
  qed
  have "gena_post = (nl @ ''  '') @ (lt # slash # ''e:property>'' @ nl) @ (lt # slash # ''e:propertyset>'')"
    by (simp add: gena_post_def)
  also have "skips tag \<dots>"
    by (intro skips_append chunk skips_gap) (simp_all add: nl_def)
  finally show ?thesis .
qed

lemma notify_tag_names: "tag_name ''NewExternalIPAddress''" "tag_name ''ExternalIPAddress''"
  by (simp_all add: tag_name_def)

lemma utf8_gena: "utf8 gena_pre" "utf8 gena_post"
  by (rule utf8_ascii; simp add: gena_pre_def gena_post_def nl_def quoted_def is_ascii_def byte_def)+

lemma extract_notify:
  assumes "tag = ''NewExternalIPAddress'' \<or> tag = ''ExternalIPAddress''" and "lt \<notin> set v" and "utf8 v"
  shows "extract_xml_value (notify_doc tag v) tag = Ok v"
proof -
  have tag: "tag_name tag" "hd tag \<notin> {CHR ''?'', CHR ''e''}" "\<forall>c \<in> set tag. is_ascii c"
    using assms(1) notify_tag_names by (auto simp: is_ascii_def byte_def)
  have "utf8 (gena_pre @ xml_elem tag v @ gena_post)"
    using utf8_gena utf8_xml_elem [OF tag(1,3) assms(3)] by (intro utf8_append) simp_all
  with skips_gena_pre [OF tag(1,2)] tag(1) assms(2) show ?thesis
    unfolding notify_doc_def by (intro extract_hit)
qed

text \<open>
  A notification whose property set holds the address, under either of the two names, is read as
  that address, without the white space around it; an empty address is read as no news.
\<close>

lemma notification_is_read:
  assumes "tag = ''NewExternalIPAddress'' \<or> tag = ''ExternalIPAddress''" and "lt \<notin> set v" and "utf8 v"
  shows "parse_notify_body (notify_doc tag v) = Ok (if trim v = [] then None else Some (trim v))"
proof -
  have other: "extract_xml_value (notify_doc tag v) t = Err (''Tag '' @ t @ '' not found in XML'')"
    if "t \<noteq> tag" "t = ''NewExternalIPAddress'' \<or> t = ''ExternalIPAddress''" for t
  proof -
    have t: "tag_name t" "hd t \<notin> {CHR ''?'', CHR ''e''}" "hd t \<noteq> CHR ''e''" using that(2) notify_tag_names by auto
    have "tag_name tag" using assms(1) notify_tag_names by auto
    then have "skips t (gena_pre @ xml_elem tag v @ gena_post)"
      using t that(1) assms(2) by (intro skips_append skips_gena_pre skips_gena_post skips_elem) auto
    then show ?thesis unfolding notify_doc_def by (rule extract_none)
  qed
  from assms(1) show ?thesis
    using other [of "''NewExternalIPAddress''"] other [of "''ExternalIPAddress''"] extract_notify [OF assms]
    by (auto simp: parse_notify_body_def notify_tag_extract)
qed

lemma notification_is_read_witness:
  "parse_notify_body (notify_doc ''ExternalIPAddress'' '' 75.169.255.229'') = Ok (Some ''75.169.255.229'')"
proof -
  have "trim '' 75.169.255.229'' = ''75.169.255.229''" by (simp add: trim_def ws1_def ws2_def ws3_def byte_def)
  then show ?thesis
    using notification_is_read [of "''ExternalIPAddress''" "'' 75.169.255.229''"]
    by (simp add: utf8_def is_cont_def is_ascii_def byte_def)
qed

end
