(* ===== verification/Controller.thy ===== *)
theory Controller
  imports World
begin

text \<open>
  What the controllers share: the \<open>Action\<close> a reconciler returns to the runtime, the error type of
  \<open>port_mapping_ctrl.rs\<close>, \<open>chrono\<close>'s arithmetic as a named hypothesis, and the locale
  \<open>level_triggered\<close> of the reconcilers that compare an object with a desired value and patch it
  only when they differ.
\<close>

section \<open>Actions and errors\<close>

text \<open>\<open>Action::await_change()\<close> and \<open>Action::requeue(Duration::from_secs(s))\<close>.\<close>

datatype action = AwaitChange | Requeue int

datatype reconcile_error = KubeError string | UpnpError string | OtherError string

text \<open>\<open>#[error(..)]\<close>: how the error prints.\<close>

fun show_reconcile_error :: "reconcile_error \<Rightarrow> string" where
  "show_reconcile_error (KubeError e) = ''Kube error: '' @ e"
| "show_reconcile_error (UpnpError e) = ''UPnP error: '' @ e"
| "show_reconcile_error (OtherError e) = e"

text \<open>A reconciler keeps the runtime from spinning: what it asks for is never an immediate retry.\<close>

fun paced :: "('e, action) outcome \<Rightarrow> bool" where
  "paced (Ok (Requeue secs)) \<longleftrightarrow> 1 \<le> secs"
| "paced _ \<longleftrightarrow> True"

section \<open>Time\<close>

abbreviation nanos :: int where
  "nanos \<equiv> 1000000000"

text \<open>
  What \<open>chrono\<close> documents: adding a duration of whole seconds adds them, and \<open>num_seconds\<close>
  truncates a duration towards zero.
\<close>

definition chrono_ok :: "env \<Rightarrow> bool" where
  "chrono_ok env \<longleftrightarrow>
     (\<forall>t s. add_secs env t s = t + s * nanos) \<and>
     (\<forall>t u. num_seconds env t u = sgn (t - u) * (\<bar>t - u\<bar> div nanos))"

lemma chrono_ok_sample [simp]: "chrono_ok sample"
  if "add_secs sample = (\<lambda>t s. t + s * nanos)"
    and "num_seconds sample = (\<lambda>t u. sgn (t - u) * (\<bar>t - u\<bar> div nanos))"
  using that by (simp add: chrono_ok_def)

lemma num_seconds_bounds:
  assumes "chrono_ok env"
  shows "u \<le> t \<Longrightarrow> num_seconds env t u * nanos \<le> t - u \<and> t - u < (num_seconds env t u + 1) * nanos"
    and "t \<le> u \<Longrightarrow> num_seconds env t u \<le> 0"
proof -
  have eq: "num_seconds env t u = sgn (t - u) * (\<bar>t - u\<bar> div nanos)"
    using assms by (simp add: chrono_ok_def)
  { assume "u \<le> t"
    then have "num_seconds env t u = (t - u) div nanos"
      using eq by (cases "t = u") (simp_all add: sgn_if)
    then show "num_seconds env t u * nanos \<le> t - u \<and> t - u < (num_seconds env t u + 1) * nanos"
      by (simp add: algebra_simps) linarith }
  { assume "t \<le> u"
    then show "num_seconds env t u \<le> 0"
      using eq by (cases "t = u") (simp_all add: sgn_if) }
qed

section \<open>Level-triggered reconciliation\<close>

text \<open>
  \<open>stale o d\<close>: the object does not show the desired value; \<open>fix o d\<close>: the object once patched.
  A patch removes the need for a patch, and patches do not accumulate.
\<close>

locale level_triggered =
  fixes stale :: "'o \<Rightarrow> 'd \<Rightarrow> bool"
    and fix_up :: "'o \<Rightarrow> 'd \<Rightarrow> 'o"
  assumes fixed: "\<not> stale (fix_up ob d) d"
    and overwrite: "fix_up (fix_up ob d) d' = fix_up ob d'"
begin

definition level_step :: "'d \<Rightarrow> 'o \<Rightarrow> 'o" where
  "level_step d ob = (if stale ob d then fix_up ob d else ob)"

lemma level_step_settles: "\<not> stale (level_step d ob) d"
  by (simp add: level_step_def fixed)

lemma level_step_idem: "level_step d (level_step d ob) = level_step d ob"
  using level_step_settles by (simp add: level_step_def)

text \<open>However the desired value moved, the object follows it, and is one patch from the start.\<close>

lemma level_history:
  "fold level_step ds ob = ob \<or> (\<exists>d \<in> set ds. fold level_step ds ob = fix_up ob d)"
proof (induction ds rule: rev_induct)
  case (snoc d ds)
  then show ?case by (auto simp: level_step_def overwrite)
qed simp

lemma level_history_settles: "\<not> stale (fold level_step (ds @ [d]) ob) d"
  by (simp add: level_step_settles)

end

end
