(* ===== verification/Dns_Endpoint.thy ===== *)
theory Dns_Endpoint
  imports Controller Sample_Env
begin

text \<open>
  The DNSEndpoint controller of \<open>src/controllers/dns_endpoint_ctrl.rs\<close>: it writes the WAN address
  into the A records of the managed DNSEndpoints, one object at a time when the runtime asks, and
  all of them when the address changes. The task around it, which waits for the CRD, is in the theory
  \<open>Dns_Run\<close>.
\<close>

section \<open>The controller\<close>

definition MANAGED_ANNOTATION :: string where
  "MANAGED_ANNOTATION = ''upnp-controller.io/managed''"

definition is_managed :: "dns_endpoint \<Rightarrow> bool" where
  "is_managed ep = (annotation (dns_metadata ep) MANAGED_ANNOTATION = Some ''true'')"

definition targets_correct :: "endpoint list \<Rightarrow> string \<Rightarrow> bool" where
  "targets_correct spec wan_ip = list_all (\<lambda>e. ep_record_type e \<noteq> ''A'' \<or> ep_targets e = [wan_ip]) spec"

definition build_patched_spec :: "endpoint list \<Rightarrow> string \<Rightarrow> endpoint list" where
  "build_patched_spec spec wan_ip =
     map (\<lambda>e. if ep_record_type e = ''A'' then e\<lparr>ep_targets := [wan_ip]\<rparr> else e) spec"

definition patch_targets :: "env \<Rightarrow> dns_endpoint \<Rightarrow> string \<Rightarrow> (world, unit) state" where
  "patch_targets env ep wan_ip = do {
     let name = meta_name (dns_metadata ep);
     let ns = namespace_or_default (dns_metadata ep);
     _ \<leftarrow> kube_unit env (PatchDnsEndpoint ns name (build_patched_spec (dns_spec ep) wan_ip));
     ret ()
   }"

definition update_all_managed :: "env \<Rightarrow> string \<Rightarrow> (world, unit) state" where
  "update_all_managed env wan_ip = do {
     listed \<leftarrow> kube_list_dns env ListDnsEndpoints;
     (case listed of
        Ok endpoints \<Rightarrow>
          for_each (\<lambda>ep. if \<not> is_managed ep then ret () else patch_targets env ep wan_ip) endpoints
      | _ \<Rightarrow> ret ())
   }"

definition dns_reconcile :: "env \<Rightarrow> dns_endpoint \<Rightarrow> (world, (string, action) outcome) state" where
  "dns_reconcile env ep =
     (if \<not> is_managed ep then ret (Ok AwaitChange)
      else do {
        wan_ip \<leftarrow> gets (\<lambda>w. es_current_external_ip (w_eventing w));
        (case wan_ip of
           None \<Rightarrow> ret (Ok (Requeue 10))
         | Some wan_ip \<Rightarrow> do {
             (if \<not> targets_correct (dns_spec ep) wan_ip then patch_targets env ep wan_ip else ret ());
             ret (Ok (Requeue 300))
           })
      })"

definition dns_error_policy :: "dns_endpoint \<Rightarrow> string \<Rightarrow> action" where
  "dns_error_policy ep e = Requeue 30"

section \<open>The patch\<close>

interpretation dns: level_triggered "\<lambda>spec ip. \<not> targets_correct spec ip" build_patched_spec
  by unfold_locales (auto simp: targets_correct_def build_patched_spec_def list_all_iff)

text \<open>
  The patched spec is correct for the address; it keeps every record, in order, with its name,
  type and TTL, and all that is not an A record as it was; and a spec is correct exactly if patching
  it changes nothing, so the check never skips a needed patch.
\<close>

lemma patched_spec_correct:
  "targets_correct (build_patched_spec spec ip) ip \<and>
   map ep_dns_name (build_patched_spec spec ip) = map ep_dns_name spec \<and>
   map ep_record_type (build_patched_spec spec ip) = map ep_record_type spec \<and>
   map ep_record_ttl (build_patched_spec spec ip) = map ep_record_ttl spec \<and>
   filter (\<lambda>e. ep_record_type e \<noteq> ''A'') (build_patched_spec spec ip) = filter (\<lambda>e. ep_record_type e \<noteq> ''A'') spec \<and>
   (targets_correct spec ip \<longleftrightarrow> build_patched_spec spec ip = spec)"
proof -
  have other: "filter (\<lambda>e. ep_record_type e \<noteq> ''A'') (build_patched_spec spec ip) = filter (\<lambda>e. ep_record_type e \<noteq> ''A'') spec"
    by (induction spec) (simp_all add: build_patched_spec_def)
  have "build_patched_spec spec ip = spec" if "targets_correct spec ip"
    using that by (induction spec) (auto simp: build_patched_spec_def targets_correct_def)
  then show ?thesis
    using other dns.fixed [of spec ip] by (auto simp: build_patched_spec_def)
qed

section \<open>The runs\<close>

definition dns_patch :: "string \<Rightarrow> dns_endpoint \<Rightarrow> call" where
  "dns_patch ip ep =
     Kube (PatchDnsEndpoint (namespace_or_default (dns_metadata ep)) (meta_name (dns_metadata ep))
       (build_patched_spec (dns_spec ep) ip))"

lemma run_patch_targets [simp]: "run_state (patch_targets env ep ip) w = ((), log_call (dns_patch ip ep) w)"
  unfolding wp_eq_run [symmetric] by (simp add: patch_targets_def dns_patch_def wp_simps)

lemma run_patch_managed:
  "run_state (for_each (\<lambda>ep. if \<not> is_managed ep then ret () else patch_targets env ep ip) eps) w =
     ((), w\<lparr>w_calls := w_calls w @ map (dns_patch ip) (filter is_managed eps)\<rparr>)"
  by (induction eps arbitrary: w) (simp_all add: log_call_def)

text \<open>The calls of an update of all, when the API server answers the listing with \<open>answer\<close>.\<close>

definition dns_push :: "string \<Rightarrow> string + dns_endpoint list \<Rightarrow> call list" where
  "dns_push ip answer =
     Kube ListDnsEndpoints # (case answer of Inl e \<Rightarrow> [] | Inr eps \<Rightarrow> map (dns_patch ip) (filter is_managed eps))"

lemma run_update_all_managed:
  "run_state (update_all_managed env ip) w =
    ((), w\<lparr>w_calls := w_calls w @ dns_push ip (list_dns_answer env (w_calls w) ListDnsEndpoints)\<rparr>)"
  by (cases "list_dns_answer env (w_calls w) ListDnsEndpoints")
    (simp_all add: update_all_managed_def kube_list_dns_def run_patch_managed log_call_def dns_push_def)

text \<open>
  A change of the address patches every managed DNSEndpoint of the list exactly once, in its
  order, and no other; a patch that fails does not keep the rest from being patched.
\<close>

lemma update_all_managed_effect:
  assumes "list_dns_answer env (w_calls w) ListDnsEndpoints = Inr eps"
  shows "run_state (update_all_managed env ip) w =
    ((), w\<lparr>w_calls := w_calls w @ Kube ListDnsEndpoints # map (dns_patch ip) (filter is_managed eps)\<rparr>)"
  using assms by (simp add: run_update_all_managed dns_push_def)

definition sample_dns :: "string \<Rightarrow> dns_endpoint" where
  "sample_dns target =
     \<lparr>dns_metadata = \<lparr>meta_name = ''home'', meta_namespace = None, meta_uid = None,
        meta_annotations = Some [MANAGED_ANNOTATION \<mapsto> ''true''], meta_owner_references = None,
        meta_finalizers = None, meta_deletion_timestamp = None\<rparr>,
      dns_spec = [\<lparr>ep_dns_name = ''home.example'', ep_record_type = ''A'', ep_record_ttl = Some 60, ep_targets = [target]\<rparr>]\<rparr>"

text \<open>
  A visit patches a DNSEndpoint exactly if it is managed, the address is known and an A record
  does not show it; so a visit to the object it patched, with the address unchanged, makes no call.
\<close>

lemma dns_reconcile_effect:
  "run_state (dns_reconcile env ep) w =
    (if \<not> is_managed ep then (Ok AwaitChange, w)
     else case es_current_external_ip (w_eventing w) of
            None \<Rightarrow> (Ok (Requeue 10), w)
          | Some ip \<Rightarrow> (Ok (Requeue 300), if targets_correct (dns_spec ep) ip then w else log_call (dns_patch ip ep) w)) \<and>
   snd (run_state (dns_reconcile env (ep\<lparr>dns_spec :=
       build_patched_spec (dns_spec ep) (the (es_current_external_ip (w_eventing w)))\<rparr>)) w) = w"
proof -
  have "is_managed (ep\<lparr>dns_spec := s\<rparr>) = is_managed ep" for s by (simp add: is_managed_def)
  then show ?thesis
    using dns.fixed by (auto simp: dns_reconcile_def split: option.splits)
qed

end
