(* ===== verification/Gateway.thy ===== *)
theory Gateway
  imports Controller Sample_Env
begin

text \<open>
  The GatewayStatus controller of \<open>src/controllers/gateway_ctrl.rs\<close>: it creates the singleton and
  keeps its status in step with the shared state. Of \<open>GatewayContext\<close>, the eventing state, the
  subscription id and the metrics are in the world; the URL and the LAN address are the fields here.
\<close>

section \<open>The controller\<close>

record gateway_context =
  gc_gateway_url :: string
  gc_lan_ip :: "string option"

definition ensure_singleton :: "env \<Rightarrow> (world, unit) state" where
  "ensure_singleton env = do {
     found \<leftarrow> kube_get_gs env (GetGatewayStatus GATEWAY_STATUS_NAME);
     (case found of
        Ok (Some _) \<Rightarrow> ret ()
      | Ok None \<Rightarrow> do {
          _ \<leftarrow> kube_unit env (CreateGatewayStatus \<lparr>gwo_name = GATEWAY_STATUS_NAME, gwo_status = None\<rparr>);
          ret ()
        }
      | _ \<Rightarrow> ret ())
   }"

definition needs_update ::
  "gateway_context \<Rightarrow> gateway_status_status option \<Rightarrow> string option \<Rightarrow> string option \<Rightarrow> bool"
where
  "needs_update ctx status external_ip sid =
     (case status of
        None \<Rightarrow> True
      | Some old \<Rightarrow>
          gws_external_ip old \<noteq> external_ip \<or>
          gws_gateway_url old \<noteq> Some (gc_gateway_url ctx) \<or>
          gws_subscription_id old \<noteq> sid \<or>
          gws_lan_ip old \<noteq> gc_lan_ip ctx \<or>
          gws_ready old \<noteq> (external_ip \<noteq> None))"

definition new_status ::
  "gateway_context \<Rightarrow> string option \<Rightarrow> string option \<Rightarrow> datetime \<Rightarrow> gateway_status_status"
where
  "new_status ctx external_ip sid now =
     \<lparr>gws_external_ip = external_ip, gws_gateway_url = Some (gc_gateway_url ctx),
      gws_subscription_id = sid, gws_subscription_expiry = None, gws_last_seen = Some now,
      gws_lan_ip = gc_lan_ip ctx, gws_ready = (external_ip \<noteq> None)\<rparr>"

definition gateway_reconcile ::
  "env \<Rightarrow> gateway_context \<Rightarrow> gateway_status \<Rightarrow> (world, (string, action) outcome) state"
where
  "gateway_reconcile env ctx gs = do {
     external_ip \<leftarrow> gets (\<lambda>w. es_current_external_ip (w_eventing w));
     sid \<leftarrow> gets w_subscription_id;
     now \<leftarrow> read_utc env;
     (if needs_update ctx (gwo_status gs) external_ip sid
      then do {
        _ \<leftarrow> kube_unit env (PatchGatewayStatus GATEWAY_STATUS_NAME (new_status ctx external_ip sid now));
        ret ()
      }
      else ret ());
     upd_metrics (\<lambda>m. m\<lparr>mt_gateway_last_seen := timestamp env now\<rparr>);
     ret (Ok (Requeue 60))
   }"

definition gateway_error_policy :: "gateway_status \<Rightarrow> string \<Rightarrow> action" where
  "gateway_error_policy gs e = Requeue 30"

section \<open>Its runs\<close>

interpretation gw: level_triggered
  "\<lambda>status (ip, sid, now). needs_update ctx status ip sid"
  "\<lambda>status (ip, sid, now). Some (new_status ctx ip sid now)" for ctx
  by unfold_locales (auto simp: needs_update_def new_status_def)

text \<open>What the visit on \<open>w\<close> wants to see: the address, the subscription, the time.\<close>

definition gateway_view :: "env \<Rightarrow> world \<Rightarrow> string option \<times> string option \<times> datetime" where
  "gateway_view env w =
     (es_current_external_ip (w_eventing w), w_subscription_id w, utc_now env (w_calls w))"

definition seen :: "env \<Rightarrow> datetime \<Rightarrow> world \<Rightarrow> world" where
  "seen env now w = w\<lparr>w_metrics := (w_metrics w)\<lparr>mt_gateway_last_seen := timestamp env now\<rparr>\<rparr>"

lemma run_gateway_reconcile:
  "run_state (gateway_reconcile env ctx gs) w =
    (Ok (Requeue 60), seen env (utc_now env (w_calls w))
      (if needs_update ctx (gwo_status gs) (es_current_external_ip (w_eventing w)) (w_subscription_id w)
       then log_call (Kube (PatchGatewayStatus GATEWAY_STATUS_NAME
              (new_status ctx (es_current_external_ip (w_eventing w)) (w_subscription_id w) (utc_now env (w_calls w)))))
              (log_call UtcNow w)
       else log_call UtcNow w))"
  unfolding wp_eq_run [symmetric] by (simp add: gateway_reconcile_def seen_def wp_simps)

text \<open>
  A visit patches the singleton exactly if its status differs from the shared state in a field
  other than the time, always succeeds, and asks for a visit a minute later. The metric of the last
  router contact is set to the present in every case, though no visit contacts the router.
\<close>

lemma gateway_reconcile_effect:
  "run_state (gateway_reconcile env ctx gs) w =
    (case gateway_view env w of (ip, sid, now) \<Rightarrow>
      (Ok (Requeue 60), seen env now
        (if needs_update ctx (gwo_status gs) ip sid
         then log_call (Kube (PatchGatewayStatus GATEWAY_STATUS_NAME (new_status ctx ip sid now))) (log_call UtcNow w)
         else log_call UtcNow w)))"
  by (simp add: run_gateway_reconcile gateway_view_def)

text \<open>
  C37. The visit that the patch itself provokes makes no further patch, whatever the clock says then:
  no endless loop of patches. The patched status is ready exactly if the address is known. And any
  visit sets the metric of the last router contact to the present, though it contacts no router.
\<close>

theorem gateway_patch_settles:
  "w_calls (snd (run_state (gateway_reconcile env ctx
      \<lparr>gwo_name = name, gwo_status = Some (new_status ctx ip sid now)\<rparr>)
      (v\<lparr>w_eventing := e\<lparr>es_current_external_ip := ip\<rparr>, w_subscription_id := sid\<rparr>))) = w_calls v @ [UtcNow] \<and>
   (gws_ready (new_status ctx ip sid now) \<longleftrightarrow> gws_external_ip (new_status ctx ip sid now) \<noteq> None) \<and>
   mt_gateway_last_seen (w_metrics (snd (run_state (gateway_reconcile env ctx gs) w))) = timestamp env (utc_now env (w_calls w))"
proof -
  have "\<not> needs_update ctx (Some (new_status ctx ip sid now)) ip sid"
    using gw.fixed [of ctx "(ip, sid, now)"] by simp
  then show ?thesis by (simp add: run_gateway_reconcile seen_def new_status_def)
qed

text \<open>
  At the start the singleton is created exactly if the API server says that there is none; an
  error is only logged.
\<close>

lemma ensure_singleton_effect:
  "w_calls (snd (run_state (ensure_singleton env) w)) =
     w_calls w @ Kube (GetGatewayStatus ''default'') #
       (if get_gs_answer env (w_calls w) (GetGatewayStatus ''default'') = Inr None
        then [Kube (CreateGatewayStatus \<lparr>gwo_name = ''default'', gwo_status = None\<rparr>)] else [])"
proof -
  have "wp (ensure_singleton env) (\<lambda>_ v. w_calls v =
     w_calls w @ Kube (GetGatewayStatus ''default'') #
       (if get_gs_answer env (w_calls w) (GetGatewayStatus ''default'') = Inr None
        then [Kube (CreateGatewayStatus \<lparr>gwo_name = ''default'', gwo_status = None\<rparr>)] else [])) w"
    by (cases "get_gs_answer env (w_calls w) (GetGatewayStatus ''default'')")
      (auto simp: ensure_singleton_def GATEWAY_STATUS_NAME_def wp_simps split: option.splits)
  then show ?thesis by (simp add: wp_run)
qed

end
