(* ===== verification/Pm_Reconcile.thy ===== *)
theory Pm_Reconcile
  imports Controller Upnp_Client
begin

text \<open>
  The PortMapping reconciler of \<open>src/controllers/port_mapping_ctrl.rs\<close>: \<open>reconcile_apply\<close>, which
  programs the router and renews the lease, \<open>reconcile_cleanup\<close>, which removes the mapping, and
  the \<open>reconcile\<close> that hangs them on \<open>kube\<close>'s finalizer. Log lines are left out. The fields
  \<open>metrics\<close>, \<open>proxy_manager\<close> and \<open>shutting_down\<close> of \<open>PortMappingContext\<close> are in the world, its
  \<open>client\<close> is the environment, and \<open>upnp\<close> is an argument.
\<close>

section \<open>The handlers\<close>

definition FINALIZER :: string where
  "FINALIZER = ''upnp-controller.io/cleanup''"

definition DEFAULT_LEASE_SECS :: u32 where
  "DEFAULT_LEASE_SECS = 3600"

definition RENEWAL_BUFFER_SECS :: int where
  "RENEWAL_BUFFER_SECS = 30"

definition patch_status ::
  "env \<Rightarrow> string \<Rightarrow> string \<Rightarrow> port_mapping_status \<Rightarrow> (world, (reconcile_error, unit) outcome) state"
where
  "patch_status env ns name status = do {
     r \<leftarrow> kube_unit env (PatchPortMappingStatus ns name status);
     ret (map_err KubeError r)
   }"

text \<open>The expiry the reconciler looks at: that of an active status.\<close>

definition lease_of :: "port_mapping \<Rightarrow> datetime option" where
  "lease_of pm =
     (case pmo_status pm of
        None \<Rightarrow> None
      | Some status \<Rightarrow> if pms_active status then pms_lease_expiry status else None)"

text \<open>How long to wait if it is not yet time to renew; the clock is read only if there is a lease.\<close>

definition renewal_wait :: "env \<Rightarrow> port_mapping \<Rightarrow> (world, int option) state" where
  "renewal_wait env pm =
     (case lease_of pm of
        None \<Rightarrow> ret None
      | Some expiry \<Rightarrow> do {
          now \<leftarrow> read_utc env;
          let secs_until_expiry = num_seconds env expiry now;
          ret (if secs_until_expiry > RENEWAL_BUFFER_SECS
               then Some (max (secs_until_expiry - RENEWAL_BUFFER_SECS) 1) else None)
        })"

definition active_status :: "string option \<Rightarrow> datetime option \<Rightarrow> datetime \<Rightarrow> port_mapping_status" where
  "active_status external_ip lease_expiry now =
     \<lparr>pms_active = True, pms_external_ip = external_ip, pms_lease_expiry = lease_expiry,
      pms_last_renewal = Some now,
      pms_conditions = [\<lparr>cond_type = ''Active'', cond_status = ''True'', cond_reason = ''MappingEstablished'',
        cond_message = None, cond_last_transition_time = Some now\<rparr>]\<rparr>"

definition failed_status :: "string \<Rightarrow> datetime \<Rightarrow> port_mapping_status" where
  "failed_status e now =
     port_mapping_status_default\<lparr>pms_active := False,
       pms_conditions := [\<lparr>cond_type = ''Active'', cond_status = ''False'', cond_reason = ''AddFailed'',
         cond_message = Some e, cond_last_transition_time = Some now\<rparr>]\<rparr>"

definition inc_renewals :: "string \<Rightarrow> metrics \<Rightarrow> metrics" where
  "inc_renewals name m =
     m\<lparr>mt_port_mapping_renewals := (mt_port_mapping_renewals m)(name := Suc (mt_port_mapping_renewals m name))\<rparr>"

definition inc_failures :: "string \<Rightarrow> string \<Rightarrow> metrics \<Rightarrow> metrics" where
  "inc_failures name reason m =
     m\<lparr>mt_port_mapping_failures :=
         (mt_port_mapping_failures m)((name, reason) := Suc (mt_port_mapping_failures m (name, reason)))\<rparr>"

definition add_active :: "int \<Rightarrow> metrics \<Rightarrow> metrics" where
  "add_active d m = m\<lparr>mt_active_port_mappings := mt_active_port_mappings m + d\<rparr>"

text \<open>When to come back after a success.\<close>

definition requeue_after :: "env \<Rightarrow> datetime option \<Rightarrow> (world, int) state" where
  "requeue_after env lease_expiry =
     (case lease_expiry of
        Some e \<Rightarrow> do {
          now \<leftarrow> read_utc env;
          ret (max (num_seconds env e now - RENEWAL_BUFFER_SECS) 10)
        }
      | None \<Rightarrow> ret 3600)"

text \<open>The branch \<open>Ok(lease_duration)\<close>.\<close>

definition record_success ::
  "env \<Rightarrow> upnp_client \<Rightarrow> string \<Rightarrow> string \<Rightarrow> u32 \<Rightarrow> (world, (reconcile_error, action) outcome) state"
where
  "record_success env upnp ns name lease_duration = do {
     now \<leftarrow> read_utc env;
     let lease_expiry = (if lease_duration > 0 then Some (add_secs env now (uint lease_duration)) else None);
     r \<leftarrow> get_external_ip env upnp;
     (if r = Panicked then ret Panicked
      else do {
        let external_ip = (case r of Ok ip \<Rightarrow> Some ip | _ \<Rightarrow> None);
        try_bind (patch_status env ns name (active_status external_ip lease_expiry now)) (\<lambda>_. do {
          upd_metrics (inc_renewals name);
          upd_metrics (add_active 1);
          requeue \<leftarrow> requeue_after env lease_expiry;
          ret (Ok (Requeue requeue))
        })
      })
   }"

text \<open>The branch \<open>Err(e)\<close>.\<close>

definition record_failure ::
  "env \<Rightarrow> string \<Rightarrow> string \<Rightarrow> string \<Rightarrow> (world, (reconcile_error, action) outcome) state"
where
  "record_failure env ns name e = do {
     upd_metrics (inc_failures name ''add_failed'');
     now \<leftarrow> read_utc env;
     try_bind (patch_status env ns name (failed_status e now)) (\<lambda>_. ret (Ok (Requeue 60)))
   }"

definition pm_description :: "port_mapping \<Rightarrow> string" where
  "pm_description pm =
     (case spec_description (pmo_spec pm) of Some d \<Rightarrow> d | None \<Rightarrow> meta_name (pmo_metadata pm))"

definition reconcile_apply ::
  "env \<Rightarrow> upnp_client \<Rightarrow> string \<Rightarrow> port_mapping \<Rightarrow> (world, (reconcile_error, action) outcome) state"
where
  "reconcile_apply env upnp ns pm = do {
     let name = meta_name (pmo_metadata pm);
     let spec = pmo_spec pm;
     let protocol = protocol_to_string (spec_protocol spec);
     wait \<leftarrow> renewal_wait env pm;
     (case wait of
        Some secs \<Rightarrow> ret (Ok (Requeue secs))
      | None \<Rightarrow> do {
          added \<leftarrow> add_port_mapping env upnp (spec_external_port spec) (spec_internal_host spec)
            (spec_internal_port spec) protocol (pm_description pm) DEFAULT_LEASE_SECS;
          (case added of
             Ok lease_duration \<Rightarrow> record_success env upnp ns name lease_duration
           | Err e \<Rightarrow> record_failure env ns name e
           | Panicked \<Rightarrow> ret Panicked)
        })
   }"

definition reconcile_cleanup ::
  "env \<Rightarrow> upnp_client \<Rightarrow> port_mapping \<Rightarrow> (world, (reconcile_error, action) outcome) state"
where
  "reconcile_cleanup env upnp pm = do {
     let spec = pmo_spec pm;
     r \<leftarrow> delete_port_mapping env upnp (spec_external_port spec) (protocol_to_string (spec_protocol spec));
     (case r of
        Ok _ \<Rightarrow> do { upd_metrics (add_active (- 1)); ret (Ok AwaitChange) }
      | Err e \<Rightarrow> ret (Ok AwaitChange)
      | Panicked \<Rightarrow> ret Panicked)
   }"

text \<open>
  \<open>kube\<close>'s \<open>finalizer\<close> is not part of the repository: it is the parameter \<open>fin\<close>, given the
  namespace of the API handle, the finalizer's name, the object and what to do on its events.
\<close>

datatype finalizer_event = Apply port_mapping | Cleanup port_mapping

type_synonym finalizer_fn =
  "string \<Rightarrow> string \<Rightarrow> port_mapping \<Rightarrow> (finalizer_event \<Rightarrow> (world, (reconcile_error, action) outcome) state) \<Rightarrow>
   (world, (string, action) outcome) state"

definition reconcile ::
  "finalizer_fn \<Rightarrow> env \<Rightarrow> upnp_client \<Rightarrow> port_mapping \<Rightarrow> (world, (reconcile_error, action) outcome) state"
where
  "reconcile fin env upnp pm = do {
     let ns = namespace_or_default (pmo_metadata pm);
     r \<leftarrow> fin ns FINALIZER pm (\<lambda>event. case event of
            Apply pm \<Rightarrow> reconcile_apply env upnp ns pm
          | Cleanup pm \<Rightarrow> reconcile_cleanup env upnp pm);
     ret (map_err OtherError r)
   }"

definition error_policy :: "port_mapping \<Rightarrow> reconcile_error \<Rightarrow> action" where
  "error_policy pm e = Requeue 30"

end
