(* ===== verification/Pm_Facts.thy ===== *)
theory Pm_Facts
  imports Pm_Reconcile Sample_Env
begin

text \<open>
  Correctness of the PortMapping reconciler: an active lease is left alone until thirty seconds
  before it ends and is then renewed, in time; what each outcome writes, counts and asks for; and
  the clean-up, which always lets the object go.
\<close>

section \<open>Requests and effects\<close>

definition add_request :: "upnp_client \<Rightarrow> port_mapping \<Rightarrow> http_request" where
  "add_request upnp pm =
     soap_request upnp ''AddPortMapping''
       (add_port_mapping_body (spec_external_port (pmo_spec pm)) (spec_internal_host (pmo_spec pm))
         (spec_internal_port (pmo_spec pm)) (protocol_to_string (spec_protocol (pmo_spec pm)))
         (pm_description pm) DEFAULT_LEASE_SECS)"

definition delete_request :: "upnp_client \<Rightarrow> port_mapping \<Rightarrow> http_request" where
  "delete_request upnp pm =
     soap_request upnp ''DeletePortMapping''
       (delete_port_mapping_body (spec_external_port (pmo_spec pm))
         (protocol_to_string (spec_protocol (pmo_spec pm))))"

definition ip_request :: "upnp_client \<Rightarrow> http_request" where
  "ip_request upnp = soap_request upnp ''GetExternalIPAddress'' get_external_ip_body"

abbreviation pm_name :: "port_mapping \<Rightarrow> string" where
  "pm_name pm \<equiv> meta_name (pmo_metadata pm)"

fun with_value :: "'b \<Rightarrow> ('e, 'a) outcome \<Rightarrow> ('e, 'b) outcome" where
  "with_value b (Ok a) = Ok b"
| "with_value b (Err e) = Err e"
| "with_value b Panicked = Panicked"

lemma wp_upnp [wp_simps]:
  "wp (add_port_mapping env upnp ep host ip proto desc lease) Q w =
     (let rq = soap_request upnp ''AddPortMapping'' (add_port_mapping_body ep host ip proto desc lease)
      in Q (with_value lease (soap_result (http_answer env (w_calls w) rq))) (log_call (Http rq) w))"
  "wp (delete_port_mapping env upnp ep proto) Q1 w =
     (let rq = soap_request upnp ''DeletePortMapping'' (delete_port_mapping_body ep proto)
      in Q1 (with_value () (soap_result (http_answer env (w_calls w) rq))) (log_call (Http rq) w))"
  "wp (get_external_ip env upnp) Q2 w =
     Q2 (and_then (soap_result (http_answer env (w_calls w) (ip_request upnp))) parse_external_ip)
       (log_call (Http (ip_request upnp)) w)"
  by (simp_all add: add_port_mapping_def delete_port_mapping_def get_external_ip_def ip_request_def
      wp_simps Let_def split: outcome.splits)

lemma wp_patch_status [wp_simps]:
  "wp (patch_status env ns name st) Q w =
     Q (map_err KubeError (sum_outcome (kube_answer env (w_calls w) (PatchPortMappingStatus ns name st))))
       (log_call (Kube (PatchPortMappingStatus ns name st)) w)"
  by (simp add: patch_status_def wp_simps)

text \<open>Whether the reconciler, started on \<open>w\<close>, goes on to the router.\<close>

definition due :: "env \<Rightarrow> port_mapping \<Rightarrow> world \<Rightarrow> bool" where
  "due env pm w =
     (case lease_of pm of
        None \<Rightarrow> True
      | Some expiry \<Rightarrow> num_seconds env expiry (utc_now env (w_calls w)) \<le> RENEWAL_BUFFER_SECS)"

definition look_at_clock :: "port_mapping \<Rightarrow> world \<Rightarrow> world" where
  "look_at_clock pm w = (if lease_of pm = None then w else log_call UtcNow w)"

lemma wp_renewal_wait [wp_simps]:
  "wp (renewal_wait env pm) Q w =
     Q (if due env pm w then None
        else Some (num_seconds env (the (lease_of pm)) (utc_now env (w_calls w)) - RENEWAL_BUFFER_SECS))
       (look_at_clock pm w)"
  by (auto simp: renewal_wait_def due_def look_at_clock_def wp_simps Let_def split: option.splits)

section \<open>Before the renewal\<close>

lemma run_reconcile_apply_wait:
  assumes "\<not> due env pm w"
  shows "run_state (reconcile_apply env upnp ns pm) w =
    (Ok (Requeue (num_seconds env (the (lease_of pm)) (utc_now env (w_calls w)) - RENEWAL_BUFFER_SECS)),
     log_call UtcNow w)"
proof -
  have "lease_of pm \<noteq> None" using assms by (auto simp: due_def split: option.splits)
  then have "wp (reconcile_apply env upnp ns pm) (\<lambda>r w'. (r, w') =
     (Ok (Requeue (num_seconds env (the (lease_of pm)) (utc_now env (w_calls w)) - RENEWAL_BUFFER_SECS)),
     log_call UtcNow w)) w"
    using assms by (simp add: reconcile_apply_def Let_def wp_simps look_at_clock_def)
  then show ?thesis by (simp only: wp_eq_run)
qed

text \<open>
  C28. While more than thirty seconds of an active lease are left, the reconciler reads the clock and
  does nothing else: no request to the router, no patch, no counter. In particular a change of the
  spec is not programmed until the lease runs out.
\<close>

theorem active_lease_left_alone:
  assumes "pmo_status pm = Some st" and "pms_active st" and "pms_lease_expiry st = Some expiry"
    and "num_seconds env expiry (utc_now env (w_calls w)) > 30"
  shows "run_state (reconcile_apply env upnp ns (pm\<lparr>pmo_spec := any_spec\<rparr>)) w =
    (Ok (Requeue (num_seconds env expiry (utc_now env (w_calls w)) - 30)), log_call UtcNow w)"
proof -
  have lease: "lease_of (pm\<lparr>pmo_spec := any_spec\<rparr>) = Some expiry" using assms(1-3) by (simp add: lease_of_def)
  with assms(4) have "\<not> due env (pm\<lparr>pmo_spec := any_spec\<rparr>) w"
    by (simp add: due_def RENEWAL_BUFFER_SECS_def)
  from run_reconcile_apply_wait [OF this] lease show ?thesis by (simp add: RENEWAL_BUFFER_SECS_def)
qed

definition sample_pm :: "port_mapping_status option \<Rightarrow> port_mapping" where
  "sample_pm st =
     \<lparr>pmo_metadata = \<lparr>meta_name = ''web'', meta_namespace = Some ''prod'', meta_uid = None,
        meta_annotations = None, meta_owner_references = None,
        meta_finalizers = None, meta_deletion_timestamp = None\<rparr>,
      pmo_spec = \<lparr>spec_external_port = 8080, spec_internal_host = ''192.168.0.2'', spec_internal_port = 80,
        spec_protocol = Tcp, spec_description = None\<rparr>,
      pmo_status = st\<rparr>"

theorem active_lease_left_alone_witness:
  "run_state (reconcile_apply sample_env (upnp_client_new ''u'') ''prod''
     (sample_pm (Some (active_status None (Some 100000000000) 0)))) (world_new ''192.168.0.2'') =
   (Ok (Requeue 70), log_call UtcNow (world_new ''192.168.0.2''))"
  using active_lease_left_alone [of "sample_pm (Some (active_status None (Some 100000000000) 0))"
      "active_status None (Some 100000000000) 0" 100000000000 sample_env "world_new ''192.168.0.2''"
      "upnp_client_new ''u''" "''prod''" "pmo_spec (sample_pm None)"]
  by (simp add: sample_pm_def active_status_def sample_env_def world_new_def)

section \<open>Programming the router\<close>

lemma wp_reconcile_apply_due:
  assumes "due env pm w"
  shows "wp (reconcile_apply env upnp ns pm) Q w =
    (let w1 = look_at_clock pm w; w2 = log_call (Http (add_request upnp pm)) w1
     in case soap_result (http_answer env (w_calls w1) (add_request upnp pm)) of
          Ok _ \<Rightarrow> wp (record_success env upnp ns (pm_name pm) DEFAULT_LEASE_SECS) Q w2
        | Err e \<Rightarrow> wp (record_failure env ns (pm_name pm) e) Q w2
        | Panicked \<Rightarrow> Q Panicked w2)"
  using assms by (simp add: reconcile_apply_def Let_def wp_simps add_request_def split: outcome.splits)

text \<open>
  The run of a successful renewal, spelled out: the calls made so far at each step, the status
  written, and the world at the end.
\<close>

record renewal =
  rn_now :: datetime
  rn_status :: port_mapping_status
  rn_patched_at :: "call list"
  rn_asked_at :: "call list"
  rn_world :: world

definition renewal_run :: "env \<Rightarrow> upnp_client \<Rightarrow> string \<Rightarrow> port_mapping \<Rightarrow> string option \<Rightarrow> world \<Rightarrow> renewal" where
  "renewal_run env upnp ns pm ip w =
     (let w2 = log_call (Http (add_request upnp pm)) (look_at_clock pm w);
          now = utc_now env (w_calls w2);
          st = \<lparr>pms_active = True, pms_external_ip = ip, pms_lease_expiry = Some (add_secs env now 3600),
                pms_last_renewal = Some now,
                pms_conditions = [\<lparr>cond_type = ''Active'', cond_status = ''True'', cond_reason = ''MappingEstablished'',
                  cond_message = None, cond_last_transition_time = Some now\<rparr>]\<rparr>;
          w4 = log_call (Http (ip_request upnp)) (log_call UtcNow w2);
          w5 = log_call (Kube (PatchPortMappingStatus ns (pm_name pm) st)) w4
      in \<lparr>rn_now = now, rn_status = st, rn_patched_at = w_calls w4, rn_asked_at = w_calls w5,
          rn_world = log_call UtcNow (w5\<lparr>w_metrics := add_active 1 (inc_renewals (pm_name pm) (w_metrics w5))\<rparr>)\<rparr>)"

text \<open>
  The router accepts the mapping, and then answers with its external address \<open>ip\<close>, or with an error
  (the address is then left out).
\<close>

definition granted :: "env \<Rightarrow> upnp_client \<Rightarrow> port_mapping \<Rightarrow> string option \<Rightarrow> world \<Rightarrow> bool" where
  "granted env upnp pm ip w \<longleftrightarrow>
     due env pm w \<and>
     (\<exists>reply. soap_result (http_answer env (w_calls (look_at_clock pm w)) (add_request upnp pm)) = Ok reply) \<and>
     (case and_then (soap_result (http_answer env
          (w_calls (look_at_clock pm w) @ [Http (add_request upnp pm), UtcNow]) (ip_request upnp))) parse_external_ip of
        Ok a \<Rightarrow> ip = Some a | Err e \<Rightarrow> ip = None | Panicked \<Rightarrow> False)"

lemma wp_granted:
  assumes "granted env upnp pm ip w"
  shows "wp (reconcile_apply env upnp ns pm) Q w =
    (let w2 = log_call (Http (add_request upnp pm)) (look_at_clock pm w);
         now = utc_now env (w_calls w2);
         expiry = add_secs env now 3600
     in wp (try_bind (patch_status env ns (pm_name pm) (active_status ip (Some expiry) now)) (\<lambda>_. do {
          upd_metrics (inc_renewals (pm_name pm));
          upd_metrics (add_active 1);
          requeue \<leftarrow> requeue_after env (Some expiry);
          ret (Ok (Requeue requeue))
        })) Q (log_call (Http (ip_request upnp)) (log_call UtcNow w2)))"
proof -
  have lease: "DEFAULT_LEASE_SECS > 0" "uint DEFAULT_LEASE_SECS = 3600"
    by (simp_all add: DEFAULT_LEASE_SECS_def word_less_def)
  show ?thesis
    using assms unfolding granted_def
    by (auto simp: wp_reconcile_apply_due record_success_def Let_def lease wp_simps split: outcome.splits)
qed

text \<open>The outcome of such a run.\<close>

lemma reconcile_apply_granted:
  assumes rn_def: "rn = renewal_run env upnp ns pm ip w" and granted: "granted env upnp pm ip w"
    and patched: "kube_answer env (rn_patched_at rn) (PatchPortMappingStatus ns (pm_name pm) (rn_status rn)) = Inr ()"
  shows "run_state (reconcile_apply env upnp ns pm) w =
    (Ok (Requeue (max (num_seconds env (add_secs env (rn_now rn) 3600)
        (utc_now env (rn_asked_at rn)) - 30) 10)),
     rn_world rn)"
proof -
  have "wp (reconcile_apply env upnp ns pm) (\<lambda>r w'. (r, w') =
    (Ok (Requeue (max (num_seconds env (add_secs env (rn_now rn) 3600)
        (utc_now env (rn_asked_at rn)) - 30) 10)),
     rn_world rn)) w"
    unfolding wp_granted [OF granted]
    using patched by (simp add: Let_def wp_simps rn_def renewal_run_def requeue_after_def RENEWAL_BUFFER_SECS_def active_status_def)
  then show ?thesis by (simp only: wp_eq_run)
qed

text \<open>
  C27. When the router accepts the mapping and the API server the status, the status says active
  until an hour from the grant (with the external address if the router told it), one renewal is
  counted, the gauge of active mappings goes up by one (also when the mapping was active before),
  and the next visit is thirty seconds before the expiry, ten seconds from now at the earliest.
\<close>

theorem reconcile_apply_success:
  assumes rn_def: "rn = renewal_run env upnp ns pm ip w" and granted: "granted env upnp pm ip w"
    and patched: "kube_answer env (rn_patched_at rn) (PatchPortMappingStatus ns (pm_name pm) (rn_status rn)) = Inr ()"
  shows "run_state (reconcile_apply env upnp ns pm) w =
    (Ok (Requeue (max (num_seconds env (add_secs env (rn_now rn) 3600)
        (utc_now env (rn_asked_at rn)) - 30) 10)),
     rn_world rn)"
  using assms by (rule reconcile_apply_granted)

lemma sample_soap [simp]: "soap_result (http_answer sample_env h rq) = Ok ''''"
  by (simp add: soap_result_def sample_env_def)

lemma chrono_sample_env: "chrono_ok sample_env"
  by (simp add: chrono_ok_def sample_env_def)

lemma sample_env_kube: "kube_answer sample_env h c = Inr ()"
  by (simp add: sample_env_def)

lemma sample_pm_due [simp]:
  "lease_of (sample_pm None) = None" "due env (sample_pm None) w" "look_at_clock (sample_pm None) w = w"
  by (simp_all add: lease_of_def due_def look_at_clock_def sample_pm_def)

lemma no_ip_in_empty: "parse_external_ip '''' = Err ''ExternalIPAddress not found in response''"
  by (simp add: parse_external_ip_def extract_xml_value_def open_tag_def str_eval)

theorem reconcile_apply_success_witness:
  "fst (run_state (reconcile_apply sample_env (upnp_client_new ''u'') ''prod'' (sample_pm None))
     (world_new ''192.168.0.2'')) = Ok (Requeue 3567)"
proof -
  define rn where "rn = renewal_run sample_env (upnp_client_new ''u'') ''prod'' (sample_pm None) None (world_new ''192.168.0.2'')"
  have "run_state (reconcile_apply sample_env (upnp_client_new ''u'') ''prod'' (sample_pm None)) (world_new ''192.168.0.2'')
    = (Ok (Requeue (max (num_seconds sample_env (add_secs sample_env (rn_now rn) 3600)
         (utc_now sample_env (rn_asked_at rn)) - 30) 10)), rn_world rn)"
    by (rule reconcile_apply_success [OF rn_def]) (simp_all add: granted_def no_ip_in_empty sample_env_kube)
  then show ?thesis
    by (simp add: rn_def renewal_run_def sample_env_def world_new_def Let_def)
qed

text \<open>
  When the router refuses, the failure is counted under \<open>add_failed\<close> and nothing else is, the
  status turns inactive without a lease and carries the router's error, and the next try is a
  minute away; if the status cannot be written, the error goes to the runtime.
\<close>

lemma reconcile_apply_failure:
  assumes "due env pm w"
    and "soap_result (http_answer env (w_calls (look_at_clock pm w)) (add_request upnp pm)) = Err e"
  shows "run_state (reconcile_apply env upnp ns pm) w =
    (let w1 = log_call (Http (add_request upnp pm)) (look_at_clock pm w);
         w2 = log_call UtcNow (w1\<lparr>w_metrics := inc_failures (pm_name pm) ''add_failed'' (w_metrics w)\<rparr>);
         now = utc_now env (w_calls w1);
         c = PatchPortMappingStatus ns (pm_name pm)
               \<lparr>pms_active = False, pms_external_ip = None, pms_lease_expiry = None, pms_last_renewal = None,
                pms_conditions = [\<lparr>cond_type = ''Active'', cond_status = ''False'', cond_reason = ''AddFailed'',
                  cond_message = Some e, cond_last_transition_time = Some now\<rparr>]\<rparr>
     in (case kube_answer env (w_calls w2) c of Inl k \<Rightarrow> Err (KubeError k) | Inr _ \<Rightarrow> Ok (Requeue 60),
         log_call (Kube c) w2))"
proof -
  have [simp]: "w_metrics (look_at_clock pm w) = w_metrics w" by (simp add: look_at_clock_def)
  show ?thesis
    unfolding wp_eq_run [symmetric]
    using assms by (simp add: wp_reconcile_apply_due record_failure_def Let_def wp_simps failed_status_def
        port_mapping_status_default_def split: sum.splits)
qed

definition refusing_env :: env where
  "refusing_env = sample_env\<lparr>http_answer := (\<lambda>h rq. Inl ''connection refused'')\<rparr>"

lemma reconcile_apply_failure_witness:
  "fst (run_state (reconcile_apply refusing_env (upnp_client_new ''u'') ''prod'' (sample_pm None))
     (world_new ''192.168.0.2'')) = Ok (Requeue 60)"
  using reconcile_apply_failure [of refusing_env "sample_pm None" "world_new ''192.168.0.2''" "upnp_client_new ''u''"
      "''SOAP request failed''" "''prod''"]
  by (simp add: refusing_env_def soap_result_def Let_def) (simp add: sample_env_def)

text \<open>
  A mapping the router accepted but whose status the API server rejects is not counted: the
  reconciler returns the error and leaves every metric as it was, so the retry adds it once more.
\<close>

lemma reconcile_apply_unpatched:
  assumes "rn = renewal_run env upnp ns pm ip w" and granted: "granted env upnp pm ip w"
    and "kube_answer env (rn_patched_at rn) (PatchPortMappingStatus ns (pm_name pm) (rn_status rn)) = Inl k"
    and run: "run_state (reconcile_apply env upnp ns pm) w = (r, w')"
  shows "r = Err (KubeError k) \<and> w_metrics w' = w_metrics w \<and> w_calls w' = rn_asked_at rn"
proof -
  have [simp]: "w_metrics (look_at_clock pm w) = w_metrics w" by (simp add: look_at_clock_def)
  have "wp (reconcile_apply env upnp ns pm)
    (\<lambda>r w'. r = Err (KubeError k) \<and> w_metrics w' = w_metrics w \<and> w_calls w' = rn_asked_at rn) w"
    unfolding wp_granted [OF granted] using assms(1,3) by (simp add: Let_def wp_simps renewal_run_def active_status_def)
  from wpD [OF this run] show ?thesis .
qed

definition read_only_env :: env where
  "read_only_env = sample_env\<lparr>kube_answer := (\<lambda>h c. Inl ''forbidden'')\<rparr>"

lemma read_only_soap [simp]: "soap_result (http_answer read_only_env h rq) = Ok ''''"
  by (simp add: soap_result_def read_only_env_def sample_env_def)

lemma reconcile_apply_unpatched_witness:
  "fst (run_state (reconcile_apply read_only_env (upnp_client_new ''u'') ''prod'' (sample_pm None))
     (world_new ''192.168.0.2'')) = Err (KubeError ''forbidden'')"
proof -
  let ?w = "world_new ''192.168.0.2''"
  let ?run = "run_state (reconcile_apply read_only_env (upnp_client_new ''u'') ''prod'' (sample_pm None)) ?w"
  have "fst ?run = Err (KubeError ''forbidden'') \<and> w_metrics (snd ?run) = w_metrics ?w \<and>
    w_calls (snd ?run) = rn_asked_at (renewal_run read_only_env (upnp_client_new ''u'') ''prod'' (sample_pm None) None ?w)"
    by (rule reconcile_apply_unpatched [OF refl _ _ prod.collapse [symmetric]])
      (simp_all add: granted_def no_ip_in_empty, simp add: read_only_env_def)
  then show ?thesis by simp
qed

section \<open>The lease is renewed in time\<close>

lemma pm_metrics:
  "mt_wan_ip_changes (inc_renewals name m) = mt_wan_ip_changes m"
  "mt_wan_ip_changes (inc_failures name reason m) = mt_wan_ip_changes m"
  "mt_wan_ip_changes (add_active d m) = mt_wan_ip_changes m"
  by (simp_all add: inc_renewals_def inc_failures_def add_active_def)

context world_frame
begin

lemma keeps_pm:
  "state_io_rel R (patch_status env ns name st)" "state_io_rel R (renewal_wait env pm)"
  "state_io_rel R (requeue_after env e)"
  unfolding patch_status_def renewal_wait_def requeue_after_def Let_def by (intro keeps)+

lemma keeps_reconcile_apply: "state_io_rel R (reconcile_apply env upnp ns pm)"
  unfolding reconcile_apply_def record_success_def record_failure_def Let_def
  by (intro keeps keeps_upnp keeps_pm pm_metrics)

lemma keeps_reconcile_cleanup: "state_io_rel R (reconcile_cleanup env upnp pm)"
  unfolding reconcile_cleanup_def Let_def by (intro keeps keeps_upnp pm_metrics)

lemma keeps_record:
  "state_io_rel R (record_success env upnp ns name lease)" "state_io_rel R (record_failure env ns name e)"
  unfolding record_success_def record_failure_def Let_def by (intro keeps keeps_upnp keeps_pm pm_metrics)+

end

lemma reconcile_apply_asks_router:
  assumes "due env pm w"
  shows "\<exists>cs. w_calls (snd (run_state (reconcile_apply env upnp ns pm) w)) =
    w_calls (look_at_clock pm w) @ Http (add_request upnp pm) # cs"
proof -
  let ?w = "log_call (Http (add_request upnp pm)) (look_at_clock pm w)"
  have grows: "wp m (\<lambda>_ v. calls_grow ?w v) ?w" if "state_io_rel calls_grow m" for m :: "(world, 'a) state"
    using that by (simp add: wp_run state_io_rel_def)
  have "wp (reconcile_apply env upnp ns pm) (\<lambda>_ v. calls_grow ?w v) w"
    using grows [OF calls_grow.keeps_record(1)] grows [OF calls_grow.keeps_record(2)]
    by (simp add: wp_reconcile_apply_due [OF assms] Let_def calls_grow.R_refl split: outcome.splits)
  then show ?thesis by (auto simp: wp_run calls_grow_def)
qed

text \<open>
  The visit asked for after a success: thirty seconds before the lease ends, up to the rounding to
  seconds, provided the router and the API server took less than 3560 seconds to answer.
\<close>

lemma renewal_schedule:
  assumes "chrono_ok env" and rn: "rn = renewal_run env upnp ns pm ip w" and "granted env upnp pm ip w"
    and patched: "kube_answer env (rn_patched_at rn) (PatchPortMappingStatus ns (pm_name pm) (rn_status rn)) = Inr ()"
    and run: "run_state (reconcile_apply env upnp ns pm) w = (Ok (Requeue d), w')"
    and asked: "asked = utc_now env (rn_asked_at rn)" "rn_now rn \<le> asked" "asked < rn_now rn + 3560 * nanos"
  shows "rn_status rn = active_status ip (Some (rn_now rn + 3600 * nanos)) (rn_now rn)"
    and "asked + d * nanos + 30 * nanos \<le> rn_now rn + 3600 * nanos"
    and "rn_now rn + 3600 * nanos < asked + d * nanos + 31 * nanos"
    and "w' = rn_world rn"
proof -
  let ?e = "rn_now rn + 3600 * nanos"
  have add: "add_secs env (rn_now rn) 3600 = ?e" using assms(1) by (simp add: chrono_ok_def)
  show "rn_status rn = active_status ip (Some ?e) (rn_now rn)"
    using add unfolding rn by (simp add: renewal_run_def Let_def active_status_def)
  from reconcile_apply_granted [OF rn assms(3) patched] run
  have d: "d = max (num_seconds env ?e asked - 30) 10" and world: "w' = rn_world rn"
    by (simp_all add: asked(1) add)
  note k = num_seconds_bounds(1) [OF assms(1), of asked ?e]
  have "40 \<le> num_seconds env ?e asked" using k asked(2,3) by simp
  then show "asked + d * nanos + 30 * nanos \<le> ?e" "?e < asked + d * nanos + 31 * nanos"
    using k asked(2,3) by (simp_all add: d)
  show "w' = rn_world rn" by (rule world)
qed

text \<open>A lease with less than thirty-one seconds left is due.\<close>

lemma due_near_end:
  assumes "chrono_ok env" and "lease_of pm = Some e" and "e < utc_now env (w_calls w) + 31 * nanos"
  shows "due env pm w"
proof -
  let ?t = "utc_now env (w_calls w)"
  have "num_seconds env e ?t \<le> 30"
    using assms(3) num_seconds_bounds [OF assms(1), where u = ?t and t = e] by (cases "?t \<le> e") force+
  then show ?thesis by (simp add: due_def assms(2) RENEWAL_BUFFER_SECS_def)
qed

text \<open>
  C9. After a successful renewal the runtime is asked to come back at least thirty seconds before
  the lease ends, provided the router and the API server took less than 3560 seconds to answer; and
  a visit at that time or later, on the object with the status written, asks the router again. So a
  lease is renewed before it ends whenever the runtime is less than thirty seconds late.
\<close>

theorem lease_renewed_in_time:
  assumes "chrono_ok env" and rn: "rn = renewal_run env upnp ns pm ip w" and "granted env upnp pm ip w"
    and patched: "kube_answer env (rn_patched_at rn) (PatchPortMappingStatus ns (pm_name pm) (rn_status rn)) = Inr ()"
    and run: "run_state (reconcile_apply env upnp ns pm) w = (Ok (Requeue d), w')"
    and asked: "asked = utc_now env (rn_asked_at rn)" "rn_now rn \<le> asked" "asked < rn_now rn + 3560 * nanos"
    and later: "pmo_status pm' = Some (rn_status rn)" "asked + d * nanos \<le> utc_now env (w_calls v)"
  shows "asked + d * nanos + 30 * nanos \<le> the (pms_lease_expiry (rn_status rn)) \<and>
    (\<exists>cs. w_calls (snd (run_state (reconcile_apply env upnp ns pm') v)) =
      w_calls v @ UtcNow # Http (add_request upnp pm') # cs)"
proof -
  note s = renewal_schedule [OF assms(1-5) asked]
  have lease: "lease_of pm' = Some (rn_now rn + 3600 * nanos)"
    by (simp add: lease_of_def later(1) s(1) active_status_def)
  then have "due env pm' v" "look_at_clock pm' v = log_call UtcNow v"
    using s(3) later(2) by (auto intro: due_near_end [OF assms(1)] simp: look_at_clock_def)
  with reconcile_apply_asks_router [of env pm' v upnp ns] s(1,2) show ?thesis
    by (simp add: active_status_def)
qed

theorem lease_renewed_in_time_witness:
  "\<exists>cs. w_calls (snd (run_state (reconcile_apply sample_env (upnp_client_new ''u'') ''prod''
       (sample_pm (Some (active_status None (Some (3601 * nanos)) nanos))))
      (world_new ''192.168.0.2''\<lparr>w_calls := replicate 3600 UtcNow\<rparr>))) =
    replicate 3600 UtcNow @ UtcNow #
      Http (add_request (upnp_client_new ''u'') (sample_pm (Some (active_status None (Some (3601 * nanos)) nanos)))) # cs"
proof -
  let ?w = "world_new ''192.168.0.2''"
  define rn where "rn = renewal_run sample_env (upnp_client_new ''u'') ''prod'' (sample_pm None) None ?w"
  have granted: "granted sample_env (upnp_client_new ''u'') (sample_pm None) None ?w"
    by (simp add: granted_def no_ip_in_empty)
  have rn: "rn_now rn = nanos" "utc_now sample_env (rn_asked_at rn) = 4 * nanos"
    "rn_status rn = active_status None (Some (3601 * nanos)) nanos"
    by (simp_all add: rn_def renewal_run_def Let_def sample_env_def world_new_def active_status_def)
  have run: "run_state (reconcile_apply sample_env (upnp_client_new ''u'') ''prod'' (sample_pm None)) ?w
    = (Ok (Requeue 3567), rn_world rn)"
    using reconcile_apply_success [OF rn_def granted] rn(1,2) by (simp add: sample_env_kube) (simp add: sample_env_def)
  let ?pm' = "sample_pm (Some (active_status None (Some (3601 * nanos)) nanos))"
  have "4 * nanos + 3567 * nanos + 30 * nanos \<le> the (pms_lease_expiry (rn_status rn)) \<and>
    (\<exists>cs. w_calls (snd (run_state (reconcile_apply sample_env (upnp_client_new ''u'') ''prod'' ?pm')
       (?w\<lparr>w_calls := replicate 3600 UtcNow\<rparr>))) =
      w_calls (?w\<lparr>w_calls := replicate 3600 UtcNow\<rparr>) @ UtcNow # Http (add_request (upnp_client_new ''u'') ?pm') # cs)"
    by (rule lease_renewed_in_time [OF _ rn_def granted _ run])
      (simp_all add: rn sample_env_kube chrono_sample_env, simp_all add: sample_pm_def sample_env_def)
  then show ?thesis by simp
qed

section \<open>Clean-up\<close>

text \<open>
  The clean-up makes one request, \<open>DeletePortMapping\<close> for the port and protocol of the spec, and
  lets the object go whatever the router answers; the gauge goes down only if the router agreed.
\<close>

lemma reconcile_cleanup_always_completes:
  "run_state (reconcile_cleanup env upnp pm) w =
    (Ok AwaitChange,
     (log_call (Http (delete_request upnp pm)) w)\<lparr>w_metrics :=
        (case soap_result (http_answer env (w_calls w) (delete_request upnp pm)) of
           Ok _ \<Rightarrow> add_active (- 1) (w_metrics w) | _ \<Rightarrow> w_metrics w)\<rparr>)"
  unfolding wp_eq_run [symmetric]
  by (simp add: reconcile_cleanup_def delete_request_def Let_def wp_simps log_call_def split: outcome.splits)

text \<open>
  The gauge of active mappings moves with the counter of renewals, one for one, whatever the
  outcome of a visit: it counts renewals made, not mappings that are active.
\<close>

lemma gauge_counts_renewals:
  "mt_active_port_mappings (w_metrics (snd (run_state (reconcile_apply env upnp ns pm) w))) -
      mt_active_port_mappings (w_metrics w) =
    int (mt_port_mapping_renewals (w_metrics (snd (run_state (reconcile_apply env upnp ns pm) w))) (pm_name pm)) -
      int (mt_port_mapping_renewals (w_metrics w) (pm_name pm))"
proof -
  let ?I = "\<lambda>v. mt_active_port_mappings (w_metrics v) - int (mt_port_mapping_renewals (w_metrics v) (pm_name pm)) =
    mt_active_port_mappings (w_metrics w) - int (mt_port_mapping_renewals (w_metrics w) (pm_name pm))"
  have req: "wp (requeue_after env e) Q v = (if e = None then Q 3600 v
      else Q (max (num_seconds env (the e) (utc_now env (w_calls v)) - RENEWAL_BUFFER_SECS) 10) (log_call UtcNow v))"
    for e Q v by (cases e) (simp_all add: requeue_after_def wp_simps Let_def)
  have ok: "wp (record_success env upnp ns (pm_name pm) lease) (\<lambda>_. ?I) v" if "w_metrics v = w_metrics w" for lease v
    using that by (simp add: record_success_def Let_def wp_simps req inc_renewals_def add_active_def split: outcome.splits)
  have bad: "wp (record_failure env ns (pm_name pm) e) (\<lambda>_. ?I) v" if "w_metrics v = w_metrics w" for e v
    using that by (simp add: record_failure_def Let_def wp_simps inc_failures_def split: outcome.splits)
  have "wp (reconcile_apply env upnp ns pm) (\<lambda>_. ?I) w"
    using ok bad by (simp add: reconcile_apply_def Let_def wp_simps look_at_clock_def split: outcome.splits)
  then show ?thesis by (simp add: wp_run)
qed

end
