(* ===== verification/Watchers.thy ===== *)
theory Watchers
  imports Annotations Controller Proxy_Interface
begin

text \<open>
  The annotation watchers of \<open>src/controllers/port_mapping_ctrl.rs\<close>: \<open>reconcile_service\<close> and
  \<open>reconcile_pod\<close> turn the port-forward annotation of a Service or a Pod into proxies and
  PortMappings owned by it. The two share, as in the source, the listing and the deletion of owned
  PortMappings; their first part is \<open>reconcile_annotated\<close> here, and their last part, which the
  source has twice with the kind of the owner and the address of the backend exchanged, is
  \<open>forward_ports\<close>.
\<close>

definition PORT_FORWARD_ANNOTATION :: string where
  "PORT_FORWARD_ANNOTATION = ''upnp-controller.io/port-forward''"

definition MANAGED_BY_LABEL :: string where
  "MANAGED_BY_LABEL = ''upnp-controller.io/managed-by''"

definition MANAGED_BY_VALUE :: string where
  "MANAGED_BY_VALUE = ''service-controller''"

section \<open>Owned PortMappings\<close>

abbreviation pm_object_name :: "port_mapping \<Rightarrow> string" where
  "pm_object_name pm \<equiv> meta_name (pmo_metadata pm)"

definition owned_by :: "string \<Rightarrow> port_mapping \<Rightarrow> bool" where
  "owned_by owner_uid pm =
     (case meta_owner_references (pmo_metadata pm) of
        None \<Rightarrow> False
      | Some refs \<Rightarrow> list_ex (\<lambda>r. or_uid r = owner_uid) refs)"

definition list_owned_port_mappings ::
  "env \<Rightarrow> string \<Rightarrow> string \<Rightarrow> (world, (reconcile_error, port_mapping list) outcome) state"
where
  "list_owned_port_mappings env ns owner_uid = do {
     r \<leftarrow> kube_list_pm env (ListPortMappings ns (MANAGED_BY_LABEL @ ''='' @ MANAGED_BY_VALUE));
     ret (and_then (map_err KubeError r) (\<lambda>items. Ok (filter (owned_by owner_uid) items)))
   }"

text \<open>A deletion that fails is logged and passed over.\<close>

definition delete_owned :: "env \<Rightarrow> string \<Rightarrow> port_mapping \<Rightarrow> (world, unit) state" where
  "delete_owned env ns pm = do {
     _ \<leftarrow> kube_unit env (DeletePortMapping ns (pm_object_name pm));
     ret ()
   }"

definition cleanup_owned_port_mappings :: "env \<Rightarrow> string \<Rightarrow> port_mapping list \<Rightarrow> (world, unit) state" where
  "cleanup_owned_port_mappings env ns owned = for_each (delete_owned env ns) owned"

definition stop_owned :: "port_mapping \<Rightarrow> (world, unit) state" where
  "stop_owned pm = on_proxies (stop_proxy (pm_object_name pm))"

section \<open>From desired mappings to proxies and PortMappings\<close>

text \<open>The owner and the backend: what differs between a Service and a Pod.\<close>

record forward_owner =
  fo_kind :: string
  fo_ns :: string
  fo_name :: string
  fo_uid :: string
  fo_backend :: string

definition desired_name :: "forward_owner \<Rightarrow> desired \<Rightarrow> string" where
  "desired_name ow = (\<lambda>(external_port, internal_port, protocol).
     pm_name_for_owner (fo_ns ow) (fo_name ow) external_port protocol)"

definition desired_target :: "forward_owner \<Rightarrow> desired \<Rightarrow> string" where
  "desired_target ow = (\<lambda>(external_port, internal_port, protocol).
     fo_backend ow @ '':'' @ show_u16 internal_port)"

definition desired_protocol :: "desired \<Rightarrow> protocol" where
  "desired_protocol = (\<lambda>(external_port, internal_port, protocol). protocol)"

definition desired_manifest :: "forward_owner \<Rightarrow> string \<Rightarrow> desired \<Rightarrow> u16 \<Rightarrow> pm_manifest" where
  "desired_manifest ow lan_ip d proxy_port =
     \<lparr>mf_api_version = ''upnp-controller.io/v1alpha1'', mf_kind = ''PortMapping'',
      mf_name = desired_name ow d, mf_namespace = fo_ns ow,
      mf_labels = [(MANAGED_BY_LABEL, MANAGED_BY_VALUE)],
      mf_owner_references =
        [\<lparr>or_api_version = ''v1'', or_kind = fo_kind ow, or_name = fo_name ow, or_uid = fo_uid ow,
          or_controller = True, or_block_owner_deletion = True\<rparr>],
      mf_spec =
        \<lparr>spec_external_port = fst d, spec_internal_host = lan_ip, spec_internal_port = proxy_port,
         spec_protocol = desired_protocol d,
         spec_description = Some (''auto:'' @ fo_ns ow @ ''/'' @ fo_name ow @ '' proxy->'' @ desired_target ow d)\<rparr>\<rparr>"

definition start_desired :: "env \<Rightarrow> forward_owner \<Rightarrow> desired \<Rightarrow> (world, (string, u16) outcome) state" where
  "start_desired env ow d =
     on_proxies (ensure_proxy (os_binds env) (desired_name ow d) (desired_target ow d) (desired_protocol d))"

definition publish_desired ::
  "env \<Rightarrow> forward_owner \<Rightarrow> string \<Rightarrow> desired \<Rightarrow> u16 \<Rightarrow> (world, (reconcile_error, unit) outcome) state"
where
  "publish_desired env ow lan_ip d proxy_port = do {
     r \<leftarrow> kube_unit env (ApplyPortMapping (fo_ns ow) (desired_name ow d) ''upnp-service-controller''
            (desired_manifest ow lan_ip d proxy_port));
     ret (map_err KubeError r)
   }"

definition delete_stale :: "env \<Rightarrow> string \<Rightarrow> string list \<Rightarrow> port_mapping \<Rightarrow> (world, unit) state" where
  "delete_stale env ns desired_names pm =
     (if pm_object_name pm \<in> set desired_names then ret ()
      else do { stop_owned pm; delete_owned env ns pm })"

definition forward_ports ::
  "env \<Rightarrow> forward_owner \<Rightarrow> port_mapping list \<Rightarrow> desired list \<Rightarrow> (world, (reconcile_error, action) outcome) state"
where
  "forward_ports env ow owned desired = do {
     lan_ip \<leftarrow> gets (\<lambda>w. px_lan_ip (w_proxies w));
     let desired_names = map (desired_name ow) desired;
     try_bind (desired_loop (start_desired env ow) (publish_desired env ow lan_ip) desired) (\<lambda>_. do {
       for_each (delete_stale env (fo_ns ow) desired_names) owned;
       ret (Ok (Requeue 60))
     })
   }"

section \<open>The reconcilers\<close>

definition uid_or_empty :: "object_meta \<Rightarrow> string" where
  "uid_or_empty m = (case meta_uid m of Some uid \<Rightarrow> uid | None \<Rightarrow> '''')"

text \<open>
  The first part of both: nothing once the process shuts down; else list what the object owns, and
  without the annotation stop and delete all of it.
\<close>

definition reconcile_annotated ::
  "env \<Rightarrow> object_meta \<Rightarrow> (string \<Rightarrow> port_mapping list \<Rightarrow> (world, (reconcile_error, action) outcome) state) \<Rightarrow>
   (world, (reconcile_error, action) outcome) state"
where
  "reconcile_annotated env meta body = do {
     shutting_down \<leftarrow> gets w_shutting_down;
     (if shutting_down then ret (Ok AwaitChange)
      else
        let ns = namespace_or_default meta; uid = uid_or_empty meta
        in try_bind (list_owned_port_mappings env ns uid) (\<lambda>owned.
          case annotation meta PORT_FORWARD_ANNOTATION of
            None \<Rightarrow> do {
              for_each stop_owned owned;
              cleanup_owned_port_mappings env ns owned;
              ret (Ok AwaitChange)
            }
          | Some annotation_value \<Rightarrow> body annotation_value owned))
   }"

definition cluster_ip_of :: "service \<Rightarrow> string" where
  "cluster_ip_of svc =
     (case Option.bind (svc_spec svc) ss_cluster_ip of Some ip \<Rightarrow> ip | None \<Rightarrow> '''')"

definition service_ports_of :: "service \<Rightarrow> service_port list" where
  "service_ports_of svc =
     (case Option.bind (svc_spec svc) ss_ports of Some ports \<Rightarrow> ports | None \<Rightarrow> [])"

definition service_owner :: "service \<Rightarrow> forward_owner" where
  "service_owner svc =
     \<lparr>fo_kind = ''Service'', fo_ns = namespace_or_default (svc_metadata svc),
      fo_name = meta_name (svc_metadata svc), fo_uid = uid_or_empty (svc_metadata svc),
      fo_backend = cluster_ip_of svc\<rparr>"

definition reconcile_service :: "env \<Rightarrow> service \<Rightarrow> (world, (reconcile_error, action) outcome) state" where
  "reconcile_service env svc =
     reconcile_annotated env (svc_metadata svc) (\<lambda>annotation_value owned.
       let cluster_ip = cluster_ip_of svc
       in if cluster_ip = '''' \<or> cluster_ip = ''None'' then ret (Ok AwaitChange)
          else
            let desired = parse_service_annotation annotation_value (service_ports_of svc)
            in if desired = [] then ret (Ok AwaitChange)
               else forward_ports env (service_owner svc) owned desired)"

definition container_ports_of :: "pod \<Rightarrow> container_port list" where
  "container_ports_of p =
     (case pod_containers p of
        Some containers \<Rightarrow>
          concat (map (\<lambda>c. case ctr_ports c of Some ports \<Rightarrow> ports | None \<Rightarrow> []) containers)
      | None \<Rightarrow> [])"

definition pod_owner :: "pod \<Rightarrow> string \<Rightarrow> forward_owner" where
  "pod_owner p pod_ip =
     \<lparr>fo_kind = ''Pod'', fo_ns = namespace_or_default (pod_metadata p),
      fo_name = meta_name (pod_metadata p), fo_uid = uid_or_empty (pod_metadata p),
      fo_backend = pod_ip\<rparr>"

definition reconcile_pod :: "env \<Rightarrow> pod \<Rightarrow> (world, (reconcile_error, action) outcome) state" where
  "reconcile_pod env p =
     reconcile_annotated env (pod_metadata p) (\<lambda>annotation_value owned.
       case Option.bind (pod_status_ip p) id of
         None \<Rightarrow> ret (Ok (Requeue 5))
       | Some pod_ip \<Rightarrow>
           let desired = parse_pod_annotation annotation_value (container_ports_of p)
           in if desired = [] then ret (Ok AwaitChange)
              else forward_ports env (pod_owner p pod_ip) owned desired)"

definition service_error_policy :: "service \<Rightarrow> reconcile_error \<Rightarrow> action" where
  "service_error_policy svc e = Requeue 30"

definition pod_error_policy :: "pod \<Rightarrow> reconcile_error \<Rightarrow> action" where
  "pod_error_policy p e = Requeue 30"

end
