(* ===== verification/Watchers_Facts.thy ===== *)
theory Watchers_Facts
  imports Watchers Proxy_Facts
begin

text \<open>
  Correctness of the annotation watchers: the interpretations of \<open>proxy_service\<close> and
  \<open>publishing_client\<close> on the process, and what they give: every PortMapping written points at a
  proxy of the table, stale ones are deleted with their proxies, and a visit with nothing to change
  changes nothing.
\<close>

section \<open>The proxies and the published PortMappings of the process\<close>

definition start_proxy_w ::
  "env \<Rightarrow> string \<Rightarrow> string \<Rightarrow> protocol \<Rightarrow> (world, (string, u16) outcome) state" where
  "start_proxy_w env k t p = on_proxies (ensure_proxy (os_binds env) k t p)"

definition stop_proxy_w :: "string \<Rightarrow> (world, unit) state" where
  "stop_proxy_w k = on_proxies (stop_proxy k)"

definition serves_w :: "world \<Rightarrow> string \<Rightarrow> (string \<times> protocol \<times> u16) option" where
  "serves_w w = serves (w_proxies w)"

definition proxies_ok :: "world \<Rightarrow> bool" where
  "proxies_ok w \<longleftrightarrow> proxy_inv (w_proxies w)"


lemma served_task:
  assumes "serves_w w key = Some (target, proto, port)" and "proxies_ok w"
  shows "\<exists>task \<in> set (unstopped (w_proxies w)). pt_port task = port \<and> pt_protocol task = proto \<and> pt_target task = target"
proof -
  from assms(1) obtain h where h: "px_proxies (w_proxies w) key = Some h" "ph_local_port h = port"
    "ph_target h = target" "ph_protocol h = proto"
    by (auto simp: serves_w_def serves_def)
  with assms(2) have "task_of key h \<in> set (unstopped (w_proxies w))"
    by (auto simp: proxies_ok_def unstopped_iff_table)
  with h show ?thesis by (intro bexI [of _ "task_of key h"]) (simp_all add: task_of_def)
qed

lemma run_on_proxies:
  "run_state (on_proxies m) w = (a, w') \<longleftrightarrow>
   (\<exists>p. run_state m (w_proxies w) = (a, p) \<and> w' = w\<lparr>w_proxies := p\<rparr>)"
  by (cases "run_state m (w_proxies w)") (auto simp: on_proxies_def)

interpretation pxw: proxy_service "start_proxy_w env" stop_proxy_w serves_w proxies_ok for env
  unfolding start_proxy_w_def stop_proxy_w_def serves_w_def proxies_ok_def
proof unfold_locales
  fix k t p port w w' e r k'
  let ?m = "on_proxies (ensure_proxy (os_binds env) k t p)"
  show "serves (w_proxies w') k = Some (t, p, port)" if "run_state ?m w = (Ok port, w')"
    using that by (auto simp: run_on_proxies intro: px.ensure_Ok)
  show "serves (w_proxies w') k = None" if "run_state ?m w = (Err e, w')"
    using that by (auto simp: run_on_proxies intro: px.ensure_Err)
  show "run_state ?m w \<noteq> (Panicked, w')"
    by (simp add: run_on_proxies px.ensure_no_panic)
  show "serves (w_proxies w') k' = serves (w_proxies w) k'" if "run_state ?m w = (r, w')" "k' \<noteq> k"
    using that by (auto simp: run_on_proxies dest: px.ensure_frame)
  show "run_state ?m w = (Ok port, w)" if "serves (w_proxies w) k = Some (t, p, port)"
    using px.ensure_again [OF that] by (simp add: run_on_proxies)
  show "proxy_inv (w_proxies w')" if "run_state ?m w = (r, w')" "proxy_inv (w_proxies w)"
    using that by (auto simp: run_on_proxies intro: px.ensure_inv)
next
  fix k w w' and u :: unit
  assume run: "run_state (on_proxies (stop_proxy k)) w = (u, w')"
  then show "serves (w_proxies w') = (serves (w_proxies w))(k := None)"
    by (auto simp: run_on_proxies)
  show "proxy_inv (w_proxies w')" if "proxy_inv (w_proxies w)"
    using run that by (auto simp: run_on_proxies intro: proxy_inv_remove)
qed

lemma run_publish:
  "run_state (publish_desired env ow ip d port) w =
    (map_err KubeError (sum_outcome (kube_answer env (w_calls w)
       (ApplyPortMapping (fo_ns ow) (desired_name ow d) ''upnp-service-controller'' (desired_manifest ow ip d port)))),
     log_call (Kube (ApplyPortMapping (fo_ns ow) (desired_name ow d) ''upnp-service-controller''
       (desired_manifest ow ip d port))) w)"
  unfolding wp_eq_run [symmetric] by (simp add: publish_desired_def wp_simps)

lemma serves_w_log [simp]: "serves_w (log_call c w) = serves_w w"
  by (simp add: serves_w_def)


interpretation pub: publishing_client "start_proxy_w env" stop_proxy_w serves_w proxies_ok
  "publish_desired env ow ip" "desired_name ow" "desired_target ow" desired_protocol
  "\<lambda>d port. (fo_ns ow, desired_name ow d, desired_manifest ow ip d port)" published
  for env ow ip
proof unfold_locales
  fix d port w w' r
  assume run: "run_state (publish_desired env ow ip d port) w = (r, w')"
  then show "serves_w w' = serves_w w" by (auto simp: run_publish)
  show "proxies_ok w'" if "proxies_ok w" using run that by (auto simp: run_publish proxies_ok_def)
  show "published w' = published w @ [(fo_ns ow, desired_name ow d, desired_manifest ow ip d port)]"
    using run by (auto simp: run_publish)
next
  fix k t p w q w'
  assume "run_state (start_proxy_w env k t p) w = (q, w')"
  then show "published w' = published w"
    by (auto simp: start_proxy_w_def run_on_proxies published_def)
qed

lemma start_desired_eq:
  "start_desired env ow d = start_proxy_w env (desired_name ow d) (desired_target ow d) (desired_protocol d)"
  by (simp add: start_desired_def start_proxy_w_def)

lemma stop_owned_eq: "stop_owned pm = stop_proxy_w (pm_object_name pm)"
  by (simp add: stop_owned_def stop_proxy_w_def)

section \<open>Deleting what is owned\<close>

definition delete_call :: "string \<Rightarrow> string \<Rightarrow> call" where
  "delete_call ns name = Kube (DeletePortMapping ns name)"

lemma run_delete_owned [simp]:
  "run_state (delete_owned env ns pm) w = ((), log_call (delete_call ns (pm_object_name pm)) w)"
  unfolding wp_eq_run [symmetric] by (simp add: delete_owned_def delete_call_def wp_simps)

definition log_calls :: "call list \<Rightarrow> world \<Rightarrow> world" where
  "log_calls cs w = w\<lparr>w_calls := w_calls w @ cs\<rparr>"

definition without_proxies :: "string list \<Rightarrow> world \<Rightarrow> world" where
  "without_proxies names w = w\<lparr>w_proxies := fold remove_handle names (w_proxies w)\<rparr>"

lemma run_stop_owned [simp]:
  "run_state (stop_owned pm) w = ((), without_proxies [pm_object_name pm] w)"
  by (simp add: stop_owned_def run_on_proxies without_proxies_def)

lemma run_cleanup:
  "run_state (cleanup_owned_port_mappings env ns owned) w =
     ((), log_calls (map (\<lambda>pm. delete_call ns (pm_object_name pm)) owned) w)"
  unfolding cleanup_owned_port_mappings_def
  by (induction owned arbitrary: w) (simp_all add: log_calls_def log_call_def)

lemma run_stop_all:
  "run_state (for_each stop_owned owned) w = ((), without_proxies (map pm_object_name owned) w)"
  by (induction owned arbitrary: w) (simp_all add: without_proxies_def)

lemma run_delete_stale:
  "run_state (for_each (delete_stale env ns names) owned) w =
    (let stale = map pm_object_name (filter (\<lambda>pm. pm_object_name pm \<notin> set names) owned)
     in ((), log_calls (map (delete_call ns) stale) (without_proxies stale w)))"
  by (induction owned arbitrary: w)
    (simp_all add: delete_stale_def without_proxies_def log_calls_def log_call_def Let_def)

lemma serves_fold_remove: "serves (fold remove_handle ks m) = (\<lambda>k. if k \<in> set ks then None else serves m k)"
  by (induction ks arbitrary: m) (auto simp: fun_eq_iff)

lemma proxy_inv_fold_remove: "proxy_inv m \<Longrightarrow> proxy_inv (fold remove_handle ks m)"
  by (induction ks arbitrary: m) (simp_all add: proxy_inv_remove)

lemma world_effects [simp]:
  "w_calls (log_calls cs w) = w_calls w @ cs" "w_calls (without_proxies ks w) = w_calls w"
  "w_proxies (log_calls cs w) = w_proxies w"
  "w_proxies (without_proxies ks w) = fold remove_handle ks (w_proxies w)"
  "serves_w (log_calls cs w) = serves_w w"
  "serves_w (without_proxies ks w) = (\<lambda>k. if k \<in> set ks then None else serves_w w k)"
  by (auto simp: log_calls_def without_proxies_def serves_w_def serves_fold_remove)

text \<open>The PortMappings deleted so far.\<close>

fun deleted_object :: "call \<Rightarrow> (string \<times> string) list" where
  "deleted_object (Kube (DeletePortMapping ns name)) = [(ns, name)]"
| "deleted_object _ = []"

definition deleted :: "world \<Rightarrow> (string \<times> string) list" where
  "deleted w = concat (map deleted_object (w_calls w))"

lemma logs_of_effects [simp]:
  "deleted (log_call c w) = deleted w @ deleted_object c"
  "deleted (without_proxies ks w) = deleted w" "published (without_proxies ks w) = published w"
  "deleted (log_calls (map (delete_call ns) names) w) = deleted w @ map (Pair ns) names"
  "published (log_calls (map (delete_call ns) names) w) = published w"
  by (simp_all add: deleted_def published_def log_calls_def without_proxies_def delete_call_def o_def)

lemma loop_deletes_nothing:
  assumes "run_state (desired_loop (start_desired env ow) (publish_desired env ow ip) ds) w = (r, w')"
  shows "deleted w' = deleted w"
proof -
  have "state_io_rel (\<lambda>v v'. deleted v' = deleted v)
      (desired_loop (start_desired env ow) (publish_desired env ow ip) ds)"
    by (rule frame.keeps_desired_loop [OF frame_component])
      (auto simp: state_io_rel_def run_publish start_desired_def on_proxies_def deleted_def)
  with assms show ?thesis by (auto simp: state_io_rel_def dest!: spec [of _ w])
qed

section \<open>What \<open>forward_ports\<close> does\<close>

definition desired_names :: "forward_owner \<Rightarrow> desired list \<Rightarrow> string set" where
  "desired_names ow desired = desired_name ow ` set desired"

definition stale_names :: "forward_owner \<Rightarrow> port_mapping list \<Rightarrow> desired list \<Rightarrow> string list" where
  "stale_names ow owned desired =
     map pm_object_name (filter (\<lambda>pm. pm_object_name pm \<notin> desired_names ow desired) owned)"

lemma stale_names_iff:
  "n \<in> set (stale_names ow owned desired) \<longleftrightarrow> n \<in> pm_object_name ` set owned \<and> n \<notin> desired_names ow desired"
  by (auto simp: stale_names_def)

lemma desired_not_stale: "d \<in> set desired \<Longrightarrow> desired_name ow d \<notin> set (stale_names ow owned desired)"
  by (simp add: stale_names_iff desired_names_def)

text \<open>A PortMapping for a desired mapping, and the entry of the table that its internal port belongs to.\<close>

definition live_manifest :: "forward_owner \<Rightarrow> string \<Rightarrow> world \<Rightarrow> desired \<Rightarrow> (string \<times> string \<times> pm_manifest) \<Rightarrow> bool" where
  "live_manifest ow ip w d m \<longleftrightarrow>
     (case (m, d) of ((ns, name, mf), (external_port, internal_port, protocol)) \<Rightarrow>
        ns = fo_ns ow \<and> mf_namespace mf = ns \<and>
        name = pm_name_for_owner ns (fo_name ow) external_port protocol \<and> mf_name mf = name \<and>
        map or_uid (mf_owner_references mf) = [fo_uid ow] \<and>
        spec_external_port (mf_spec mf) = external_port \<and>
        spec_protocol (mf_spec mf) = protocol \<and>
        spec_internal_host (mf_spec mf) = ip \<and>
        serves_w w name =
          Some (fo_backend ow @ '':'' @ show_u16 internal_port, protocol, spec_internal_port (mf_spec mf)))"

text \<open>What the loop writes for a mapping whose proxy is in the table.\<close>

lemma live_manifestI:
  assumes "serves_w w (desired_name ow d) = Some (desired_target ow d, desired_protocol d, port)"
  shows "live_manifest ow ip w d (fo_ns ow, desired_name ow d, desired_manifest ow ip d port)"
  using assms
  by (simp add: live_manifest_def desired_manifest_def desired_name_def desired_target_def desired_protocol_def
      split: prod.splits)

lemma live_manifest_cong:
  "serves_w w (desired_name ow d) = serves_w v (desired_name ow d) \<Longrightarrow> live_manifest ow ip w d m = live_manifest ow ip v d m"
  by (auto simp: live_manifest_def desired_name_def split: prod.splits)

lemma forward_ports_cases:
  assumes "run_state (forward_ports env ow owned desired) w = (r, w')"
  obtains (done_all) v where
      "run_state (desired_loop (start_desired env ow) (publish_desired env ow (px_lan_ip (w_proxies w))) desired) w = (Ok (), v)"
      "r = Ok (Requeue 60)"
      "w' = log_calls (map (delete_call (fo_ns ow)) (stale_names ow owned desired))
              (without_proxies (stale_names ow owned desired) v)"
  | (early) q where
      "run_state (desired_loop (start_desired env ow) (publish_desired env ow (px_lan_ip (w_proxies w))) desired) w = (q, w')"
      "q \<noteq> Ok ()" "\<And>a. r \<noteq> Ok a"
proof -
  let ?loop = "desired_loop (start_desired env ow) (publish_desired env ow (px_lan_ip (w_proxies w))) desired"
  obtain q v where loop: "run_state ?loop w = (q, v)" by (cases "run_state ?loop w")
  show ?thesis
  proof (cases q)
    case (Ok u)
    with loop assms show ?thesis
      by (intro done_all [of v])
        (auto simp: forward_ports_def Let_def run_try_bind run_delete_stale stale_names_def desired_names_def)
  qed (use loop assms in \<open>auto simp: forward_ports_def Let_def run_try_bind intro: early\<close>)
qed

lemma forward_ports_live:
  assumes run: "run_state (forward_ports env ow owned desired) w = (r, w')"
    and distinct: "distinct (map (desired_name ow) desired)"
  shows "\<exists>new. published w' = published w @ new \<and>
    (\<forall>m \<in> set new. \<exists>d \<in> set desired. live_manifest ow (px_lan_ip (w_proxies w)) w' d m) \<and>
    (\<forall>a. r = Ok a \<longrightarrow> (\<forall>d \<in> set desired. serves_w w' (desired_name ow d) = None \<or>
        (\<exists>m \<in> set new. live_manifest ow (px_lan_ip (w_proxies w)) w' d m)))"
proof -
  note published = pub.loop_published [where env = env and ow = ow and ip = "px_lan_ip (w_proxies w)" and ds = desired,
      folded start_desired_eq, OF _ distinct, unfolded pub.backed_def]
  from run show ?thesis
  proof (cases rule: forward_ports_cases)
    case (done_all v)
    have same: "serves_w w' (desired_name ow d) = serves_w v (desired_name ow d)" if "d \<in> set desired" for d
      using that by (simp add: done_all(3) desired_not_stale)
    from published [OF done_all(1)] obtain new where new: "published v = published w @ new"
      "\<forall>m \<in> set new. \<exists>d \<in> set desired. \<exists>port. m = (fo_ns ow, desired_name ow d, desired_manifest ow (px_lan_ip (w_proxies w)) d port)
          \<and> serves_w v (desired_name ow d) = Some (desired_target ow d, desired_protocol d, port)"
      "\<forall>d \<in> set desired. serves_w v (desired_name ow d) = None \<or>
         (\<exists>port. (fo_ns ow, desired_name ow d, desired_manifest ow (px_lan_ip (w_proxies w)) d port) \<in> set new)"
      by blast
    have live: "live_manifest ow ip w' d m \<longleftrightarrow> live_manifest ow ip v d m" if "d \<in> set desired" for ip d m
      by (intro live_manifest_cong same that)
    have "published w' = published w @ new"
      using new(1) by (simp add: done_all(3) flip: map_map)
    moreover have "\<forall>m \<in> set new. \<exists>d \<in> set desired. live_manifest ow (px_lan_ip (w_proxies w)) w' d m"
      using new(2) live live_manifestI by metis
    moreover have "\<forall>d \<in> set desired. serves_w w' (desired_name ow d) = None \<or>
        (\<exists>m \<in> set new. live_manifest ow (px_lan_ip (w_proxies w)) w' d m)"
    proof
      fix d assume d: "d \<in> set desired"
      { fix port
        assume "(fo_ns ow, desired_name ow d, desired_manifest ow (px_lan_ip (w_proxies w)) d port) \<in> set new"
        with new(2) obtain d' port' where d': "d' \<in> set desired" "desired_name ow d' = desired_name ow d"
          "desired_manifest ow (px_lan_ip (w_proxies w)) d port = desired_manifest ow (px_lan_ip (w_proxies w)) d' port'"
          "serves_w v (desired_name ow d') = Some (desired_target ow d', desired_protocol d', port')"
          by fastforce
        from this(1,2) d distinct have "d' = d" by (simp add: distinct_map inj_on_def)
        with d' live_manifestI [OF d'(4)] have "live_manifest ow (px_lan_ip (w_proxies w)) v d
             (fo_ns ow, desired_name ow d, desired_manifest ow (px_lan_ip (w_proxies w)) d port)" by metis }
      with new(3) d live [OF d] same [OF d]
      show "serves_w w' (desired_name ow d) = None \<or>
        (\<exists>m \<in> set new. live_manifest ow (px_lan_ip (w_proxies w)) w' d m)" by metis
    qed
    ultimately show ?thesis by blast
  next
    case (early q)
    with published [OF early(1)] show ?thesis using live_manifestI by (metis (no_types, lifting))
  qed
qed

section \<open>The reconcilers\<close>

definition list_query :: "string \<Rightarrow> kube_call" where
  "list_query ns = ListPortMappings ns (MANAGED_BY_LABEL @ ''='' @ MANAGED_BY_VALUE)"

lemma run_list_owned:
  "run_state (list_owned_port_mappings env ns uid) w =
    (case list_pm_answer env (w_calls w) (list_query ns) of
       Inl e \<Rightarrow> Err (KubeError e)
     | Inr items \<Rightarrow> Ok (filter (owned_by uid) items),
     log_call (Kube (list_query ns)) w)"
  unfolding wp_eq_run [symmetric]
  by (simp add: list_owned_port_mappings_def wp_simps list_query_def split: sum.splits)

abbreviation port_forward :: "object_meta \<Rightarrow> string option" where
  "port_forward meta \<equiv> annotation meta PORT_FORWARD_ANNOTATION"

definition service_desired :: "service \<Rightarrow> desired list" where
  "service_desired svc =
     (case port_forward (svc_metadata svc) of
        None \<Rightarrow> [] | Some v \<Rightarrow> parse_service_annotation v (service_ports_of svc))"

definition pod_desired :: "pod \<Rightarrow> desired list" where
  "pod_desired p =
     (case port_forward (pod_metadata p) of
        None \<Rightarrow> [] | Some v \<Rightarrow> parse_pod_annotation v (container_ports_of p))"

definition owned_of :: "object_meta \<Rightarrow> port_mapping list \<Rightarrow> port_mapping list" where
  "owned_of meta items = filter (owned_by (uid_or_empty meta)) items"

text \<open>The process after the listing, and after the clean-up of everything owned.\<close>

definition listed :: "object_meta \<Rightarrow> world \<Rightarrow> world" where
  "listed meta w = log_call (Kube (list_query (namespace_or_default meta))) w"

definition cleaned :: "object_meta \<Rightarrow> port_mapping list \<Rightarrow> world \<Rightarrow> world" where
  "cleaned meta owned w =
     log_calls (map (\<lambda>pm. delete_call (namespace_or_default meta) (pm_object_name pm)) owned)
       (without_proxies (map pm_object_name owned) w)"

lemma reconcile_annotated_cases:
  assumes "run_state (reconcile_annotated env meta body) w = (r, w')"
  obtains (shutdown) "w_shutting_down w" "r = Ok AwaitChange" "w' = w"
  | (no_list) e where "list_pm_answer env (w_calls w) (list_query (namespace_or_default meta)) = Inl e"
      "r = Err (KubeError e)" "w' = listed meta w"
  | (no_annotation) items where
      "list_pm_answer env (w_calls w) (list_query (namespace_or_default meta)) = Inr items"
      "port_forward meta = None" "r = Ok AwaitChange" "w' = cleaned meta (owned_of meta items) (listed meta w)"
  | (annotated) items v where
      "list_pm_answer env (w_calls w) (list_query (namespace_or_default meta)) = Inr items"
      "port_forward meta = Some v" "run_state (body v (owned_of meta items)) (listed meta w) = (r, w')"
proof (cases "w_shutting_down w")
  case True
  with assms show ?thesis by (intro shutdown) (auto simp: reconcile_annotated_def)
next
  case False
  note run = assms [unfolded reconcile_annotated_def]
  show ?thesis
  proof (cases "list_pm_answer env (w_calls w) (list_query (namespace_or_default meta))")
    case (Inl e)
    with run False show ?thesis
      by (intro no_list) (auto simp: Let_def run_try_bind run_list_owned listed_def)
  next
    case (Inr items)
    show ?thesis
    proof (cases "port_forward meta")
      case None
      with run False Inr show ?thesis
        by (intro no_annotation)
          (auto simp: Let_def run_try_bind run_list_owned run_stop_all run_cleanup listed_def cleaned_def owned_of_def)
    next
      case (Some v)
      with run False Inr show ?thesis
        by (intro annotated) (auto simp: Let_def run_try_bind run_list_owned listed_def owned_of_def)
    qed
  qed
qed

lemma listed_simps [simp]:
  "published (listed meta w) = published w" "deleted (listed meta w) = deleted w"
  "w_proxies (listed meta w) = w_proxies w" "serves_w (listed meta w) = serves_w w"
  by (simp_all add: listed_def list_query_def)

lemma cleaned_simps [simp]:
  "published (cleaned meta owned w) = published w"
  "deleted (cleaned meta owned w) = deleted w @ map (\<lambda>pm. (namespace_or_default meta, pm_object_name pm)) owned"
  "serves_w (cleaned meta owned w) = (\<lambda>k. if k \<in> pm_object_name ` set owned then None else serves_w w k)"
  by (auto simp: cleaned_def published_def deleted_def delete_call_def o_def log_calls_def without_proxies_def
      serves_w_def serves_fold_remove)

lemma reconcile_service_forwards:
  assumes "run_state (reconcile_service env svc) w = (r, w')"
  obtains (quiet) "r = Ok AwaitChange \<or> (\<exists>e. r = Err e)" "published w' = published w"
      "w_proxies w' = w_proxies w \<or>
       (\<exists>items. list_pm_answer env (w_calls w) (list_query (namespace_or_default (svc_metadata svc))) = Inr items \<and>
          port_forward (svc_metadata svc) = None \<and>
          w' = cleaned (svc_metadata svc) (owned_of (svc_metadata svc) items) (listed (svc_metadata svc) w))"
  | (forward) items where
      "list_pm_answer env (w_calls w) (list_query (namespace_or_default (svc_metadata svc))) = Inr items"
      "run_state (forward_ports env (service_owner svc) (owned_of (svc_metadata svc) items) (service_desired svc))
         (listed (svc_metadata svc) w) = (r, w')"
  using assms unfolding reconcile_service_def
proof (cases rule: reconcile_annotated_cases)
  case (annotated items v)
  show ?thesis
  proof (cases "cluster_ip_of svc = [] \<or> cluster_ip_of svc = ''None'' \<or> parse_service_annotation v (service_ports_of svc) = []")
    case True
    with annotated(3) have "r = Ok AwaitChange" "w' = listed (svc_metadata svc) w"
      by (auto simp: Let_def split: if_splits)
    then show ?thesis by (intro quiet) simp_all
  next
    case False
    with annotated show ?thesis by (intro forward) (simp_all add: service_desired_def Let_def)
  qed
qed (auto intro!: quiet)

lemma reconcile_pod_forwards:
  assumes "run_state (reconcile_pod env p) w = (r, w')"
  obtains (quiet) "r = Ok AwaitChange \<or> r = Ok (Requeue 5) \<or> (\<exists>e. r = Err e)" "published w' = published w"
  | (forward) items ip where
      "list_pm_answer env (w_calls w) (list_query (namespace_or_default (pod_metadata p))) = Inr items"
      "pod_status_ip p = Some (Some ip)"
      "run_state (forward_ports env (pod_owner p ip) (owned_of (pod_metadata p) items) (pod_desired p))
         (listed (pod_metadata p) w) = (r, w')"
  using assms unfolding reconcile_pod_def
proof (cases rule: reconcile_annotated_cases)
  case (annotated items v)
  show ?thesis
  proof (cases "Option.bind (pod_status_ip p) id")
    case None
    with annotated(3) have "r = Ok (Requeue 5)" "w' = listed (pod_metadata p) w" by auto
    then show ?thesis by (intro quiet) simp_all
  next
    case ip: (Some ip)
    show ?thesis
    proof (cases "parse_pod_annotation v (container_ports_of p) = []")
      case True
      with annotated(3) ip have "r = Ok AwaitChange" "w' = listed (pod_metadata p) w" by auto
      then show ?thesis by (intro quiet) simp_all
    next
      case False
      with annotated ip show ?thesis by (intro forward) (auto simp: pod_desired_def Let_def bind_eq_Some_conv)
    qed
  qed
qed (auto intro!: quiet)

section \<open>Every PortMapping written has its proxy\<close>

lemma distinct_names:
  assumes "distinct (map (\<lambda>(e, i, p). (e, p)) desired)"
  shows "distinct (map (desired_name ow) desired)"
proof -
  let ?g = "\<lambda>(e, p). pm_name_for_owner (fo_ns ow) (fo_name ow) e p"
  have "inj_on ?g A" for A by (auto simp: inj_on_def pm_name_inj)
  with assms have "distinct (map ?g (map (\<lambda>(e, i, p). (e, p)) desired))"
    unfolding distinct_map [of ?g] by blast
  moreover have "map ?g (map (\<lambda>(e, i, p). (e, p)) desired) = map (desired_name ow) desired"
    by (auto simp: desired_name_def)
  ultimately show ?thesis by (simp only:)
qed

lemma service_live:
  assumes run: "run_state (reconcile_service env svc) w = (r, w')"
    and distinct: "distinct (map (\<lambda>(e, i, p). (e, p)) (service_desired svc))"
  shows "\<exists>new. published w' = published w @ new \<and>
    (\<forall>m \<in> set new. \<exists>d \<in> set (service_desired svc).
        live_manifest (service_owner svc) (px_lan_ip (w_proxies w)) w' d m)"
  using run
proof (cases rule: reconcile_service_forwards)
  case quiet
  then show ?thesis by auto
next
  case (forward items)
  from forward_ports_live [OF forward(2) distinct_names [OF distinct]] show ?thesis
    unfolding listed_simps by blast
qed

text \<open>
  C5. For an annotation that does not ask twice for the same external port and protocol: every
  PortMapping an uninterrupted visit to a Service writes is one of the desired ones, and carries the LAN address and
  the port that the table of proxies has, when the visit ends, under the name of the PortMapping, for
  the cluster address and port asked for and the protocol; and a visit that completes has written
  one for every desired mapping that has a proxy in the table (the table keeps a proxy whose task ended
  on an error of its socket; with an annotation that asks twice the second proxy replaces the first).
\<close>

theorem service_publishes_live_proxies:
  assumes run: "run_state (reconcile_service env svc) w = (r, w')"
    and distinct: "distinct (map (\<lambda>(e, i, p). (e, p)) (service_desired svc))"
  shows "\<exists>new. published w' = published w @ new \<and>
    (\<forall>m \<in> set new. \<exists>d \<in> set (service_desired svc).
        live_manifest (service_owner svc) (px_lan_ip (w_proxies w)) w' d m) \<and>
    (r = Ok (Requeue 60) \<longrightarrow>
       (\<forall>d \<in> set (service_desired svc). serves_w w' (desired_name (service_owner svc) d) = None \<or>
          (\<exists>m \<in> set new. live_manifest (service_owner svc) (px_lan_ip (w_proxies w)) w' d m)))"
  using run
proof (cases rule: reconcile_service_forwards)
  case quiet
  then show ?thesis by auto
next
  case (forward items)
  from forward_ports_live [OF forward(2) distinct_names [OF distinct]] show ?thesis
    unfolding listed_simps by blast
qed

text \<open>The same for Pods, with the address of the Pod.\<close>

lemma pod_publishes_live_proxies:
  assumes run: "run_state (reconcile_pod env p) w = (r, w')"
    and distinct: "distinct (map (\<lambda>(e, i, p). (e, p)) (pod_desired p))"
  shows "\<exists>new. published w' = published w @ new \<and>
    (\<forall>m \<in> set new. \<exists>ip. pod_status_ip p = Some (Some ip) \<and>
       (\<exists>d \<in> set (pod_desired p). live_manifest (pod_owner p ip) (px_lan_ip (w_proxies w)) w' d m))"
  using run
proof (cases rule: reconcile_pod_forwards)
  case quiet
  then show ?thesis by auto
next
  case (forward items ip)
  from forward_ports_live [OF forward(3) distinct_names [OF distinct]] forward(2) show ?thesis
    unfolding listed_simps by blast
qed

section \<open>Deletion\<close>

text \<open>
  A visit that completes deletes exactly the owned PortMappings that are no longer desired, in
  the order listed, and none of their names has a proxy afterwards.
\<close>

lemma stale_mappings_deleted:
  assumes run: "run_state (reconcile_service env svc) w = (Ok (Requeue 60), w')"
    and items: "list_pm_answer env (w_calls w) (list_query (namespace_or_default (svc_metadata svc))) = Inr items"
  shows "deleted w' = deleted w @ map (Pair (namespace_or_default (svc_metadata svc)))
      (stale_names (service_owner svc) (owned_of (svc_metadata svc) items) (service_desired svc)) \<and>
    (\<forall>name \<in> set (stale_names (service_owner svc) (owned_of (svc_metadata svc) items) (service_desired svc)).
       serves_w w' name = None)"
  using run
proof (cases rule: reconcile_service_forwards)
  case (forward items')
  have [simp]: "items' = items" "fo_ns (service_owner svc) = namespace_or_default (svc_metadata svc)"
    using forward(1) items by (simp_all add: service_owner_def)
  from forward(2) show ?thesis
  proof (cases rule: forward_ports_cases)
    case (done_all v)
    from loop_deletes_nothing [OF done_all(1)] show ?thesis by (simp add: done_all(3))
  next
    case (early q)
    from early(3) [of "Requeue 60"] show ?thesis by simp
  qed
qed simp

text \<open>
  C30. Once the annotation is gone, a visit to the Service, or to a Pod with the same metadata,
  deletes everything the object owns, in the order listed, leaves no proxy under any of the names,
  and waits for the next change.
\<close>

theorem annotation_removed_cleans_up:
  assumes "\<not> w_shutting_down w" and "port_forward (svc_metadata svc) = None" and "pod_metadata p = svc_metadata svc"
    and "list_pm_answer env (w_calls w) (list_query (namespace_or_default (svc_metadata svc))) = Inr items"
  shows "run_state (reconcile_service env svc) w =
      (Ok AwaitChange, cleaned (svc_metadata svc) (owned_of (svc_metadata svc) items) (listed (svc_metadata svc) w)) \<and>
    run_state (reconcile_pod env p) w = run_state (reconcile_service env svc) w"
proof -
  have "run_state (reconcile_annotated env (svc_metadata svc) body) w =
    (Ok AwaitChange, cleaned (svc_metadata svc) (owned_of (svc_metadata svc) items) (listed (svc_metadata svc) w))" for body
    using assms by (simp add: reconcile_annotated_def Let_def run_try_bind run_list_owned run_stop_all run_cleanup
        listed_def cleaned_def owned_of_def)
  then show ?thesis by (simp add: reconcile_service_def reconcile_pod_def assms(3))
qed

text \<open>
  An annotation that matches no port (a typing error, or a port that left the Service) deletes
  nothing: the visit lists, and the PortMappings and proxies of the last good annotation stay.
\<close>

lemma unmatched_annotation_keeps_mappings:
  assumes "\<not> w_shutting_down w" and "port_forward (svc_metadata svc) = Some v"
    and "parse_service_annotation v (service_ports_of svc) = []"
    and "list_pm_answer env (w_calls w) (list_query (namespace_or_default (svc_metadata svc))) = Inr items"
  shows "run_state (reconcile_service env svc) w = (Ok AwaitChange, listed (svc_metadata svc) w)"
  using assms by (simp add: reconcile_service_def reconcile_annotated_def Let_def run_try_bind run_list_owned listed_def)

section \<open>Steady state and shutdown\<close>

text \<open>
  When every desired mapping has its proxy and nothing owned is stale, a visit leaves the proxies
  exactly as they are: no connection is cut, no port changes.
\<close>

lemma steady_state_keeps_proxies:
  assumes run: "run_state (reconcile_service env svc) w = (r, w')"
    and served: "\<And>d. d \<in> set (service_desired svc) \<Longrightarrow>
      \<exists>port. serves_w w (desired_name (service_owner svc) d) =
        Some (desired_target (service_owner svc) d, desired_protocol d, port)"
    and items: "list_pm_answer env (w_calls w) (list_query (namespace_or_default (svc_metadata svc))) = Inr items"
    and owned: "stale_names (service_owner svc) (owned_of (svc_metadata svc) items) (service_desired svc) = []"
  shows "w_proxies w' = w_proxies w"
  using run
proof (cases rule: reconcile_service_forwards)
  case quiet
  have "owned_of (svc_metadata svc) items = []" if "port_forward (svc_metadata svc) = None"
    using owned that by (simp add: stale_names_def service_desired_def desired_names_def)
  with quiet(3) items show ?thesis by (auto simp: cleaned_def)
next
  case (forward items')
  have [simp]: "items' = items" using forward(1) items by simp
  note steady = pub.loop_steady [where env = env and ow = "service_owner svc" and ds = "service_desired svc" and
      R = "\<lambda>w w'. w_proxies w' = w_proxies w", folded start_desired_eq, OF _ frame_component]
  have publish: "w_proxies u' = w_proxies u"
    if "run_state (publish_desired env (service_owner svc) ip d port) u = (q, u')" for u u' ip d port q
    using that by (auto simp: run_publish)
  from forward(2) show ?thesis
  proof (cases rule: forward_ports_cases)
    case (done_all v)
    have "w_proxies v = w_proxies w"
      using steady [OF done_all(1) publish] served by simp
    with owned show ?thesis by (simp add: done_all(3))
  next
    case (early q)
    show ?thesis using steady [OF early(1) publish] served by simp
  qed
qed

text \<open>After the shutdown flag is set the watchers do nothing at all.\<close>

lemma shutdown_stops_watchers:
  assumes "w_shutting_down w"
  shows "run_state (reconcile_service env svc) w = (Ok AwaitChange, w) \<and>
    run_state (reconcile_pod env p) w = (Ok AwaitChange, w)"
  using assms by (simp add: reconcile_service_def reconcile_pod_def reconcile_annotated_def)

section \<open>Names across namespaces\<close>

text \<open>
  The proxies of all namespaces share one table, and names of different namespaces can be
  equal: starting the proxy of Service \<open>c\<close> in namespace \<open>a-b\<close> takes the one of Service \<open>b-c\<close> in
  namespace \<open>a\<close> for the same port and protocol.
\<close>

lemma namespaces_share_proxy_keys:
  assumes "run_state (start_desired env ow d) w = (Ok port, w')"
    and "fo_ns ow = a @ ''-'' @ b" and "fo_name ow = c"
    and "fo_ns other = a" and "fo_name other = b @ ''-'' @ c"
    and "desired_target ow d \<noteq> desired_target other d"
  shows "serves_w w' (desired_name other d) = Some (desired_target ow d, desired_protocol d, port)"
proof -
  have "desired_name other d = desired_name ow d"
    using pm_name_collision by (simp add: desired_name_def assms(2-5) split: prod.splits)
  then show ?thesis
    using pxw.ensure_Ok [OF assms(1) [unfolded start_desired_eq]] by simp
qed

section \<open>Witnesses\<close>

definition sample_meta :: "string option \<Rightarrow> object_meta" where
  "sample_meta value =
     \<lparr>meta_name = ''web'', meta_namespace = Some ''prod'', meta_uid = Some ''u1'',
      meta_annotations = Some (\<lambda>k. if k = PORT_FORWARD_ANNOTATION then value else None), meta_owner_references = None,
        meta_finalizers = None, meta_deletion_timestamp = None\<rparr>"

definition sample_service :: "string option \<Rightarrow> service" where
  "sample_service value =
     \<lparr>svc_metadata = sample_meta value,
      svc_spec = Some \<lparr>ss_cluster_ip = Some ''10.0.0.1'', ss_ports = Some [\<lparr>sp_port = 80, sp_protocol = None\<rparr>]\<rparr>\<rparr>"

definition sample_pod :: "string option \<Rightarrow> pod" where
  "sample_pod value =
     \<lparr>pod_metadata = sample_meta value,
      pod_containers = Some [\<lparr>ctr_ports = Some [\<lparr>cp_container_port = 53, cp_protocol = Some ''UDP''\<rparr>]\<rparr>],
      pod_status_ip = Some (Some ''10.1.0.7'')\<rparr>"

lemma sample_service_simps [simp]:
  "svc_metadata (sample_service v) = sample_meta v"
  "port_forward (sample_meta v) = v"
  "pod_metadata (sample_pod v) = sample_meta v"
  "service_desired (sample_service (Some ''true'')) = [(80, 80, Tcp)]"
  "pod_desired (sample_pod (Some ''true'')) = [(53, 53, Udp)]"
  "\<not> w_shutting_down (world_new ip)"
  by (simp_all add: sample_service_def sample_pod_def sample_meta_def annotation_def service_desired_def
      pod_desired_def container_ports_of_def parse_pod_annotation_def
      service_ports_of_def parse_service_annotation_def parse_k8s_protocol_def world_new_def)

lemma sample_env_lists [simp]: "list_pm_answer sample_env h c = Inr []"
  by (simp add: sample_env_def)

theorem service_publishes_live_proxies_witness:
  "\<exists>new. published (snd (run_state (reconcile_service sample_env (sample_service (Some ''true''))) (world_new ''192.168.0.2''))) = new \<and>
    (\<forall>m \<in> set new. live_manifest (service_owner (sample_service (Some ''true''))) ''192.168.0.2''
       (snd (run_state (reconcile_service sample_env (sample_service (Some ''true''))) (world_new ''192.168.0.2''))) (80, 80, Tcp) m)"
proof -
  have "published (world_new ''192.168.0.2'') = []" "px_lan_ip (w_proxies (world_new ''192.168.0.2'')) = ''192.168.0.2''"
    by (simp_all add: published_def world_new_def new_manager_def)
  with service_publishes_live_proxies [OF prod.collapse [symmetric], of "sample_service (Some ''true'')" sample_env "world_new ''192.168.0.2''"]
  show ?thesis by auto
qed

text \<open>A PortMapping that the sample Service owns and no longer wants.\<close>

definition old_pm :: port_mapping where
  "old_pm =
     \<lparr>pmo_metadata = \<lparr>meta_name = ''prod-web-81-tcp'', meta_namespace = Some ''prod'', meta_uid = None,
        meta_annotations = None, meta_owner_references = Some
          [\<lparr>or_api_version = ''v1'', or_kind = ''Service'', or_name = ''web'', or_uid = ''u1'',
            or_controller = True, or_block_owner_deletion = True\<rparr>],
        meta_finalizers = None, meta_deletion_timestamp = None\<rparr>,
      pmo_spec = \<lparr>spec_external_port = 81, spec_internal_host = ''192.168.0.2'', spec_internal_port = 1,
        spec_protocol = Tcp, spec_description = None\<rparr>,
      pmo_status = None\<rparr>"

definition stale_env :: env where
  "stale_env = sample_env\<lparr>list_pm_answer := (\<lambda>h c. Inr [old_pm])\<rparr>"

lemma old_pm_owned [simp]: "owned_of (sample_meta v) [old_pm] = [old_pm]" "namespace_or_default (sample_meta v) = ''prod''"
  by (simp_all add: owned_of_def owned_by_def old_pm_def sample_meta_def uid_or_empty_def namespace_or_default_def)

lemma stale_env_lists [simp]: "list_pm_answer stale_env h c = Inr [old_pm]"
  by (simp add: stale_env_def)

theorem annotation_removed_cleans_up_witness:
  "run_state (reconcile_pod stale_env (sample_pod None)) (world_new ''192.168.0.2'') =
     (Ok AwaitChange, cleaned (sample_meta None) [old_pm] (listed (sample_meta None) (world_new ''192.168.0.2'')))"
  using annotation_removed_cleans_up [of "world_new ''192.168.0.2''" "sample_service None" "sample_pod None" stale_env "[old_pm]"]
  by simp

lemma unmatched_annotation_keeps_mappings_witness:
  "run_state (reconcile_service stale_env (sample_service (Some ''http''))) (world_new ''192.168.0.2'') =
     (Ok AwaitChange, listed (sample_meta (Some ''http'')) (world_new ''192.168.0.2''))"
proof -
  have "parse_service_annotation ''http'' (service_ports_of (sample_service (Some ''http''))) = []"
    by (simp add: sample_service_def service_ports_of_def parse_service_annotation_def parse_port_list_def
        parse_part_def str_eval Let_def)
  then show ?thesis
    using unmatched_annotation_keeps_mappings [of "world_new ''192.168.0.2''" "sample_service (Some ''http'')" "''http''" stale_env "[old_pm]"]
    by simp
qed

lemma start_sample:
  assumes "os_binds env = next_port_bind" and "w_proxies w = new_manager ip"
  shows "run_state (start_desired env ow d) w =
    (Ok 1, w\<lparr>w_proxies := started (desired_name ow d) (desired_target ow d) (desired_protocol d) 1 (count_bind (new_manager ip))\<rparr>)"
  using assms
  by (simp add: start_desired_def on_proxies_def run_ensure_other same_proxy_def run_restart_proxy
      next_port_bind_def new_manager_def remove_handle_def live_sockets_def unstopped_def Let_def)

lemma stale_env_run:
  "fst (run_state (reconcile_service stale_env (sample_service (Some ''true''))) (world_new ''192.168.0.2'')) = Ok (Requeue 60)"
  and stale_env_serves: "serves_w (snd (run_state (reconcile_service stale_env (sample_service (Some ''true'')))
    (world_new ''192.168.0.2''))) (desired_name (service_owner (sample_service (Some ''true''))) (80, 80, Tcp)) \<noteq> None"
proof -
  have ports: "parse_service_annotation ''true'' (service_ports_of (sample_service (Some ''true''))) = [(80, 80, Tcp)]"
    "cluster_ip_of (sample_service (Some ''true'')) = ''10.0.0.1''"
    by (simp_all add: sample_service_def service_ports_of_def parse_service_annotation_def parse_k8s_protocol_def cluster_ip_of_def)
  have env: "os_binds stale_env = next_port_bind" "kube_answer stale_env h c = Inr ()" for h c
    by (simp_all add: stale_env_def sample_env_def)
  have start: "run_state (start_desired stale_env ow d) (log_call c (world_new ip)) =
      (Ok 1, (log_call c (world_new ip))\<lparr>w_proxies := started (desired_name ow d) (desired_target ow d)
         (desired_protocol d) 1 (count_bind (new_manager ip))\<rparr>)" for ow d c ip
    by (rule start_sample) (simp_all add: env world_new_def)
  note steps = reconcile_service_def reconcile_annotated_def run_try_bind run_list_owned Let_def ports
    forward_ports_def start env run_publish delete_stale_def
  show "fst (run_state (reconcile_service stale_env (sample_service (Some ''true''))) (world_new ''192.168.0.2'')) = Ok (Requeue 60)"
    by (simp add: steps flip: owned_of_def)
  show "serves_w (snd (run_state (reconcile_service stale_env (sample_service (Some ''true''))) (world_new ''192.168.0.2'')))
      (desired_name (service_owner (sample_service (Some ''true''))) (80, 80, Tcp)) \<noteq> None"
    by (simp add: steps serves_w_def flip: owned_of_def)
qed

lemma stale_mappings_deleted_witness:
  "deleted (snd (run_state (reconcile_service stale_env (sample_service (Some ''true''))) (world_new ''192.168.0.2''))) =
     [(''prod'', ''prod-web-81-tcp'')]"
proof -
  let ?run = "run_state (reconcile_service stale_env (sample_service (Some ''true''))) (world_new ''192.168.0.2'')"
  let ?svc = "sample_service (Some ''true'')"
  have run: "?run = (Ok (Requeue 60), snd ?run)" using stale_env_run by (simp add: prod_eq_iff)
  have "desired_name (service_owner ?svc) (80, 80, Tcp) = ''prod-web-80-tcp''"
    by (simp add: desired_name_def service_owner_def pm_name_for_owner_def show_u16_def show_nat.simps
        digit_char_def char_of_eq_iff) (simp add: sample_meta_def)
  moreover have "pm_object_name old_pm = ''prod-web-81-tcp''" by (simp add: old_pm_def)
  ultimately have "stale_names (service_owner ?svc) [old_pm] [(80, 80, Tcp)] = [''prod-web-81-tcp'']"
    by (simp add: stale_names_def desired_names_def)
  moreover have "deleted (world_new ''192.168.0.2'') = []" by (simp add: deleted_def world_new_def)
  ultimately show ?thesis
    using stale_mappings_deleted [OF run, of "[old_pm]"] by simp
qed

lemma steady_state_keeps_proxies_witness:
  "\<exists>w. px_proxies (w_proxies w) \<noteq> Map.empty \<and>
     w_proxies (snd (run_state (reconcile_service sample_env (sample_service (Some ''true''))) w)) = w_proxies w"
proof -
  let ?svc = "sample_service (Some ''true'')"
  let ?ow = "service_owner ?svc" and ?d = "(80, 80, Tcp) :: desired"
  let ?w = "world_new ''192.168.0.2''"
  let ?v = "?w\<lparr>w_proxies := started (desired_name ?ow ?d) (desired_target ?ow ?d) Tcp 1 (count_bind (new_manager ''192.168.0.2''))\<rparr>"
  have "serves_w ?v (desired_name ?ow ?d) = Some (desired_target ?ow ?d, Tcp, 1)"
    by (simp add: serves_w_def)
  then have "w_proxies (snd (run_state (reconcile_service sample_env ?svc) ?v)) = w_proxies ?v"
    by (intro steady_state_keeps_proxies [OF prod.collapse [symmetric], where items = "[]"])
      (auto simp: desired_protocol_def stale_names_def owned_of_def)
  moreover have "px_proxies (w_proxies ?v) \<noteq> Map.empty" by (simp add: started_def)
  ultimately show ?thesis by blast
qed

lemma namespaces_share_proxy_keys_witness:
  "serves_w (snd (run_state (start_desired sample_env
        \<lparr>fo_kind = ''Service'', fo_ns = ''a-b'', fo_name = ''c'', fo_uid = ''u1'', fo_backend = ''10.0.0.1''\<rparr> (80, 80, Tcp))
      (world_new ''192.168.0.2'')))
     (desired_name \<lparr>fo_kind = ''Service'', fo_ns = ''a'', fo_name = ''b-c'', fo_uid = ''u2'', fo_backend = ''10.0.0.2''\<rparr> (80, 80, Tcp))
   = Some (''10.0.0.1:80'', Tcp, 1)"
proof -
  let ?ow = "\<lparr>fo_kind = ''Service'', fo_ns = ''a-b'', fo_name = ''c'', fo_uid = ''u1'', fo_backend = ''10.0.0.1''\<rparr>"
  let ?other = "\<lparr>fo_kind = ''Service'', fo_ns = ''a'', fo_name = ''b-c'', fo_uid = ''u2'', fo_backend = ''10.0.0.2''\<rparr>"
  have run: "run_state (start_desired sample_env ?ow (80, 80, Tcp)) (world_new ''192.168.0.2'') =
    (Ok 1, snd (run_state (start_desired sample_env ?ow (80, 80, Tcp)) (world_new ''192.168.0.2'')))"
    using start_sample [of sample_env "world_new ''192.168.0.2''" "''192.168.0.2''" ?ow "(80, 80, Tcp)"]
    by (simp add: sample_env_def world_new_def)
  have "desired_target ?ow (80, 80, Tcp) = ''10.0.0.1:80''" "desired_protocol (80, 80, Tcp) = Tcp"
    by (simp_all add: desired_target_def desired_protocol_def show_u16_def show_nat.simps digit_char_def char_of_eq_iff)
  then show ?thesis
    using namespaces_share_proxy_keys [OF run, of "''a''" "''b''" "''c''" ?other]
    by (simp add: desired_target_def)
qed

section \<open>Frames of the watchers\<close>

text \<open>
  What else the watchers do: they write PortMappings for the object they visit and start and stop proxies.
  A relation on worlds that writing for the owners at hand keeps, and starting and stopping proxies.
\<close>

locale owned_frame = kube_frame R for R :: "world \<Rightarrow> world \<Rightarrow> bool" +
  fixes env :: env and writes :: "forward_owner \<Rightarrow> bool"
  assumes R_publish: "writes ow \<Longrightarrow>
      R w (log_call (Kube (ApplyPortMapping (fo_ns ow) (desired_name ow d) manager (desired_manifest ow ip d port))) w)"
    and R_ensure: "state_io_rel R (on_proxies (ensure_proxy (os_binds env) key target proto))"
    and R_stop: "state_io_rel R (on_proxies (stop_proxy key))"
begin

lemma keeps_publish:
  "writes ow \<Longrightarrow>
   state_io_rel R (kube_unit env (ApplyPortMapping (fo_ns ow) (desired_name ow d) manager (desired_manifest ow ip d port)))"
  by (simp add: state_io_rel_def kube_unit_def R_publish)

lemma keeps_forward_ports: "writes ow \<Longrightarrow> state_io_rel R (forward_ports env ow owned ds)"
  unfolding forward_ports_def start_desired_def publish_desired_def delete_stale_def stop_owned_def
    delete_owned_def Let_def
  by (intro kube_keeps keeps_desired_loop keeps_publish R_ensure R_stop)

lemma keeps_annotated:
  "(\<And>v owned. state_io_rel R (body v owned)) \<Longrightarrow> state_io_rel R (reconcile_annotated env meta body)"
  unfolding reconcile_annotated_def list_owned_port_mappings_def stop_owned_def
    cleanup_owned_port_mappings_def delete_owned_def Let_def
  by (intro kube_keeps R_stop)

lemma keeps_visits:
  "writes (service_owner svc) \<Longrightarrow> state_io_rel R (reconcile_service env svc)"
  "(\<And>ip. writes (pod_owner p ip)) \<Longrightarrow> state_io_rel R (reconcile_pod env p)"
  unfolding reconcile_service_def reconcile_pod_def Let_def
  by (intro keeps_annotated kube_keeps keeps_forward_ports; simp)+

end

text \<open>One that writing for any owner keeps, with any answers.\<close>

locale watcher_frame = kube_frame R for R :: "world \<Rightarrow> world \<Rightarrow> bool" +
  assumes R_apply: "R w (log_call (Kube (ApplyPortMapping ns name manager mf)) w)"
    and R_ensure_proxy: "state_io_rel R (on_proxies (ensure_proxy bnd key target proto))"
    and R_stop_proxy: "state_io_rel R (on_proxies (stop_proxy key))"

sublocale watcher_frame \<subseteq> any_owner: owned_frame R env "\<lambda>_. True" for env
  by unfold_locales (rule R_apply R_ensure_proxy R_stop_proxy)+

context watcher_frame
begin

lemma keeps_watchers: "state_io_rel R (reconcile_service env svc)" "state_io_rel R (reconcile_pod env p)"
  by (rule any_owner.keeps_visits; simp)+

end

interpretation proxies_kept: watcher_frame "\<lambda>w v. proxies_ok w \<longrightarrow> proxies_ok v"
proof unfold_locales
  fix bnd key target proto
  show "state_io_rel (\<lambda>w v. proxies_ok w \<longrightarrow> proxies_ok v) (on_proxies (ensure_proxy bnd key target proto))"
    by (auto simp: state_io_rel_def on_proxies_def proxies_ok_def intro: proxy_inv_ensure [OF prod.collapse [symmetric]])
  show "state_io_rel (\<lambda>w v. proxies_ok w \<longrightarrow> proxies_ok v) (on_proxies (stop_proxy key))"
    by (auto simp: state_io_rel_def on_proxies_def proxies_ok_def intro: proxy_inv_remove)
qed (auto simp: proxies_ok_def)

interpretation watchers_grow: watcher_frame calls_grow
  by unfold_locales (auto simp: calls_grow_def on_proxies_frames intro: on_proxies_frames)

interpretation watchers_eventing: watcher_frame same_eventing
  by unfold_locales (auto simp: same_eventing_def intro: on_proxies_frames)

text \<open>
  A visit to a Service or a Pod, on any branch, keeps the invariant of the proxy manager: the tasks
  not told to stop are afterwards what its table holds.
\<close>

lemma watchers_leak_no_proxy:
  assumes "proxy_inv (w_proxies w)"
  shows "proxy_inv (w_proxies (snd (run_state (reconcile_service env svc) w))) \<and>
    proxy_inv (w_proxies (snd (run_state (reconcile_pod env p) w)))"
  using proxies_kept.keeps_watchers [of env] assms by (simp add: state_io_rel_def proxies_ok_def)

section \<open>What a visit writes\<close>

text \<open>
  A PortMapping written for an object of a kind: the API version and kind of the resource, the namespace
  of the object and the name it is written under, the label the watchers list by, one owner, which is
  the object (by API version, kind, name and uid) and its controller, and a name that is made of that
  owner and of the external port and protocol in the spec.
\<close>

definition written_for :: "string \<Rightarrow> object_meta \<Rightarrow> string \<times> string \<times> pm_manifest \<Rightarrow> bool" where
  "written_for kind meta = (\<lambda>(ns, name, mf).
     mf_api_version mf = ''upnp-controller.io/v1alpha1'' \<and> mf_kind mf = ''PortMapping'' \<and>
     ns = (case meta_namespace meta of Some ns \<Rightarrow> ns | None \<Rightarrow> ''default'') \<and> mf_namespace mf = ns \<and> mf_name mf = name \<and>
     mf_labels mf = [(''upnp-controller.io/managed-by'', ''service-controller'')] \<and>
     mf_owner_references mf =
       [\<lparr>or_api_version = ''v1'', or_kind = kind, or_name = meta_name meta,
         or_uid = (case meta_uid meta of Some uid \<Rightarrow> uid | None \<Rightarrow> ''''),
         or_controller = True, or_block_owner_deletion = True\<rparr>] \<and>
     name = pm_name_for_owner ns (meta_name meta) (spec_external_port (mf_spec mf)) (spec_protocol (mf_spec mf)))"

definition owner_is :: "string \<Rightarrow> object_meta \<Rightarrow> forward_owner \<Rightarrow> bool" where
  "owner_is kind meta ow \<longleftrightarrow>
     fo_kind ow = kind \<and> fo_ns ow = namespace_or_default meta \<and> fo_name ow = meta_name meta \<and> fo_uid ow = uid_or_empty meta"

lemma desired_written_for:
  "owner_is kind meta ow \<Longrightarrow> written_for kind meta (fo_ns ow, desired_name ow d, desired_manifest ow ip d port)"
  by (simp add: owner_is_def written_for_def desired_manifest_def desired_name_def desired_protocol_def
      namespace_or_default_def uid_or_empty_def MANAGED_BY_LABEL_def MANAGED_BY_VALUE_def split: prod.splits)

definition writes_only :: "(string \<times> string \<times> pm_manifest \<Rightarrow> bool) \<Rightarrow> world \<Rightarrow> world \<Rightarrow> bool" where
  "writes_only P w v \<longleftrightarrow> (\<exists>new. published v = published w @ new \<and> (\<forall>m \<in> set new. P m))"

lemma published_proxies [simp]: "published (w\<lparr>w_proxies := p\<rparr>) = published w"
  by (simp add: published_def)

interpretation visit_writes: owned_frame "writes_only (written_for kind meta)" env "owner_is kind meta" for kind meta env
proof unfold_locales
  fix w v u
  assume "writes_only (written_for kind meta) w v" "writes_only (written_for kind meta) v u"
  then show "writes_only (written_for kind meta) w u"
    unfolding writes_only_def by (elim exE conjE) (auto intro!: exI)
qed (auto simp: writes_only_def desired_written_for published_def state_io_rel_def on_proxies_def)

lemma visits_write:
  "state_io_rel (writes_only (written_for ''Service'' (svc_metadata svc))) (reconcile_service env svc)"
  "state_io_rel (writes_only (written_for ''Pod'' (pod_metadata p))) (reconcile_pod env p)"
  by (rule visit_writes.keeps_visits; simp add: owner_is_def service_owner_def pod_owner_def)+

section \<open>What a visit does to the manager\<close>

text \<open>It calls its operations: the table and the tasks afterwards are what a run of calls makes of them.\<close>

definition manager_runs :: "env \<Rightarrow> world \<Rightarrow> world \<Rightarrow> bool" where
  "manager_runs env w v \<longleftrightarrow> (\<exists>ops. w_proxies v = fold (run_op (os_binds env)) ops (w_proxies w))"

interpretation visit_ops: owned_frame "manager_runs env" env "\<lambda>_. True" for env
proof unfold_locales
  fix w v u
  assume "manager_runs env w v" "manager_runs env v u"
  then obtain ops ops' where "w_proxies u = fold (run_op (os_binds env)) (ops @ ops') (w_proxies w)"
    by (auto simp: manager_runs_def)
  then show "manager_runs env w u" unfolding manager_runs_def by blast
next
  fix key target proto
  have "w_proxies v = fold (run_op (os_binds env)) [EnsureOp key target proto] (w_proxies w)"
    if "run_state (on_proxies (ensure_proxy (os_binds env) key target proto)) w = (r, v)" for w r v
    using that by (auto simp: run_on_proxies)
  then show "state_io_rel (manager_runs env) (on_proxies (ensure_proxy (os_binds env) key target proto))"
    unfolding state_io_rel_def manager_runs_def by (metis prod.collapse)
  have "w_proxies v = fold (run_op (os_binds env)) [StopOp key] (w_proxies w)"
    if "run_state (on_proxies (stop_proxy key)) w = (r, v)" for w r v
    using that by (auto simp: run_on_proxies)
  then show "state_io_rel (manager_runs env) (on_proxies (stop_proxy key))"
    unfolding state_io_rel_def manager_runs_def by (metis prod.collapse)
qed (auto simp: manager_runs_def intro: exI [of _ "[]"])

lemma visit_runs_manager:
  assumes "run_state (reconcile_service env svc) w = (r, v)"
  shows "\<exists>ops. w_proxies v = fold (run_op (os_binds env)) ops (w_proxies w)"
  using state_io_relD [OF visit_ops.keeps_visits(1) assms] by (simp add: manager_runs_def)

end
