(* ===== verification/Main_Loop.thy ===== *)
theory Main_Loop
  imports Config_Model Discovery Eventing Dns_Endpoint Gateway Pm_Facts Watchers_Facts
begin

text \<open>
  The process of \<open>src/main.rs\<close>: its start up to the polling loop, one tick of that loop, the NOTIFY
  handler and the shutdown; and the process as a transition system, in which every handler of every
  task runs to its end in one step, in any order. The servers and the exit are in the theories
  \<open>Http_Servers\<close> and \<open>Process_Life\<close>.
\<close>

section \<open>Start\<close>

definition resolve_gateway_url :: "string option \<Rightarrow> string option \<Rightarrow> (string, string) outcome" where
  "resolve_gateway_url configured discovered =
     (case (configured, discovered) of
        (Some url, _) \<Rightarrow> Ok url
      | (None, Some url) \<Rightarrow> Ok url
      | (None, None) \<Rightarrow> Err ''No gateway found via SSDP and GATEWAY_URL not set'')"

text \<open>The argument \<open>detect\<close> is \<open>detect_lan_ip\<close> with the answers of the operating system.\<close>

definition with_lan_ip :: "(string \<Rightarrow> string + string) \<Rightarrow> string \<Rightarrow> config \<Rightarrow> config" where
  "with_lan_ip detect root_desc_url cfg =
     (case parse_host root_desc_url of
        None \<Rightarrow> cfg
      | Some host \<Rightarrow> (case detect host of Inr ip \<Rightarrow> cfg\<lparr>cf_lan_ip := Some ip\<rparr> | Inl e \<Rightarrow> cfg))"

definition set_last_seen :: "env \<Rightarrow> (world, unit) state" where
  "set_last_seen env = do {
     now \<leftarrow> read_utc env;
     upd_metrics (\<lambda>m. m\<lparr>mt_gateway_last_seen := timestamp env now\<rparr>)
   }"

definition set_external_ip :: "string \<Rightarrow> (world, unit) state" where
  "set_external_ip ip = upd_eventing (\<lambda>e. e\<lparr>es_current_external_ip := Some ip\<rparr>)"

definition initial_external_ip :: "env \<Rightarrow> upnp_client \<Rightarrow> (world, (string, unit) outcome) state" where
  "initial_external_ip env upnp = do {
     r \<leftarrow> get_external_ip env upnp;
     (case r of
        Ok ip \<Rightarrow> do { set_external_ip ip; set_last_seen env; ret (Ok ()) }
      | Err e \<Rightarrow> ret (Ok ())
      | Panicked \<Rightarrow> ret Panicked)
   }"

text \<open>Whether GENA is active. The id of the subscription goes into \<open>subscription_id\<close>.\<close>

definition subscribe_gena :: "env \<Rightarrow> config \<Rightarrow> string option \<Rightarrow> (world, (string, bool) outcome) state" where
  "subscribe_gena env cfg found_url =
     (if cf_gena_enabled cfg
      then case found_url of
             None \<Rightarrow> ret (Ok False)
           | Some url \<Rightarrow> do {
               r \<leftarrow> subscribe env url (notify_callback_url cfg) 1800;
               (case r of
                  Ok sid \<Rightarrow> do {
                    modify (\<lambda>w. w\<lparr>w_subscription_id := Some sid\<rparr>);
                    upd_metrics (\<lambda>m. m\<lparr>mt_gena_subscription_active := 1\<rparr>);
                    ret (Ok True)
                  }
                | Err e \<Rightarrow> do {
                    upd_metrics (\<lambda>m. m\<lparr>mt_gena_subscription_active := 0\<rparr>);
                    ret (Ok False)
                  }
                | Panicked \<Rightarrow> ret Panicked)
             }
      else ret (Ok False))"

text \<open>The state the controllers share: a new proxy manager, and the flags.\<close>

definition new_contexts :: "config \<Rightarrow> (world, unit) state" where
  "new_contexts cfg =
     (let lan_ip = unwrap_or ''127.0.0.1'' (cf_lan_ip cfg)
      in modify (\<lambda>w. w\<lparr>w_proxies := new_manager lan_ip, w_shutting_down := False, w_dns_active := False\<rparr>))"

text \<open>What the tasks started afterwards are given.\<close>

record started_process =
  sp_root_url :: string
  sp_upnp :: upnp_client
  sp_renewal_url :: "string option" \<comment> \<open>the event URL of the renewal loop, if one was spawned\<close>
  sp_poll_interval :: nat
  sp_config :: config

definition startup ::
  "env \<Rightarrow> config \<Rightarrow> string option \<Rightarrow> (string \<Rightarrow> string + string) \<Rightarrow> (world, (string, started_process) outcome) state"
where
  "startup env cfg datagram detect =
     try_bind (ret (ssdp_discover datagram)) (\<lambda>ssdp_url.
     try_bind (ret (resolve_gateway_url (cf_gateway_url cfg) ssdp_url)) (\<lambda>root_desc_url.
     let cfg = with_lan_ip detect root_desc_url cfg in
     try_bind (do { r \<leftarrow> discover_gateway env root_desc_url;
                    ret (map_err (\<lambda>_. ''Failed to discover gateway services'') r) }) (\<lambda>services.
     try_bind (ret (ok_or ''No WANIPConnection or WANPPPConnection found in rootDesc.xml'' (control_url services))) (\<lambda>control.
     let upnp = upnp_client_new control in
     try_bind (initial_external_ip env upnp) (\<lambda>_.
     try_bind (subscribe_gena env cfg (event_url services)) (\<lambda>gena_active. do {
       let poll_interval = (if gena_active then cf_poll_interval_secs cfg else cf_poll_interval_fast_secs cfg);
       new_contexts cfg;
       ret (Ok \<lparr>sp_root_url = root_desc_url, sp_upnp = upnp,
                sp_renewal_url = (if gena_active then event_url services else None),
                sp_poll_interval = poll_interval, sp_config = cfg\<rparr>)
     }))))))"

text \<open>
  The polling task begins with \<open>tokio::time::interval\<close>, which panics if the period is zero; so the task
  polls, at once and then after every period, if it is not.
\<close>

definition polls :: "started_process \<Rightarrow> bool" where
  "polls sp \<longleftrightarrow> sp_poll_interval sp \<noteq> 0"

section \<open>Polling and notifications\<close>

text \<open>The comparison with the current address and its update, under the write lock.\<close>

definition store_external_ip :: "string \<Rightarrow> (world, bool) state" where
  "store_external_ip ip = do {
     current \<leftarrow> gets (\<lambda>w. es_current_external_ip (w_eventing w));
     let changed = (current \<noteq> Some ip);
     (if changed then upd_metrics (\<lambda>m. m\<lparr>mt_wan_ip_changes := Suc (mt_wan_ip_changes m)\<rparr>) else ret ());
     set_external_ip ip;
     ret changed
   }"

definition push_to_dns :: "env \<Rightarrow> bool \<Rightarrow> string \<Rightarrow> (world, unit) state" where
  "push_to_dns env changed ip = do {
     active \<leftarrow> gets w_dns_active;
     (if changed \<and> active then update_all_managed env ip else ret ())
   }"

definition poll_tick :: "env \<Rightarrow> upnp_client \<Rightarrow> (world, (string, unit) outcome) state" where
  "poll_tick env upnp = do {
     r \<leftarrow> get_external_ip env upnp;
     (case r of
        Ok ip \<Rightarrow> do {
          changed \<leftarrow> store_external_ip ip;
          set_last_seen env;
          push_to_dns env changed ip;
          ret (Ok ())
        }
      | Err e \<Rightarrow> ret (Ok ())
      | Panicked \<Rightarrow> ret Panicked)
   }"

text \<open>The reply is the status code, 200 unless the body makes the handler panic.\<close>

definition handle_notify :: "env \<Rightarrow> string \<Rightarrow> (world, (string, nat) outcome) state" where
  "handle_notify env body =
     (case parse_notify_body body of
        Ok (Some ip) \<Rightarrow> do {
          changed \<leftarrow> store_external_ip ip;
          now \<leftarrow> read_instant env;
          upd_eventing (\<lambda>e. e\<lparr>es_last_notify := Some now\<rparr>);
          set_last_seen env;
          push_to_dns env changed ip;
          ret (Ok 200)
        }
      | Panicked \<Rightarrow> ret Panicked
      | _ \<Rightarrow> ret (Ok 200))"

text \<open>
  The metrics: \<open>encode\<close> is the text encoder of \<open>prometheus\<close> on the gathered registry, which writes bytes
  or fails; \<open>String::from_utf8\<close> refuses bytes that are not UTF-8. The reply is a status and a body.
\<close>

definition render :: "(metrics \<Rightarrow> string + string) \<Rightarrow> metrics \<Rightarrow> string + string" where
  "render encode m =
     (case encode m of
        Inl e \<Rightarrow> Inl e
      | Inr buffer \<Rightarrow> if valid_utf8 buffer then Inr buffer else Inl ''invalid utf-8 sequence'')"

definition handle_metrics :: "(metrics \<Rightarrow> string + string) \<Rightarrow> (world, nat \<times> string) state" where
  "handle_metrics encode = do {
     m \<leftarrow> gets w_metrics;
     ret (case render encode m of Inr body \<Rightarrow> (200, body) | Inl e \<Rightarrow> (500, e))
   }"

lemma handle_metrics_reads: "snd (run_state (handle_metrics encode) w) = w"
  by (simp add: handle_metrics_def)

definition shutdown :: "(world, unit) state" where
  "shutdown = modify (\<lambda>w. w\<lparr>w_shutting_down := True\<rparr>)"

section \<open>The process as a transition system\<close>

datatype event =
    Poll                          \<comment> \<open>a tick of the polling loop\<close>
  | Notified string               \<comment> \<open>a NOTIFY with this body\<close>
  | ApplyPm string port_mapping   \<comment> \<open>the finalizer's apply, with the namespace\<close>
  | CleanupPm port_mapping
  | VisitService service
  | VisitPod pod
  | VisitGateway gateway_status
  | VisitDns dns_endpoint
  | DnsController bool            \<comment> \<open>the DNSEndpoint controller started or stopped\<close>
  | RenewalRound                  \<comment> \<open>a round of the GENA renewal loop\<close>
  | Shutdown

definition gateway_context_of :: "started_process \<Rightarrow> gateway_context" where
  "gateway_context_of sp = \<lparr>gc_gateway_url = sp_root_url sp, gc_lan_ip = cf_lan_ip (sp_config sp)\<rparr>"

text \<open>The world after the handler of an event; a task that panics leaves its effects behind.\<close>

definition after :: "(world, 'a) state \<Rightarrow> world \<Rightarrow> world" where
  "after m w = snd (run_state m w)"

inductive sys_step :: "env \<Rightarrow> started_process \<Rightarrow> world \<Rightarrow> event \<Rightarrow> world \<Rightarrow> bool" for env sp where
  poll: "polls sp \<Longrightarrow> sys_step env sp w Poll (after (poll_tick env (sp_upnp sp)) w)"
| notified: "sys_step env sp w (Notified body) (after (handle_notify env body) w)"
| apply_pm: "sys_step env sp w (ApplyPm ns pm) (after (reconcile_apply env (sp_upnp sp) ns pm) w)"
| cleanup_pm: "sys_step env sp w (CleanupPm pm) (after (reconcile_cleanup env (sp_upnp sp) pm) w)"
| visit_service: "sys_step env sp w (VisitService svc) (after (reconcile_service env svc) w)"
| visit_pod: "sys_step env sp w (VisitPod p) (after (reconcile_pod env p) w)"
| visit_gateway: "sys_step env sp w (VisitGateway gs) (after (gateway_reconcile env (gateway_context_of sp) gs) w)"
| visit_dns: "sys_step env sp w (VisitDns ep) (after (dns_reconcile env ep) w)"
| dns_controller: "sys_step env sp w (DnsController b) (w\<lparr>w_dns_active := b\<rparr>)"
| renewal: "sp_renewal_url sp = Some url \<Longrightarrow> sys_step env sp w RenewalRound (after (renewal_tick env url 1800) w)"
| stop: "sys_step env sp w Shutdown (after shutdown w)"

inductive sys_run :: "env \<Rightarrow> started_process \<Rightarrow> world \<Rightarrow> event list \<Rightarrow> world \<Rightarrow> bool" for env sp where
  done_run: "sys_run env sp w [] w"
| more: "sys_step env sp w ev u \<Longrightarrow> sys_run env sp u evs v \<Longrightarrow> sys_run env sp w (ev # evs) v"

inductive_simps sys_step_poll: "sys_step env sp w Poll v"
inductive_simps sys_step_renewal [simp]: "sys_step env sp w RenewalRound v"
inductive_simps sys_step_stop [simp]: "sys_step env sp w Shutdown v"
inductive_cases sys_run_ConsE: "sys_run env sp w (ev # evs) v"

text \<open>What the process can get to from a successful start.\<close>

definition process_reaches :: "env \<Rightarrow> started_process \<Rightarrow> world \<Rightarrow> bool" where
  "process_reaches env sp w \<longleftrightarrow>
     (\<exists>cfg datagram detect w0 evs.
        run_state (startup env cfg datagram detect) (world_new ''127.0.0.1'') = (Ok sp, w0) \<and> sys_run env sp w0 evs w)"

end
