(* ===== verification/System_Facts.thy ===== *)
theory System_Facts
  imports Main_Loop
begin

text \<open>
  Invariants of the process. The locale \<open>system_frame\<close> collects what a relation on worlds must
  satisfy to be kept by every step of every task; each invariant is an interpretation of it.
\<close>

section \<open>Frames of the process\<close>

lemma state_io_rel_mono: "state_io_rel R m \<Longrightarrow> (\<And>w v. R w v \<Longrightarrow> S w v) \<Longrightarrow> state_io_rel S m"
  by (auto simp: state_io_rel_def)

context kube_frame
begin

lemma keeps_gateway: "state_io_rel R (gateway_reconcile env ctx gs)"
  unfolding gateway_reconcile_def by (intro kube_keeps)

lemma keeps_update_all: "state_io_rel R (update_all_managed env ip)"
  unfolding update_all_managed_def patch_targets_def Let_def by (intro kube_keeps)

lemma keeps_dns: "state_io_rel R (dns_reconcile env ep)"
  unfolding dns_reconcile_def patch_targets_def Let_def by (intro kube_keeps)

end

context world_frame
begin

lemma keeps_renewal:
  assumes "\<And>w s. R w (w\<lparr>w_eventing := (w_eventing w)\<lparr>es_subscription := s\<rparr>\<rparr>)"
  shows "state_io_rel R (renewal_tick env url ttl)"
proof -
  have "state_io_rel R (upd_eventing (\<lambda>e. e\<lparr>es_subscription := s\<rparr>))" for s
    using assms by (simp add: state_io_rel_def upd_eventing_def)
  then show ?thesis
    unfolding renewal_tick_def renew_subscription_def by (intro keeps)
qed

end

text \<open>A new address, from a poll or a notification, goes to the eventing state, the metrics and the DNSEndpoints.\<close>

locale address_frame = kube_frame R for R :: "world \<Rightarrow> world \<Rightarrow> bool" +
  assumes R_external_ip: "R w (w\<lparr>w_eventing := (w_eventing w)\<lparr>es_current_external_ip := Some ip\<rparr>\<rparr>)"
    and R_wan_ip_changes: "R w (w\<lparr>w_metrics := (w_metrics w)\<lparr>mt_wan_ip_changes := n\<rparr>\<rparr>)"
    and R_last_notify: "R w (w\<lparr>w_eventing := (w_eventing w)\<lparr>es_last_notify := Some t\<rparr>\<rparr>)"
begin

lemma keeps_address:
  "state_io_rel R (set_external_ip ip)" "state_io_rel R (set_last_seen env)"
  "state_io_rel R (store_external_ip ip)" "state_io_rel R (push_to_dns env changed ip)"
proof -
  show set: "state_io_rel R (set_external_ip ip)"
    by (simp add: set_external_ip_def state_io_rel_def upd_eventing_def R_external_ip)
  show "state_io_rel R (set_last_seen env)"
    unfolding set_last_seen_def by (intro kube_keeps)
  have count: "state_io_rel R (upd_metrics (\<lambda>m. m\<lparr>mt_wan_ip_changes := Suc (mt_wan_ip_changes m)\<rparr>))"
    by (simp add: state_io_rel_def upd_metrics_def R_wan_ip_changes)
  show "state_io_rel R (store_external_ip ip)"
    unfolding store_external_ip_def Let_def by (intro keeps_intros count set)
  show "state_io_rel R (push_to_dns env changed ip)"
    unfolding push_to_dns_def by (intro kube_keeps keeps_update_all)
qed

lemma keeps_notify: "state_io_rel R (handle_notify env body)"
proof -
  have "state_io_rel R (upd_eventing (\<lambda>e. e\<lparr>es_last_notify := Some t\<rparr>))" for t
    by (simp add: state_io_rel_def upd_eventing_def R_last_notify)
  then show ?thesis unfolding handle_notify_def by (intro kube_keeps keeps_address)
qed

lemma keeps_poll: "state_io_rel R (get_external_ip env upnp) \<Longrightarrow> state_io_rel R (poll_tick env upnp)"
  unfolding poll_tick_def by (intro kube_keeps keeps_address)

end

locale process_frame = world_frame R + address_frame R for R :: "world \<Rightarrow> world \<Rightarrow> bool"
begin

text \<open>The start, which creates the proxy manager and keeps the id of a subscription.\<close>

lemma keeps_startup:
  assumes "\<And>w lan_ip. R w (w\<lparr>w_proxies := new_manager lan_ip, w_shutting_down := False, w_dns_active := False\<rparr>)"
    and "\<And>w sid. R w (w\<lparr>w_subscription_id := Some sid\<rparr>)"
  shows "state_io_rel R (startup env cfg datagram detect)"
  unfolding startup_def new_contexts_def discover_gateway_def initial_external_ip_def subscribe_gena_def subscribe_def Let_def
  by (intro keeps keeps_upnp keeps_address keeps_modify assms)

end

locale system_frame = process_frame R for R :: "world \<Rightarrow> world \<Rightarrow> bool" +
  assumes R_service: "state_io_rel R (reconcile_service env svc)"
    and R_pod: "state_io_rel R (reconcile_pod env p)"
    and R_dns_active: "R w (w\<lparr>w_dns_active := b\<rparr>)"
    and R_shutdown: "R w (w\<lparr>w_shutting_down := True\<rparr>)"
    and R_renewal: "state_io_rel R (renewal_tick env url ttl)"
begin

lemma keeps_step: "sys_step env sp w ev v \<Longrightarrow> R w v"
  by (erule sys_step.cases)
    (use keeps_poll [OF keeps_upnp(3)] keeps_notify keeps_reconcile_apply keeps_reconcile_cleanup keeps_gateway keeps_dns
      R_service R_pod R_renewal R_dns_active R_shutdown in
      \<open>auto simp: state_io_rel_def after_def shutdown_def\<close>)

lemma keeps_run: "sys_run env sp w evs v \<Longrightarrow> R w v"
  by (induction rule: sys_run.induct) (auto intro: R_refl R_trans keeps_step)

end

section \<open>The invariants as frames\<close>

interpretation proxies_world: world_frame "\<lambda>w v. proxies_ok w \<longrightarrow> proxies_ok v"
  by unfold_locales (auto simp: proxies_ok_def)

interpretation sys_proxies: system_frame "\<lambda>w v. proxies_ok w \<longrightarrow> proxies_ok v"
  by unfold_locales
    (auto simp: proxies_ok_def intro: proxies_kept.keeps_watchers [unfolded proxies_ok_def]
      proxies_world.keeps_renewal [unfolded proxies_ok_def])

text \<open>The subscription of the eventing state is never set.\<close>

definition unsubscribed :: "world \<Rightarrow> bool" where
  "unsubscribed w \<longleftrightarrow> es_subscription (w_eventing w) = None"

lemma renewal_unsubscribed: "unsubscribed w \<Longrightarrow> run_state (renewal_tick env url ttl) w = ((), w)"
  by (simp add: unsubscribed_def renewal_tick_def)

interpretation sys_unsubscribed: system_frame "\<lambda>w v. unsubscribed w \<longrightarrow> unsubscribed v"
proof unfold_locales
  fix env svc p url ttl
  show "state_io_rel (\<lambda>w v. unsubscribed w \<longrightarrow> unsubscribed v) (reconcile_service env svc)"
    "state_io_rel (\<lambda>w v. unsubscribed w \<longrightarrow> unsubscribed v) (reconcile_pod env p)"
    by (rule state_io_rel_mono [OF watchers_eventing.keeps_watchers(1)] state_io_rel_mono [OF watchers_eventing.keeps_watchers(2)];
        simp add: same_eventing_def unsubscribed_def)+
  show "state_io_rel (\<lambda>w v. unsubscribed w \<longrightarrow> unsubscribed v) (renewal_tick env url ttl)"
    by (simp add: state_io_rel_def renewal_unsubscribed)
qed (auto simp: unsubscribed_def)

interpretation sys_grow: system_frame calls_grow
  by unfold_locales (auto simp: calls_grow_def intro: watchers_grow.keeps_watchers calls_grow.keeps_renewal)

text \<open>After the shutdown: nothing is written any more.\<close>

definition stopped_writing :: "world \<Rightarrow> world \<Rightarrow> bool" where
  "stopped_writing w v \<longleftrightarrow> (w_shutting_down w \<longrightarrow> w_shutting_down v \<and> published v = published w)"

interpretation stopped_frame: world_frame stopped_writing
  by unfold_locales (auto simp: stopped_writing_def published_def)

interpretation sys_stopped: system_frame stopped_writing
proof unfold_locales
  fix env svc p url ttl
  have shut: "run_state (reconcile_annotated env meta body) w = (Ok AwaitChange, w)" if "w_shutting_down w" for meta body w
    using that by (simp add: reconcile_annotated_def)
  show "state_io_rel stopped_writing (reconcile_service env svc)" "state_io_rel stopped_writing (reconcile_pod env p)"
    by (auto simp: state_io_rel_def stopped_writing_def reconcile_service_def reconcile_pod_def shut)
  show "state_io_rel stopped_writing (renewal_tick env url ttl)"
    by (rule stopped_frame.keeps_renewal) (simp add: stopped_writing_def published_def)
qed (auto simp: stopped_writing_def published_def)

text \<open>Only visits to Services and Pods write PortMappings, each for the object it visits.\<close>

definition same_published :: "world \<Rightarrow> world \<Rightarrow> bool" where
  "same_published w v \<longleftrightarrow> published v = published w"

interpretation published_kept: process_frame same_published
  by unfold_locales (auto simp: same_published_def published_def)

fun written_by :: "event \<Rightarrow> string \<times> string \<times> pm_manifest \<Rightarrow> bool" where
  "written_by (VisitService svc) m \<longleftrightarrow> written_for ''Service'' (svc_metadata svc) m"
| "written_by (VisitPod p) m \<longleftrightarrow> written_for ''Pod'' (pod_metadata p) m"
| "written_by _ m \<longleftrightarrow> False"

lemma step_writes_for_object:
  assumes "sys_step env sp w ev v"
  shows "writes_only (written_by ev) w v"
proof -
  have renewal: "state_io_rel same_published (renewal_tick env url ttl)" for url ttl
    by (rule published_kept.keeps_renewal) (simp add: same_published_def published_def)
  have quiet: "writes_only P w v" if "same_published w v" for P w v
    using that by (simp add: writes_only_def same_published_def)
  have flags: "same_published w (w\<lparr>w_dns_active := b\<rparr>)" "same_published w (w\<lparr>w_shutting_down := b\<rparr>)" for w b
    by (simp_all add: same_published_def published_def)
  have service: "writes_only (written_by (VisitService svc)) w (after (reconcile_service env svc) w)" for svc
    using visits_write(1) [of svc env] by (simp add: state_io_rel_def after_def writes_only_def)
  have pod: "writes_only (written_by (VisitPod p)) w (after (reconcile_pod env p) w)" for p
    using visits_write(2) [of p env] by (simp add: state_io_rel_def after_def writes_only_def)
  from assms show ?thesis
  proof (cases rule: sys_step.cases)
    case (visit_service svc)
    then show ?thesis using service by simp
  next
    case (visit_pod p)
    then show ?thesis using pod by simp
  qed (use published_kept.keeps_poll [OF published_kept.keeps_upnp(3)] published_kept.keeps_notify
        published_kept.keeps_reconcile_apply published_kept.keeps_reconcile_cleanup published_kept.keeps_gateway
        published_kept.keeps_dns renewal flags in
      \<open>auto intro!: quiet simp: state_io_rel_def after_def shutdown_def\<close>)
qed

lemma run_writes_for_object:
  assumes "sys_run env sp w evs v" and "m \<in> set (published v)"
  shows "m \<in> set (published w) \<or> (\<exists>ev \<in> set evs. written_by ev m)"
  using assms
proof (induction rule: sys_run.induct)
  case (more w ev u evs v)
  from step_writes_for_object [OF more.hyps(1)] obtain new where
    "published u = published w @ new" "\<forall>m \<in> set new. written_by ev m" by (auto simp: writes_only_def)
  with more show ?case by auto
qed simp

lemma startup_writes_nothing:
  assumes "run_state (startup env cfg datagram detect) (world_new ip) = (r, w)"
  shows "published w = []"
proof -
  have "state_io_rel same_published (startup env cfg datagram detect)"
    by (rule published_kept.keeps_startup) (simp_all add: same_published_def published_def)
  from state_io_relD [OF this assms] show ?thesis by (simp add: same_published_def published_def world_new_def)
qed

section \<open>The start\<close>

lemma run_try_bind_Ok:
  "run_state (try_bind m f) s = (Ok b, t) \<longleftrightarrow> (\<exists>a u. run_state m s = (Ok a, u) \<and> run_state (f a) u = (Ok b, t))"
  by (auto simp: run_try_bind split: prod.splits outcome.splits)

lemma startup_proxies:
  assumes "run_state (startup env cfg datagram detect) w = (Ok sp, w0)"
  shows "proxies_ok w0 \<and> \<not> w_shutting_down w0"
proof -
  have bind: "run_state (State_Monad.bind m f) s = (b, t) \<longleftrightarrow>
      (\<exists>a u. run_state m s = (a, u) \<and> run_state (f a) u = (b, t))" for m f s b t
    by (auto split: prod.splits)
  show ?thesis
    using assms by (auto simp: startup_def new_contexts_def run_try_bind_Ok bind Let_def proxies_ok_def simp del: run_state_bind)
qed

lemma startup_unsubscribed:
  "state_io_rel (\<lambda>w v. unsubscribed w \<longrightarrow> unsubscribed v) (startup env cfg datagram detect)"
  by (rule sys_unsubscribed.keeps_startup) (simp_all add: unsubscribed_def)

lemma reachable_invariants:
  assumes "process_reaches env sp w"
  shows "proxies_ok w" "unsubscribed w"
proof -
  from assms obtain cfg datagram detect w0 evs where
    start: "run_state (startup env cfg datagram detect) (world_new ''127.0.0.1'') = (Ok sp, w0)"
    and run: "sys_run env sp w0 evs w"
    by (auto simp: process_reaches_def)
  show "proxies_ok w" using sys_proxies.keeps_run [OF run] startup_proxies [OF start] by simp
  have "unsubscribed (world_new ''127.0.0.1'')"
    by (simp add: unsubscribed_def world_new_def eventing_state_new_def)
  moreover have "unsubscribed (world_new ''127.0.0.1'') \<longrightarrow> unsubscribed w0"
    using state_io_relD [OF startup_unsubscribed start] .
  ultimately have "unsubscribed w0" by simp
  with sys_unsubscribed.keeps_run [OF run] show "unsubscribed w" by simp
qed

section \<open>Properties of the process\<close>

text \<open>
  C1. Between handlers, in every state the process can reach when its handlers run one at a time, in any
  order and whatever the router, the API server and the operating system answer: the proxy tasks that
  have not been told to stop are exactly those of the table, one for each handle, with its port,
  target and protocol. (A task whose loop ended on an error of its socket has not been told to stop;
  calls that overlap are the subject of \<open>Proxy_Calls\<close>.)
\<close>

theorem process_leaks_no_proxy:
  assumes "process_reaches env sp w"
  shows "set (unstopped (w_proxies w)) = {task_of key h | key h. px_proxies (w_proxies w) key = Some h}"
  using reachable_invariants(1) [OF assms] by (simp add: proxies_ok_def unstopped_iff_table)

text \<open>
  C32. The renewal loop never renews: the id of the GENA subscription is kept where the loop does not
  look, so in every reachable state a round of the loop makes no call and changes nothing.
\<close>

theorem gena_never_renewed:
  assumes "process_reaches env sp w"
  shows "run_state (renewal_tick env url ttl) w = ((), w)"
  using reachable_invariants(2) [OF assms] by (rule renewal_unsubscribed)

text \<open>
  Once the shutdown has begun no PortMapping is written any more, whatever happens until the end
  of the process, and the flag stays.
\<close>

lemma nothing_written_after_shutdown:
  assumes "sys_run env sp w evs v" and "w_shutting_down w"
  shows "published v = published w \<and> w_shutting_down v"
  using sys_stopped.keeps_run [OF assms(1)] assms(2) by (simp add: stopped_writing_def)

text \<open>
  C24. Every PortMapping that the process writes, in any run from its start with its handlers one at a
  time, was written in a visit to a Service or Pod of that run and is well typed for that object: of the
  API version and kind of the resource, under the namespace of the object and its own name, labelled
  so that the watchers find it again, with one owner reference, which has API version v1, the kind
  Service or Pod of the object, its name and its uid and makes it the controller, and with the name
  that belongs to that object and to the external port and protocol in the spec.
\<close>

theorem written_mappings_well_typed:
  assumes "run_state (startup env cfg datagram detect) (world_new ip) = (Ok sp, w0)"
    and "sys_run env sp w0 evs w" and "(ns, name, mf) \<in> set (published w)"
  shows "\<exists>ev \<in> set evs. written_by ev (ns, name, mf)"
  using run_writes_for_object [OF assms(2,3)] startup_writes_nothing [OF assms(1)] by simp

text \<open>A gateway with one PPP service whose every answer carries a subscription id.\<close>

definition gena_env :: env where
  "gena_env = sample_env\<lparr>
     http_answer := (\<lambda>h rq. Inr \<lparr>rs_success = True, rs_status = ''200 OK'',
        rs_header = (\<lambda>_. Some (Inr ''uuid:1'')), rs_text = Inr ''''\<rparr>),
     xml_events := (\<lambda>_. [XmlStart ''service'', XmlStart ''serviceType'', XmlText (Some ''WANIPConnection''),
        XmlStart ''controlURL'', XmlText (Some ''/ctl''), XmlStart ''eventSubURL'', XmlText (Some ''/evt''),
        XmlEnd ''service''])\<rparr>"

definition gena_config :: config where
  "gena_config = from_env [''GATEWAY_URL'' \<mapsto> ''http://r/d'']"

definition gena_start :: "(string, started_process) outcome \<times> world" where
  "gena_start = run_state (startup gena_env gena_config None (\<lambda>_. Inr ''192.168.0.2'')) (world_new ''127.0.0.1'')"

lemma gena_services:
  "parse_root_desc gena_env '''' ''http://r'' ''http://r/d'' =
    Ok \<lparr>gs_root_url = ''http://r/d'', gs_wan_ip_control_url = Some ''http://r/ctl'', gs_wan_ip_event_url = Some ''http://r/evt'',
      gs_wan_ppp_control_url = None, gs_wan_ppp_event_url = None\<rparr>"
  by (simp add: parse_root_desc_def gena_env_def record_service_def absolute_def no_services_def str_contains_def Let_def)

lemma gena_answers [simp]:
  "http_answer gena_env h rq = Inr \<lparr>rs_success = True, rs_status = ''200 OK'',
     rs_header = (\<lambda>_. Some (Inr ''uuid:1'')), rs_text = Inr ''''\<rparr>"
  by (simp add: gena_env_def)

lemma gena_base: "base_url_from ''http://r/d'' = Ok ''http://r''"
  by (simp add: base_url_from_def str_from_def str_upto_def str_slice_def is_char_boundary_def is_cont_def byte_def)

lemma gena_config_simps: "cf_gateway_url gena_config = Some ''http://r/d''" "cf_gena_enabled gena_config"
  "cf_poll_interval_secs gena_config = 600"
  by (simp_all add: gena_config_def from_env_def)

lemma gena_starts:
  "\<exists>sp w. gena_start = (Ok sp, w) \<and> sp_renewal_url sp = Some ''http://r/evt'' \<and> w_subscription_id w = Some ''uuid:1'' \<and>
     w_proxies w = new_manager ''192.168.0.2'' \<and> \<not> w_shutting_down w \<and> polls sp"
proof -
  have lan: "with_lan_ip (\<lambda>_. Inr ''192.168.0.2'') ''http://r/d'' gena_config = gena_config\<lparr>cf_lan_ip := Some ''192.168.0.2''\<rparr>"
    by (simp add: with_lan_ip_def parse_host_def strip_prefix_str_def)
  show ?thesis
    by (simp add: gena_start_def startup_def new_contexts_def ssdp_discover_def resolve_gateway_url_def gena_config_simps lan
        discover_gateway_def gena_base run_try_bind http_send_def gena_services control_url_def event_url_def Let_def
        initial_external_ip_def get_external_ip_def soap_action_def soap_result_def no_ip_in_empty
        subscribe_gena_def subscribe_def subscribe_result_def upd_metrics_def polls_def)
qed

lemma gena_reaches:
  assumes "gena_start = (Ok sp, w)"
  shows "process_reaches gena_env sp w"
  using assms unfolding process_reaches_def gena_start_def by (blast intro: done_run)

theorem process_leaks_no_proxy_witness:
  "\<exists>sp w. gena_start = (Ok sp, w) \<and>
     set (unstopped (w_proxies w)) = {task_of key h | key h. px_proxies (w_proxies w) key = Some h}"
  using gena_starts gena_reaches process_leaks_no_proxy by blast

theorem gena_never_renewed_witness:
  "\<exists>sp w. gena_start = (Ok sp, w) \<and> sp_renewal_url sp = Some ''http://r/evt'' \<and> w_subscription_id w = Some ''uuid:1'' \<and>
     run_state (renewal_tick gena_env ''http://r/evt'' 1800) w = ((), w)"
  using gena_starts gena_reaches gena_never_renewed by blast

lemma nothing_written_after_shutdown_witness:
  "\<exists>sp v. sys_run sample_env sp (world_new ''192.168.0.2''\<lparr>w_shutting_down := True\<rparr>)
       [VisitService (sample_service (Some ''true'')), Notified []] v \<and> published v = []"
proof -
  let ?w = "world_new ''192.168.0.2''\<lparr>w_shutting_down := True\<rparr>"
  obtain sp v where run: "sys_run sample_env sp ?w [VisitService (sample_service (Some ''true'')), Notified []] v"
    by (meson done_run more notified visit_service)
  have "published ?w = []" by (simp add: published_def world_new_def)
  with nothing_written_after_shutdown [OF run] run show ?thesis by auto
qed

section \<open>A change of the address\<close>

definition current_ip :: "world \<Rightarrow> string option" where
  "current_ip w = es_current_external_ip (w_eventing w)"

definition address_stored :: "string \<Rightarrow> world \<Rightarrow> world" where
  "address_stored ip w =
     w\<lparr>w_metrics := (w_metrics w)\<lparr>mt_wan_ip_changes := mt_wan_ip_changes (w_metrics w) + (if current_ip w = Some ip then 0 else 1)\<rparr>,
       w_eventing := (w_eventing w)\<lparr>es_current_external_ip := Some ip\<rparr>\<rparr>"

lemma run_store_external_ip [simp]:
  "run_state (store_external_ip ip) w = (current_ip w \<noteq> Some ip, address_stored ip w)"
  by (simp add: store_external_ip_def set_external_ip_def upd_eventing_def upd_metrics_def Let_def
      address_stored_def current_ip_def)

lemma run_set_last_seen [simp]:
  "run_state (set_last_seen env) w = ((), seen env (utc_now env (w_calls w)) (log_call UtcNow w))"
  by (simp add: set_last_seen_def read_utc_def upd_metrics_def seen_def)

lemma run_push_to_dns:
  "run_state (push_to_dns env changed ip) w =
    ((), if changed \<and> w_dns_active w
         then w\<lparr>w_calls := w_calls w @ dns_push ip (list_dns_answer env (w_calls w) ListDnsEndpoints)\<rparr> else w)"
  by (simp add: push_to_dns_def run_update_all_managed)

text \<open>The calls a new address provokes.\<close>

definition address_calls :: "env \<Rightarrow> string \<Rightarrow> world \<Rightarrow> call list \<Rightarrow> call list" where
  "address_calls env ip w cs =
     cs @ (if current_ip w \<noteq> Some ip \<and> w_dns_active w
           then dns_push ip (list_dns_answer env (w_calls w @ cs) ListDnsEndpoints) else [])"

text \<open>
  A poll that gets an address stores it, counts a change exactly if it differs from the stored
  one, and then, if the DNSEndpoint controller runs, has every managed DNSEndpoint patched; without a
  change it makes no call to the API server.
\<close>

lemma poll_propagates_address:
  assumes answer: "and_then (soap_result (http_answer env (w_calls w) (ip_request upnp))) parse_external_ip = Ok ip"
    and run: "run_state (poll_tick env upnp) w = (r, v)"
  shows "r = Ok () \<and> current_ip v = Some ip \<and>
    mt_wan_ip_changes (w_metrics v) = mt_wan_ip_changes (w_metrics w) + (if current_ip w = Some ip then 0 else 1) \<and>
    w_calls v = w_calls w @ address_calls env ip w [Http (ip_request upnp), UtcNow]"
proof -
  have get: "run_state (get_external_ip env upnp) w = (Ok ip, log_call (Http (ip_request upnp)) w)"
    unfolding wp_eq_run [symmetric] by (simp add: wp_simps answer)
  from run show ?thesis
    by (auto simp: poll_tick_def get run_push_to_dns address_calls_def address_stored_def seen_def current_ip_def
        split: if_splits)
qed

text \<open>A notification with an address has the same effect as a poll that gets it, and is acknowledged.\<close>

lemma notification_propagates_address:
  assumes body: "parse_notify_body body = Ok (Some ip)"
    and run: "run_state (handle_notify env body) w = (r, v)"
  shows "r = Ok 200 \<and> current_ip v = Some ip \<and>
    mt_wan_ip_changes (w_metrics v) = mt_wan_ip_changes (w_metrics w) + (if current_ip w = Some ip then 0 else 1) \<and>
    w_calls v = w_calls w @ address_calls env ip w [InstantNow, UtcNow]"
  using run
  by (auto simp: handle_notify_def body read_instant_def upd_eventing_def run_push_to_dns address_calls_def
      address_stored_def seen_def current_ip_def split: if_splits)

definition moved_env :: env where
  "moved_env = sample_env\<lparr>
     http_answer := (\<lambda>h rq. Inr \<lparr>rs_success = True, rs_status = ''200 OK'', rs_header = (\<lambda>_. None),
        rs_text = Inr ''<NewExternalIPAddress>5.6.7.8</NewExternalIPAddress>''\<rparr>),
     list_dns_answer := (\<lambda>h c. Inr [sample_dns ''1.2.3.4''])\<rparr>"

lemma moved_answer: "parse_external_ip ''<NewExternalIPAddress>5.6.7.8</NewExternalIPAddress>'' = Ok ''5.6.7.8''"
  by (simp add: parse_external_ip_def extract_xml_value_def open_tag_def close_tag_def str_slice_def
      is_char_boundary_def is_cont_def byte_def)

lemma poll_propagates_address_witness:
  "w_calls (snd (run_state (poll_tick moved_env (upnp_client_new ''u'')) (world_new ''ip''\<lparr>w_dns_active := True\<rparr>))) =
     [Http (ip_request (upnp_client_new ''u'')), UtcNow, Kube ListDnsEndpoints, dns_patch ''5.6.7.8'' (sample_dns ''1.2.3.4'')]"
proof -
  have answer: "and_then (soap_result (http_answer moved_env h rq)) parse_external_ip = Ok ''5.6.7.8''" for h rq
    using moved_answer by (simp add: moved_env_def soap_result_def)
  have "is_managed (sample_dns t)" for t by (simp add: is_managed_def annotation_def sample_dns_def)
  then show ?thesis
    using poll_propagates_address [OF answer prod.collapse [symmetric], of "upnp_client_new ''u''" "world_new ''ip''\<lparr>w_dns_active := True\<rparr>"]
    by (simp add: address_calls_def current_ip_def world_new_def eventing_state_new_def dns_push_def moved_env_def)
qed

lemma notification_propagates_address_witness:
  "w_calls (snd (run_state (handle_notify moved_env ''<NewExternalIPAddress>5.6.7.8</NewExternalIPAddress>'')
       (world_new ''ip''\<lparr>w_dns_active := True\<rparr>))) =
     [InstantNow, UtcNow, Kube ListDnsEndpoints, dns_patch ''5.6.7.8'' (sample_dns ''1.2.3.4'')]"
proof -
  have "trim ''5.6.7.8'' = ''5.6.7.8''" by (rule trim_visible) (simp_all add: visible_def byte_def)
  then have body: "parse_notify_body ''<NewExternalIPAddress>5.6.7.8</NewExternalIPAddress>'' = Ok (Some ''5.6.7.8'')"
    by (simp add: parse_notify_body_def notify_tag_def open_tag_def close_tag_def str_slice_def
      is_char_boundary_def is_cont_def byte_def)
  have "is_managed (sample_dns t)" for t by (simp add: is_managed_def annotation_def sample_dns_def)
  then show ?thesis
    using notification_propagates_address [OF body prod.collapse [symmetric], of moved_env "world_new ''ip''\<lparr>w_dns_active := True\<rparr>"]
    by (simp add: address_calls_def current_ip_def world_new_def eventing_state_new_def dns_push_def moved_env_def)
qed


section \<open>The address that is published\<close>

text \<open>
  The address under which the proxies are published (the internal host of every PortMapping) is the
  one the operating system uses to reach the gateway's host; where that is not found out, because the
  URL has no host or a socket call fails, it is the loopback address, which no router can forward to.
\<close>

lemma startup_lan_ip:
  assumes "run_state (startup env (from_env getenv) datagram (detect_lan_ip os)) w = (Ok sp, w0)"
  shows "px_lan_ip (w_proxies w0) =
    (case parse_host (sp_root_url sp) of
       None \<Rightarrow> ''127.0.0.1''
     | Some host \<Rightarrow>
         (case detect_lan_ip os host of Inr ip \<Rightarrow> ip | Inl e \<Rightarrow> ''127.0.0.1''))"
proof -
  have bind: "run_state (State_Monad.bind m f) s = (b, t) \<longleftrightarrow>
      (\<exists>a u. run_state m s = (a, u) \<and> run_state (f a) u = (b, t))" for m f s b t
    by (auto split: prod.splits)
  have lan: "px_lan_ip (new_manager ip) = ip" for ip by (simp add: new_manager_def)
  have env: "cf_lan_ip (from_env getenv) = None" by (simp add: from_env_def)
  have "w_proxies w0 = new_manager (unwrap_or ''127.0.0.1'' (cf_lan_ip (with_lan_ip (detect_lan_ip os) (sp_root_url sp) (from_env getenv))))"
    using assms by (auto simp: startup_def new_contexts_def run_try_bind_Ok bind Let_def simp del: run_state_bind)
  then show ?thesis
    by (simp add: lan with_lan_ip_def env split: option.splits sum.splits)
qed

definition no_route :: udp_os where
  "no_route = \<lparr>uo_bind = Inr 0, uo_connect = (\<lambda>_ _. Inl ''Network is unreachable''), uo_local_ip = (\<lambda>_ _. Inr ''10.0.0.9'')\<rparr>"

lemma startup_lan_ip_witness:
  "\<exists>sp w. run_state (startup gena_env (from_env [''GATEWAY_URL'' \<mapsto> ''http://r/d'']) None (detect_lan_ip no_route)) (world_new ''127.0.0.1'') = (Ok sp, w) \<and>
     px_lan_ip (w_proxies w) = ''127.0.0.1''"
proof -
  have lan: "with_lan_ip (detect_lan_ip no_route) ''http://r/d'' gena_config = gena_config"
    by (simp add: with_lan_ip_def parse_host_def strip_prefix_str_def detect_lan_ip_def no_route_def)
  obtain sp w where run: "run_state (startup gena_env gena_config None (detect_lan_ip no_route)) (world_new ''127.0.0.1'') = (Ok sp, w)"
    by (simp add: startup_def new_contexts_def ssdp_discover_def resolve_gateway_url_def gena_config_simps lan
        discover_gateway_def gena_base run_try_bind http_send_def gena_services control_url_def event_url_def Let_def
        initial_external_ip_def get_external_ip_def soap_action_def soap_result_def no_ip_in_empty
        subscribe_gena_def subscribe_def subscribe_result_def upd_metrics_def)
  from startup_lan_ip [OF run [unfolded gena_config_def]] run show ?thesis
    by (simp add: gena_config_def detect_lan_ip_def no_route_def split: option.splits)
qed

section \<open>A well-typed PortMapping is written\<close>

text \<open>The process started above visits a Service, and writes one mapping.\<close>

lemma sample_visit:
  assumes "os_binds env = next_port_bind" and "\<And>h c. list_pm_answer env h c = Inr []" and "\<And>h c. kube_answer env h c = Inr ()"
    and "w_proxies w = new_manager ip" and "\<not> w_shutting_down w"
  shows "\<exists>v. run_state (reconcile_service env (sample_service (Some ''true''))) w = (Ok (Requeue 60), v) \<and>
    published v = published w @ [(''prod'', desired_name (service_owner (sample_service (Some ''true''))) (80, 80, Tcp),
      desired_manifest (service_owner (sample_service (Some ''true''))) ip (80, 80, Tcp) 1)] \<and>
    serves_w v (desired_name (service_owner (sample_service (Some ''true''))) (80, 80, Tcp)) \<noteq> None"
proof -
  have ports: "parse_service_annotation ''true'' (service_ports_of (sample_service (Some ''true''))) = [(80, 80, Tcp)]"
    "cluster_ip_of (sample_service (Some ''true'')) = ''10.0.0.1''" "fo_ns (service_owner (sample_service (Some ''true''))) = ''prod''"
    by (simp_all add: sample_service_def service_ports_of_def parse_service_annotation_def parse_k8s_protocol_def cluster_ip_of_def
        service_owner_def sample_meta_def namespace_or_default_def)
  have start: "run_state (start_desired env ow d) (log_call c w) =
      (Ok 1, (log_call c w)\<lparr>w_proxies := started (desired_name ow d) (desired_target ow d)
         (desired_protocol d) 1 (count_bind (new_manager ip))\<rparr>)" for ow d c
    by (rule start_sample) (simp_all add: assms)
  have lan: "px_lan_ip (new_manager ip) = ip" by (simp add: new_manager_def)
  have published: "published (w\<lparr>w_proxies := p\<rparr>) = published w" for w p by (simp add: published_def)
  show ?thesis
    by (simp add: reconcile_service_def reconcile_annotated_def run_try_bind run_list_owned Let_def ports assms
        forward_ports_def start run_publish delete_stale_def lan published list_query_def serves_w_def flip: owned_of_def)
qed

theorem written_mappings_well_typed_witness:
  "\<exists>sp w v mf. gena_start = (Ok sp, w) \<and> sys_run gena_env sp w [VisitService (sample_service (Some ''true''))] v \<and>
     (''prod'', ''prod-web-80-tcp'', mf) \<in> set (published v) \<and>
     written_for ''Service'' (sample_meta (Some ''true'')) (''prod'', ''prod-web-80-tcp'', mf)"
proof -
  obtain sp w where start: "gena_start = (Ok sp, w)" "w_proxies w = new_manager ''192.168.0.2''" "\<not> w_shutting_down w"
    using gena_starts by blast
  let ?ow = "service_owner (sample_service (Some ''true''))"
  let ?v = "after (reconcile_service gena_env (sample_service (Some ''true''))) w"
  have name: "desired_name ?ow (80, 80, Tcp) = ''prod-web-80-tcp''"
    by (simp add: desired_name_def service_owner_def sample_service_def sample_meta_def namespace_or_default_def
        pm_name_for_owner_def show_u16_def show_nat.simps digit_char_def char_of_eq_iff)
  have run: "sys_run gena_env sp w [VisitService (sample_service (Some ''true''))] ?v"
    by (rule more [OF visit_service done_run])
  have "published ?v = published w @ [(''prod'', desired_name ?ow (80, 80, Tcp), desired_manifest ?ow ''192.168.0.2'' (80, 80, Tcp) 1)]"
    using sample_visit [of gena_env w "''192.168.0.2''"] start by (auto simp: after_def gena_env_def sample_env_def)
  then have mem: "(''prod'', ''prod-web-80-tcp'', desired_manifest ?ow ''192.168.0.2'' (80, 80, Tcp) 1) \<in> set (published ?v)"
    by (simp add: name)
  from written_mappings_well_typed [OF start(1) [unfolded gena_start_def] run mem] mem run start(1) show ?thesis
    by (auto simp: sample_service_def)
qed

section \<open>An interval of zero\<close>

text \<open>
  An interval of 0 seconds is accepted from the environment; the start succeeds, but the polling task
  panics before its first poll, so the address is never refreshed.
\<close>

lemma zero_interval_never_polls:
  assumes "getenv ''GENA_ENABLED'' = Some ''false''" and "getenv ''POLL_INTERVAL_FAST_SECS'' = Some ''0''"
    and "run_state (startup env (from_env getenv) datagram detect) w = (Ok sp, w0)"
  shows "\<not> sys_step env' sp v Poll u"
proof -
  have zero: "parse_u64 ''0'' = Some 0" by (simp add: str_eval)
  have off: "\<not> cf_gena_enabled (with_lan_ip detect url (from_env getenv))"
    "cf_poll_interval_fast_secs (with_lan_ip detect url (from_env getenv)) = 0" for url
    using assms(1,2) by (auto simp: with_lan_ip_def from_env_def zero split: option.splits sum.splits)
  have bind: "run_state (State_Monad.bind m f) s = (b, t) \<longleftrightarrow>
      (\<exists>a u. run_state m s = (a, u) \<and> run_state (f a) u = (b, t))" for m f s b t
    by (auto split: prod.splits)
  have "\<not> polls sp"
    using assms(3) by (auto simp: startup_def run_try_bind_Ok bind Let_def subscribe_gena_def off polls_def simp del: run_state_bind)
  then show ?thesis by (simp add: sys_step_poll)
qed

end
