(* ===== verification/Event_Systems.thy ===== *)
theory Event_Systems
  imports Main
begin

text \<open>
  Tasks that react to events. The code of a task is a partial function \<open>step\<close> from an event and a
  state to the next state (\<open>None\<close> where the event cannot happen), and a run is a list of events.
  The locales carry invariants, invariants about the history, and refinement maps to a
  specification over runs; the data planes of the proxies and the interleaved calls of the proxy
  manager interpret them.
\<close>

section \<open>Runs\<close>

primrec run_events :: "('e \<Rightarrow> 's \<Rightarrow> 's option) \<Rightarrow> 'e list \<Rightarrow> 's \<Rightarrow> 's option" where
  "run_events step [] s = Some s"
| "run_events step (e # es) s = (case step e s of None \<Rightarrow> None | Some t \<Rightarrow> run_events step es t)"

lemma run_events_append:
  "run_events step (es @ fs) s = (case run_events step es s of None \<Rightarrow> None | Some t \<Rightarrow> run_events step fs t)"
  by (induction es arbitrary: s) (auto split: option.splits)

lemma run_events_snoc:
  "run_events step (es @ [e]) s = Some u \<longleftrightarrow> (\<exists>t. run_events step es s = Some t \<and> step e t = Some u)"
  by (auto simp: run_events_append split: option.splits)

lemma run_events_ConsE:
  assumes "run_events step (e # es) s = Some u"
  obtains t where "step e s = Some t" "run_events step es t = Some u"
  using assms by (auto split: option.splits)

text \<open>Runs of a specification, a relation labelled by what can be observed.\<close>

inductive spec_run :: "('a \<Rightarrow> 'l \<Rightarrow> 'a \<Rightarrow> bool) \<Rightarrow> 'a \<Rightarrow> 'l list \<Rightarrow> 'a \<Rightarrow> bool" for R where
  spec_nil [intro!, simp]: "spec_run R a [] a"
| spec_step: "R a l b \<Longrightarrow> spec_run R b ls c \<Longrightarrow> spec_run R a (l # ls) c"

inductive_simps spec_run_Nil [simp]: "spec_run R a [] b"
inductive_simps spec_run_Cons [simp]: "spec_run R a (l # ls) b"

lemma spec_run_append: "spec_run R a ls b \<Longrightarrow> spec_run R b ms c \<Longrightarrow> spec_run R a (ls @ ms) c"
  by (induction rule: spec_run.induct) (auto intro: spec_step)

text \<open>A specification satisfies a property of its histories if every step keeps it.\<close>

lemma spec_run_history:
  assumes "spec_run R a ls b" and "H ms a"
    and "\<And>ms a l b. H ms a \<Longrightarrow> R a l b \<Longrightarrow> H (ms @ [l]) b"
  shows "H (ms @ ls) b"
  using assms(1,2)
proof (induction arbitrary: ms rule: spec_run.induct)
  case (spec_step a l b ls c)
  from spec_step.IH [OF assms(3) [OF spec_step.prems spec_step.hyps(1)]] show ?case by simp
qed simp

section \<open>Invariants and refinement\<close>

locale history_invariant =
  fixes step :: "'e \<Rightarrow> 's \<Rightarrow> 's option"
    and H :: "'e list \<Rightarrow> 's \<Rightarrow> bool"
  assumes H_step: "H es s \<Longrightarrow> step e s = Some t \<Longrightarrow> H (es @ [e]) t"
begin

lemma H_run: "H es s \<Longrightarrow> run_events step fs s = Some t \<Longrightarrow> H (es @ fs) t"
proof (induction fs arbitrary: es s)
  case (Cons f fs)
  from Cons.prems(2) obtain u where "step f s = Some u" "run_events step fs u = Some t"
    by (rule run_events_ConsE)
  from Cons.IH [OF H_step [OF Cons.prems(1) this(1)] this(2)] show ?case by simp
qed simp

lemma H_reach: "H [] s \<Longrightarrow> run_events step fs s = Some t \<Longrightarrow> H fs t"
  using H_run [of "[]"] by simp

end

locale step_invariant =
  fixes step :: "'e \<Rightarrow> 's \<Rightarrow> 's option"
    and inv :: "'s \<Rightarrow> bool"
  assumes inv_step: "inv s \<Longrightarrow> step e s = Some t \<Longrightarrow> inv t"

sublocale step_invariant \<subseteq> history: history_invariant step "\<lambda>es. inv"
  by unfold_locales (rule inv_step)

context step_invariant
begin

lemma inv_run: "inv s \<Longrightarrow> run_events step es s = Some t \<Longrightarrow> inv t"
  using history.H_run [of s es t] by simp

end

text \<open>
  A refinement map: the state is viewed as one of the specification, every event as a list of its
  labels, and under the invariant each step is a run of the specification.
\<close>

primrec run_labels :: "('e \<Rightarrow> 's \<Rightarrow> 's option) \<Rightarrow> ('e \<Rightarrow> 's \<Rightarrow> 'l list) \<Rightarrow> 'e list \<Rightarrow> 's \<Rightarrow> 'l list" where
  "run_labels step lab [] s = []"
| "run_labels step lab (e # es) s =
     lab e s @ (case step e s of None \<Rightarrow> [] | Some t \<Rightarrow> run_labels step lab es t)"

locale refinement_map = step_invariant step inv
  for step :: "'e \<Rightarrow> 's \<Rightarrow> 's option" and inv :: "'s \<Rightarrow> bool" +
  fixes view :: "'s \<Rightarrow> 'a"
    and lab :: "'e \<Rightarrow> 's \<Rightarrow> 'l list"
    and spec :: "'a \<Rightarrow> 'l \<Rightarrow> 'a \<Rightarrow> bool"
  assumes simulates: "inv s \<Longrightarrow> step e s = Some t \<Longrightarrow> spec_run spec (view s) (lab e s) (view t)"
begin

lemma refines: "inv s \<Longrightarrow> run_events step es s = Some t \<Longrightarrow> spec_run spec (view s) (run_labels step lab es s) (view t)"
proof (induction es arbitrary: s)
  case (Cons e es)
  from Cons.prems(2) obtain u where u: "step e s = Some u" "run_events step es u = Some t"
    by (rule run_events_ConsE)
  have "spec_run spec (view u) (run_labels step lab es u) (view t)"
    using Cons.IH inv_step Cons.prems(1) u by blast
  with simulates [OF Cons.prems(1) u(1)] u(1) show ?case by (simp add: spec_run_append)
qed simp

end

end
