(* ===== verification/Tcp_Relay.thy ===== *)
theory Tcp_Relay
  imports Event_Systems "HOL-Library.Sublist"
begin

text \<open>
  The TCP proxy of \<open>src/proxy.rs\<close>: \<open>run_tcp_proxy\<close>, which accepts connections until it is stopped or
  \<open>accept\<close> fails, and \<open>proxy_tcp_connection\<close>, one task for each connection, which connects to the
  target, splits the two sockets into their halves, starts two copies over them and \<open>select!\<close>s on the
  copies. Log lines are left out.

  \<open>tokio::io::copy\<close> is code of another library. Nothing is defined for it: each time one of the copies
  runs, what it does is an event, with whatever it reads from the half it was given as its reader,
  whatever it writes to the half it was given as its writer, and whatever it returns. What the
  library documents of it is the hypothesis \<open>copies\<close>, of the theorems that need it.
\<close>

section \<open>A connection\<close>

type_synonym bytes = string

text \<open>
  A connected TCP socket: what its peer has sent and has arrived, how much of that was read, whether
  the peer has closed its sending side, and what was written to the peer.
\<close>

record stream =
  sk_arrived :: bytes
  sk_taken :: nat
  sk_closed :: bool
  sk_written :: bytes

text \<open>The two sockets of a connection, and its two copies.\<close>

datatype side = Inbound | Outbound

datatype direction = ClientToServer | ServerToClient

datatype conn_phase =
    Connecting                 \<comment> \<open>in \<open>TcpStream::connect(target)\<close>\<close>
  | Relaying                   \<comment> \<open>in \<open>select!\<close> over the two copies\<close>
  | Done direction             \<comment> \<open>this copy ended first: \<open>Ok(())\<close>\<close>
  | Failed                     \<comment> \<open>an error of the connect or of a copy\<close>

record tcp_conn =
  tc_target :: string
  tc_phase :: conn_phase
  tc_stream :: "side \<Rightarrow> stream"

definition no_traffic :: stream where
  "no_traffic = \<lparr>sk_arrived = [], sk_taken = 0, sk_closed = False, sk_written = []\<rparr>"

definition conn_new :: "string \<Rightarrow> tcp_conn" where
  "conn_new target = \<lparr>tc_target = target, tc_phase = Connecting, tc_stream = (\<lambda>_. no_traffic)\<rparr>"

text \<open>
  The socket whose read half (\<open>ri\<close>, \<open>ro\<close>) a copy was given as its reader, and the one whose write
  half (\<open>wi\<close>, \<open>wo\<close>) as its writer: \<open>io::copy(&mut ri, &mut wo)\<close> and \<open>io::copy(&mut ro, &mut wi)\<close>.
\<close>

fun copy_halves :: "direction \<Rightarrow> side \<times> side" where
  "copy_halves ClientToServer = (Inbound, Outbound)"
| "copy_halves ServerToClient = (Outbound, Inbound)"

text \<open>A poll of a copy: what it read, whether it saw the end of its reader, what it wrote, what it returned.\<close>

datatype copy_result = Pending | ReadyOk | ReadyErr

type_synonym copy_poll = "bytes \<times> bool \<times> bytes \<times> copy_result"

datatype conn_event =
    Connected bool
  | Arrived side bytes
  | PeerClosed side
  | Polled direction copy_poll

text \<open>A socket gives what has arrived, in order, and the end only after all of it.\<close>

definition stream_gives :: "stream \<Rightarrow> bytes \<Rightarrow> bool \<Rightarrow> bool" where
  "stream_gives k got eof \<longleftrightarrow>
     prefix got (drop (sk_taken k) (sk_arrived k)) \<and>
     (eof \<longrightarrow> sk_closed k \<and> got = drop (sk_taken k) (sk_arrived k))"

definition upd_stream :: "side \<Rightarrow> (stream \<Rightarrow> stream) \<Rightarrow> tcp_conn \<Rightarrow> tcp_conn" where
  "upd_stream sd f k = k\<lparr>tc_stream := (tc_stream k)(sd := f (tc_stream k sd))\<rparr>"

text \<open>The sockets that are open: the client's from the beginning, the target's after the connect.\<close>

definition is_open :: "side \<Rightarrow> tcp_conn \<Rightarrow> bool" where
  "is_open sd k \<longleftrightarrow> tc_phase k = Relaying \<or> tc_phase k = Connecting \<and> sd = Inbound"

text \<open>
  The task of a connection. The first copy that returns ends \<open>select!\<close>, which drops the other one,
  and the task; the sockets are closed with it.
\<close>

fun proxy_tcp_connection :: "conn_event \<Rightarrow> tcp_conn \<Rightarrow> tcp_conn option" where
  "proxy_tcp_connection (Connected ok) k =
     (if tc_phase k = Connecting then Some (k\<lparr>tc_phase := (if ok then Relaying else Failed)\<rparr>) else None)"
| "proxy_tcp_connection (Arrived sd bs) k =
     (if is_open sd k \<and> \<not> sk_closed (tc_stream k sd)
      then Some (upd_stream sd (\<lambda>x. x\<lparr>sk_arrived := sk_arrived x @ bs\<rparr>) k) else None)"
| "proxy_tcp_connection (PeerClosed sd) k =
     (if is_open sd k then Some (upd_stream sd (\<lambda>x. x\<lparr>sk_closed := True\<rparr>) k) else None)"
| "proxy_tcp_connection (Polled dir (got, eof, put, result)) k =
     (case copy_halves dir of
        (reader, writer) \<Rightarrow>
          if tc_phase k = Relaying \<and> stream_gives (tc_stream k reader) got eof
          then let k = upd_stream reader (\<lambda>x. x\<lparr>sk_taken := sk_taken x + length got\<rparr>) k;
                   k = upd_stream writer (\<lambda>x. x\<lparr>sk_written := sk_written x @ put\<rparr>) k
               in Some (case result of
                    Pending \<Rightarrow> k
                  | ReadyOk \<Rightarrow> k\<lparr>tc_phase := Done dir\<rparr>
                  | ReadyErr \<Rightarrow> k\<lparr>tc_phase := Failed\<rparr>)
          else None)"

section \<open>The listener\<close>

record tcp_proxy =
  tp_target :: string
  tp_accepting :: bool
  tp_conns :: "tcp_conn list"

definition tcp_new :: "string \<Rightarrow> tcp_proxy" where
  "tcp_new target = \<lparr>tp_target = target, tp_accepting = True, tp_conns = []\<rparr>"

datatype tcp_event =
    Accepted
  | AcceptError
  | StopSignal
  | OnConn nat conn_event      \<comment> \<open>in the task of a connection, by the order of their acceptance\<close>

fun run_tcp_proxy :: "tcp_event \<Rightarrow> tcp_proxy \<Rightarrow> tcp_proxy option" where
  "run_tcp_proxy Accepted p =
     (if tp_accepting p then Some (p\<lparr>tp_conns := tp_conns p @ [conn_new (tp_target p)]\<rparr>) else None)"
| "run_tcp_proxy AcceptError p = (if tp_accepting p then Some (p\<lparr>tp_accepting := False\<rparr>) else None)"
| "run_tcp_proxy StopSignal p = (if tp_accepting p then Some (p\<lparr>tp_accepting := False\<rparr>) else None)"
| "run_tcp_proxy (OnConn i ev) p =
     (if i < length (tp_conns p)
      then map_option (\<lambda>k. p\<lparr>tp_conns := (tp_conns p)[i := k]\<rparr>) (proxy_tcp_connection ev (tp_conns p ! i))
      else None)"

abbreviation tcp_run :: "tcp_event list \<Rightarrow> tcp_proxy \<Rightarrow> tcp_proxy option" where
  "tcp_run \<equiv> run_events run_tcp_proxy"

section \<open>What is known of a copy\<close>

text \<open>
  The documentation of \<open>tokio::io::copy\<close>, of all that one copy did in its life: it writes what it has
  read, in order; when it returns \<open>Ok\<close> it has seen the end of the reader and has written everything.
  It is a condition on the copy alone, in terms of its own reader and writer.
\<close>

definition copies :: "copy_poll list \<Rightarrow> bool" where
  "copies ps \<longleftrightarrow>
     prefix (concat (map (\<lambda>(got, eof, put, res). put) ps)) (concat (map (\<lambda>(got, eof, put, res). got) ps)) \<and>
     (ReadyOk \<in> set (map (\<lambda>(got, eof, put, res). res) ps) \<longrightarrow>
        True \<in> set (map (\<lambda>(got, eof, put, res). eof) ps) \<and>
        concat (map (\<lambda>(got, eof, put, res). put) ps) = concat (map (\<lambda>(got, eof, put, res). got) ps))"

text \<open>What a peer sent to a connection, and what a copy of it did.\<close>

fun conn_input :: "side \<Rightarrow> conn_event \<Rightarrow> bytes" where
  "conn_input sd (Arrived sd' bs) = (if sd' = sd then bs else [])"
| "conn_input sd _ = []"

fun conn_polls :: "direction \<Rightarrow> conn_event \<Rightarrow> copy_poll list" where
  "conn_polls dir (Polled dir' poll) = (if dir' = dir then [poll] else [])"
| "conn_polls dir _ = []"

fun on_conn :: "nat \<Rightarrow> tcp_event \<Rightarrow> conn_event list" where
  "on_conn i (OnConn j e) = (if j = i then [e] else [])"
| "on_conn i _ = []"

definition events_of :: "nat \<Rightarrow> tcp_event list \<Rightarrow> conn_event list" where
  "events_of i evs = concat (map (on_conn i) evs)"

definition sent_by :: "side \<Rightarrow> conn_event list \<Rightarrow> bytes" where
  "sent_by sd evs = concat (map (conn_input sd) evs)"

definition polls_of :: "direction \<Rightarrow> conn_event list \<Rightarrow> copy_poll list" where
  "polls_of dir evs = concat (map (conn_polls dir) evs)"

lemma events_of_snoc [simp]: "events_of i (evs @ [e]) = events_of i evs @ on_conn i e"
  by (simp add: events_of_def)

lemma sent_by_snoc [simp]: "sent_by sd (evs @ [e]) = sent_by sd evs @ conn_input sd e"
  by (simp add: sent_by_def)

lemma polls_of_snoc [simp]: "polls_of dir (evs @ [e]) = polls_of dir evs @ conn_polls dir e"
  by (simp add: polls_of_def)

abbreviation got_by :: "direction \<Rightarrow> conn_event list \<Rightarrow> bytes" where
  "got_by dir evs \<equiv> concat (map (\<lambda>(got, eof, put, res). got) (polls_of dir evs))"

abbreviation put_by :: "direction \<Rightarrow> conn_event list \<Rightarrow> bytes" where
  "put_by dir evs \<equiv> concat (map (\<lambda>(got, eof, put, res). put) (polls_of dir evs))"

abbreviation results_of :: "direction \<Rightarrow> conn_event list \<Rightarrow> copy_result set" where
  "results_of dir evs \<equiv> set (map (\<lambda>(got, eof, put, res). res) (polls_of dir evs))"

abbreviation eofs_of :: "direction \<Rightarrow> conn_event list \<Rightarrow> bool set" where
  "eofs_of dir evs \<equiv> set (map (\<lambda>(got, eof, put, res). eof) (polls_of dir evs))"

section \<open>The invariant of a connection\<close>

text \<open>
  Whatever the copies do: what a copy got is what was taken from its reader, what it put is what was
  written to its writer, and a copy that has returned has ended the connection.
\<close>

definition taken_of :: "stream \<Rightarrow> bytes" where
  "taken_of x = take (sk_taken x) (sk_arrived x)"

definition reader_ok :: "stream \<Rightarrow> bytes \<Rightarrow> bytes \<Rightarrow> bool set \<Rightarrow> bool" where
  "reader_ok x sent got eofs \<longleftrightarrow>
     sk_arrived x = sent \<and> sk_taken x \<le> length sent \<and> got = take (sk_taken x) sent \<and>
     (True \<in> eofs \<longrightarrow> sk_closed x \<and> sk_taken x = length sent)"

definition conn_ok :: "conn_event list \<Rightarrow> tcp_conn \<Rightarrow> bool" where
  "conn_ok evs k \<longleftrightarrow>
     reader_ok (tc_stream k Inbound) (sent_by Inbound evs) (got_by ClientToServer evs) (eofs_of ClientToServer evs) \<and>
     reader_ok (tc_stream k Outbound) (sent_by Outbound evs) (got_by ServerToClient evs) (eofs_of ServerToClient evs) \<and>
     sk_written (tc_stream k Outbound) = put_by ClientToServer evs \<and>
     sk_written (tc_stream k Inbound) = put_by ServerToClient evs \<and>
     (\<forall>dir. tc_phase k = Done dir \<longrightarrow> ReadyOk \<in> results_of dir evs) \<and>
     (\<forall>dir. results_of dir evs \<inter> {ReadyOk, ReadyErr} \<noteq> {} \<longrightarrow> tc_phase k \<noteq> Connecting \<and> tc_phase k \<noteq> Relaying)"

lemma reader_ok_takes:
  assumes "reader_ok x sent got eofs" and "stream_gives x bs eof"
  shows "reader_ok (x\<lparr>sk_taken := sk_taken x + length bs\<rparr>) sent (got @ bs) (insert eof eofs)"
proof -
  from assms obtain zs where zs: "drop (sk_taken x) sent = bs @ zs"
    by (auto simp: stream_gives_def reader_ok_def prefix_def)
  have "sk_taken x + length bs \<le> length sent"
  proof -
    have "length (drop (sk_taken x) sent) = length bs + length zs" by (simp add: zs)
    moreover have "sk_taken x \<le> length sent" using assms(1) by (simp add: reader_ok_def)
    ultimately show ?thesis by simp
  qed
  moreover have "take (sk_taken x + length bs) sent = take (sk_taken x) sent @ bs"
    by (simp add: take_add zs)
  moreover have "sk_taken x + length bs = length sent" if "eof"
    using that assms by (auto simp: stream_gives_def reader_ok_def)
  moreover have "bs = []" if "True \<in> eofs"
    using that assms(1) zs by (simp add: reader_ok_def)
  ultimately show ?thesis using assms by (auto simp: stream_gives_def reader_ok_def)
qed

lemma reader_ok_arrives:
  "reader_ok x sent got eofs \<Longrightarrow> \<not> sk_closed x \<Longrightarrow>
   reader_ok (x\<lparr>sk_arrived := sk_arrived x @ bs\<rparr>) (sent @ bs) got eofs"
  by (auto simp: reader_ok_def)

lemma reader_ok_closed: "reader_ok x sent got eofs \<Longrightarrow> reader_ok (x\<lparr>sk_closed := True\<rparr>) sent got eofs"
  by (auto simp: reader_ok_def)

lemma reader_ok_written: "reader_ok (x\<lparr>sk_written := w\<rparr>) sent got eofs \<longleftrightarrow> reader_ok x sent got eofs"
  by (simp add: reader_ok_def)

lemma conn_ok_new: "conn_ok [] (conn_new target)"
  by (simp add: conn_ok_def conn_new_def no_traffic_def reader_ok_def sent_by_def polls_of_def)

lemma conn_ok_step:
  assumes ok: "conn_ok evs k" and step: "proxy_tcp_connection e k = Some k'"
  shows "conn_ok (evs @ [e]) k' \<and> tc_target k' = tc_target k"
proof (cases e)
  case (Polled dir poll)
  obtain got eof put res where poll: "poll = (got, eof, put, res)" by (cases poll)
  show ?thesis
    using ok step
    by (cases dir; cases res)
      (auto simp: Polled poll conn_ok_def upd_stream_def Let_def reader_ok_takes reader_ok_written split: if_splits)
next
  case (Arrived sd bs)
  with step have k': "k' = upd_stream sd (\<lambda>x. x\<lparr>sk_arrived := sk_arrived x @ bs\<rparr>) k" and "\<not> sk_closed (tc_stream k sd)"
    by (auto split: if_splits)
  with ok show ?thesis
    by (cases sd) (simp_all add: Arrived conn_ok_def upd_stream_def reader_ok_arrives)
next
  case (PeerClosed sd)
  with step have k': "k' = upd_stream sd (\<lambda>x. x\<lparr>sk_closed := True\<rparr>) k" by (auto split: if_splits)
  with ok show ?thesis
    by (cases sd) (simp_all add: PeerClosed conn_ok_def upd_stream_def reader_ok_closed)
next
  case (Connected b)
  with step have "tc_phase k = Connecting" "k' = k\<lparr>tc_phase := (if b then Relaying else Failed)\<rparr>"
    by (auto split: if_splits)
  with ok show ?thesis by (auto simp: Connected conn_ok_def)
qed

text \<open>A connection whose task has returned does nothing more.\<close>

lemma conn_ended: "tc_phase k \<noteq> Connecting \<Longrightarrow> tc_phase k \<noteq> Relaying \<Longrightarrow> proxy_tcp_connection e k = None"
  by (cases "(e, k)" rule: proxy_tcp_connection.cases) (auto simp: is_open_def split: prod.splits)

interpretation tcp_streams: history_invariant run_tcp_proxy
  "\<lambda>evs p. tp_target p = target \<and>
     (\<forall>i < length (tp_conns p). conn_ok (events_of i evs) (tp_conns p ! i) \<and> tc_target (tp_conns p ! i) = target) \<and>
     (\<forall>i \<ge> length (tp_conns p). events_of i evs = [])" for target
proof (unfold_locales, elim conjE)
  fix evs p e q
  assume t: "tp_target p = target"
    and ok: "\<forall>i < length (tp_conns p). conn_ok (events_of i evs) (tp_conns p ! i) \<and> tc_target (tp_conns p ! i) = target"
    and none: "\<forall>i \<ge> length (tp_conns p). events_of i evs = []"
    and step: "run_tcp_proxy e p = Some q"
  show "tp_target q = target \<and>
     (\<forall>i < length (tp_conns q). conn_ok (events_of i (evs @ [e])) (tp_conns q ! i) \<and> tc_target (tp_conns q ! i) = target) \<and>
     (\<forall>i \<ge> length (tp_conns q). events_of i (evs @ [e]) = [])"
  proof (cases e)
    case Accepted
    moreover have "tc_target (conn_new target) = target" by (simp add: conn_new_def)
    ultimately show ?thesis using step t ok none conn_ok_new
      by (auto simp: nth_append less_Suc_eq split: if_splits)
  next
    case (OnConn j ev)
    with step obtain k where j: "j < length (tp_conns p)" and k: "proxy_tcp_connection ev (tp_conns p ! j) = Some k"
      and q: "q = p\<lparr>tp_conns := (tp_conns p)[j := k]\<rparr>"
      by (auto split: if_splits)
    have "conn_ok (events_of j evs @ [ev]) k" "tc_target k = target"
      using conn_ok_step [OF _ k, of "events_of j evs"] ok j by simp_all
    then show ?thesis
      using t ok none j by (auto simp: q OnConn nth_list_update)
  qed (use step t ok none in \<open>auto split: if_splits\<close>)
qed

lemma tcp_streams_ok:
  assumes "tcp_run evs (tcp_new target) = Some p" and "i < length (tp_conns p)"
  shows "conn_ok (events_of i evs) (tp_conns p ! i) \<and> tc_target (tp_conns p ! i) = target"
  using tcp_streams.H_reach [of "tcp_new target" target evs p] assms by (simp add: tcp_new_def events_of_def)

text \<open>One direction: a copy that does what is documented, over a reader that is a socket.\<close>

lemma direction_faithful:
  assumes "reader_ok x sent (got_by dir evs) (eofs_of dir evs)" and "copies (polls_of dir evs)"
  shows "prefix (put_by dir evs) sent"
    and "ReadyOk \<in> results_of dir evs \<Longrightarrow> sk_closed x \<and> put_by dir evs = sent"
proof -
  have put: "prefix (put_by dir evs) (got_by dir evs)"
    and complete: "ReadyOk \<in> results_of dir evs \<Longrightarrow> True \<in> eofs_of dir evs \<and> put_by dir evs = got_by dir evs"
    using assms(2) unfolding copies_def by blast+
  have got: "got_by dir evs = take (sk_taken x) sent"
    and eof: "True \<in> eofs_of dir evs \<Longrightarrow> sk_closed x \<and> sk_taken x = length sent"
    using assms(1) unfolding reader_ok_def by blast+
  show "prefix (put_by dir evs) sent"
    using put take_is_prefix [of "sk_taken x" sent] unfolding got by (rule prefix_order.order_trans)
  assume ready: "ReadyOk \<in> results_of dir evs"
  from complete [OF ready] eof have "sk_closed x" "sk_taken x = length sent" "put_by dir evs = got_by dir evs" by blast+
  then show "sk_closed x \<and> put_by dir evs = sent" by (simp add: got)
qed

text \<open>
  C11. A TCP connection through the proxy is a pair of faithful streams, if its two copies do what
  \<open>tokio\<close> documents of \<open>io::copy\<close>, each from its own reader to its own writer: the proxy connects to its
  target; at every moment what was written to the target is a prefix of what the client sent, and
  what was written to the client is a prefix of what the target sent, byte for byte and in order,
  whatever happens on other connections. If the connection ended because one of the copies was
  complete, that peer has closed its sending side and everything it sent has been passed on. And as
  soon as one of the copies has returned, complete or with an error, the connection is over: its task
  does nothing more.
\<close>

theorem tcp_relays_streams:
  assumes "tcp_run evs (tcp_new target) = Some p" and "i < length (tp_conns p)"
    and "\<And>dir. copies (polls_of dir (events_of i evs))"
  shows "tc_target (tp_conns p ! i) = target \<and>
    prefix (sk_written (tc_stream (tp_conns p ! i) Outbound)) (sent_by Inbound (events_of i evs)) \<and>
    prefix (sk_written (tc_stream (tp_conns p ! i) Inbound)) (sent_by Outbound (events_of i evs)) \<and>
    (tc_phase (tp_conns p ! i) = Done ClientToServer \<longrightarrow>
       sk_closed (tc_stream (tp_conns p ! i) Inbound) \<and>
       sk_written (tc_stream (tp_conns p ! i) Outbound) = sent_by Inbound (events_of i evs)) \<and>
    (tc_phase (tp_conns p ! i) = Done ServerToClient \<longrightarrow>
       sk_closed (tc_stream (tp_conns p ! i) Outbound) \<and>
       sk_written (tc_stream (tp_conns p ! i) Inbound) = sent_by Outbound (events_of i evs)) \<and>
    (\<forall>dir got eof put result ev. Polled dir (got, eof, put, result) \<in> set (events_of i evs) \<and> result \<noteq> Pending \<longrightarrow>
       run_tcp_proxy (OnConn i ev) p = None)"
proof -
  note ok = tcp_streams_ok [OF assms(1,2)]
  have over: "run_tcp_proxy (OnConn i ev) p = None"
    if "Polled dir (got, eof, put, result) \<in> set (events_of i evs)" "result \<noteq> Pending" for dir got eof put result ev
  proof -
    have "(got, eof, put, result) \<in> set (polls_of dir (events_of i evs))"
      using that(1) by (force simp: polls_of_def)
    then have "result \<in> results_of dir (events_of i evs)" by force
    moreover have "result \<in> {ReadyOk, ReadyErr}" using that(2) by (cases result) auto
    ultimately have "results_of dir (events_of i evs) \<inter> {ReadyOk, ReadyErr} \<noteq> {}" by blast
    with ok have "tc_phase (tp_conns p ! i) \<noteq> Connecting \<and> tc_phase (tp_conns p ! i) \<noteq> Relaying"
      unfolding conn_ok_def by blast
    then show ?thesis by (simp add: conn_ended)
  qed
  let ?k = "tp_conns p ! i" and ?evs = "events_of i evs"
  from ok have readers: "reader_ok (tc_stream ?k Inbound) (sent_by Inbound ?evs) (got_by ClientToServer ?evs) (eofs_of ClientToServer ?evs)"
      "reader_ok (tc_stream ?k Outbound) (sent_by Outbound ?evs) (got_by ServerToClient ?evs) (eofs_of ServerToClient ?evs)"
    and written: "sk_written (tc_stream ?k Outbound) = put_by ClientToServer ?evs"
      "sk_written (tc_stream ?k Inbound) = put_by ServerToClient ?evs"
    and ended: "tc_phase ?k = Done dir \<Longrightarrow> ReadyOk \<in> results_of dir ?evs" and "tc_target ?k = target" for dir
    unfolding conn_ok_def by blast+
  with direction_faithful [OF readers(1) assms(3)] direction_faithful [OF readers(2) assms(3)] over show ?thesis
    unfolding written by blast
qed

section \<open>The end of connections\<close>

lemma conn_stays_ended:
  "tcp_run evs p = Some q \<Longrightarrow> i < length (tp_conns p) \<Longrightarrow> tc_phase (tp_conns p ! i) \<noteq> Connecting \<Longrightarrow>
   tc_phase (tp_conns p ! i) \<noteq> Relaying \<Longrightarrow> tp_conns q ! i = tp_conns p ! i"
proof (induction evs arbitrary: p)
  case (Cons e evs)
  from Cons.prems(1) obtain u where u: "run_tcp_proxy e p = Some u" "tcp_run evs u = Some q"
    by (rule run_events_ConsE)
  have "i < length (tp_conns u) \<and> tp_conns u ! i = tp_conns p ! i"
    using u(1) Cons.prems(2-4)
    by (cases e) (auto simp: nth_append nth_list_update conn_ended split: if_splits)
  with Cons.IH [OF u(2)] Cons.prems(3,4) show ?case by simp
qed simp

text \<open>
  The proxy does not keep half-closed connections: when the client has finished sending and all of
  it has been passed on, the copy of that direction returns, and from then on nothing more of the
  target's answer reaches the client, not even what has already arrived.
\<close>

lemma tcp_half_close_cuts_reply:
  assumes "i < length (tp_conns p)" and "tc_phase (tp_conns p ! i) = Relaying"
    and "stream_gives (tc_stream (tp_conns p ! i) Inbound) [] True"
  shows "\<exists>q. run_tcp_proxy (OnConn i (Polled ClientToServer ([], True, [], ReadyOk))) p = Some q \<and>
    (\<forall>later r. tcp_run later q = Some r \<longrightarrow>
       sk_written (tc_stream (tp_conns r ! i) Inbound) = sk_written (tc_stream (tp_conns p ! i) Inbound))"
proof -
  obtain k where k: "proxy_tcp_connection (Polled ClientToServer ([], True, [], ReadyOk)) (tp_conns p ! i) = Some k"
    "tc_phase k = Done ClientToServer" "sk_written (tc_stream k Inbound) = sk_written (tc_stream (tp_conns p ! i) Inbound)"
    using assms(2,3) by (simp add: upd_stream_def Let_def)
  let ?q = "p\<lparr>tp_conns := (tp_conns p)[i := k]\<rparr>"
  have "run_tcp_proxy (OnConn i (Polled ClientToServer ([], True, [], ReadyOk))) p = Some ?q" using assms(1) k(1) by simp
  moreover have "tp_conns r ! i = k" if "tcp_run later ?q = Some r" for later r
    using conn_stays_ended [OF that, of i] assms(1) k(2) by simp
  ultimately show ?thesis using k(3) by (intro exI [of _ ?q]) auto
qed

text \<open>
  A stopped proxy accepts no connection, but the connections it has are not touched by the stop:
  each of them can do exactly what it could do without it, for as long as its ends keep it open.
\<close>

lemma tcp_connections_outlive_stop:
  assumes "run_tcp_proxy StopSignal p = Some q" and "tcp_run later q = Some r"
  shows "length (tp_conns r) = length (tp_conns p) \<and> \<not> tp_accepting r \<and>
    (\<exists>r'. tcp_run later p = Some r' \<and> tp_conns r' = tp_conns r)"
proof -
  have q: "q = p\<lparr>tp_accepting := False\<rparr>" using assms(1) by (auto split: if_splits)
  have "length (tp_conns r) = length (tp_conns q) \<and> \<not> tp_accepting r \<and>
     (\<forall>b. tcp_run later (q\<lparr>tp_accepting := b\<rparr>) = Some (r\<lparr>tp_accepting := b\<rparr>))"
    if "tcp_run later q = Some r" "\<not> tp_accepting q" for q
    using that
  proof (induction later arbitrary: q)
    case (Cons e later)
    from Cons.prems(1) obtain u where u: "run_tcp_proxy e q = Some u" "tcp_run later u = Some r"
      by (rule run_events_ConsE)
    then obtain j ev where e: "e = OnConn j ev" using Cons.prems(2) by (cases e) auto
    with u(1) Cons.prems(2) have "\<not> tp_accepting u" "length (tp_conns u) = length (tp_conns q)"
      "run_tcp_proxy e (q\<lparr>tp_accepting := b\<rparr>) = Some (u\<lparr>tp_accepting := b\<rparr>)" for b
      by (auto split: if_splits)
    with Cons.IH [OF u(2)] show ?case by simp
  qed simp
  moreover have "\<not> tp_accepting q" by (simp add: q)
  ultimately have stopped: "length (tp_conns r) = length (tp_conns q)" "\<not> tp_accepting r"
    "\<forall>b. tcp_run later (q\<lparr>tp_accepting := b\<rparr>) = Some (r\<lparr>tp_accepting := b\<rparr>)"
    using assms(2) by blast+
  from stopped(1,2) have r: "length (tp_conns r) = length (tp_conns p)" "\<not> tp_accepting r" by (simp_all add: q)
  from stopped(3) have "tcp_run later (q\<lparr>tp_accepting := tp_accepting p\<rparr>) = Some (r\<lparr>tp_accepting := tp_accepting p\<rparr>)" ..
  moreover have "q\<lparr>tp_accepting := tp_accepting p\<rparr> = p" by (simp add: q)
  ultimately have "tcp_run later p = Some (r\<lparr>tp_accepting := tp_accepting p\<rparr>)" by simp
  with r(1,2) show ?thesis by (intro conjI exI [of _ "r\<lparr>tp_accepting := tp_accepting p\<rparr>"]) simp_all
qed

section \<open>A run\<close>

text \<open>A request and the beginning of the answer; the client has closed its side after the request.\<close>

definition request_events :: "tcp_event list" where
  "request_events =
     [Accepted, OnConn 0 (Connected True), OnConn 0 (Arrived Inbound ''GET''),
      OnConn 0 (Polled ClientToServer (''GET'', False, ''GET'', Pending)), OnConn 0 (Arrived Outbound ''200 OK''),
      OnConn 0 (Polled ServerToClient (''200 OK'', False, ''200'', Pending)), OnConn 0 (PeerClosed Inbound)]"

definition request_proxy :: tcp_proxy where
  "request_proxy =
     \<lparr>tp_target = ''10.0.0.1:80'', tp_accepting = True,
      tp_conns = [\<lparr>tc_target = ''10.0.0.1:80'', tc_phase = Relaying,
        tc_stream = (\<lambda>_. no_traffic)
          (Inbound := \<lparr>sk_arrived = ''GET'', sk_taken = 3, sk_closed = True, sk_written = ''200''\<rparr>,
           Outbound := \<lparr>sk_arrived = ''200 OK'', sk_taken = 6, sk_closed = False, sk_written = ''GET''\<rparr>)\<rparr>]\<rparr>"

lemma request_run: "tcp_run request_events (tcp_new ''10.0.0.1:80'') = Some request_proxy"
  by (simp add: request_events_def request_proxy_def tcp_new_def conn_new_def no_traffic_def upd_stream_def
      is_open_def stream_gives_def Let_def fun_upd_twist eval_nat_numeral)

lemma request_polls:
  "polls_of dir (events_of 0 request_events) =
     (case dir of ClientToServer \<Rightarrow> [(''GET'', False, ''GET'', Pending)] | ServerToClient \<Rightarrow> [(''200 OK'', False, ''200'', Pending)])"
  by (cases dir) (simp_all add: polls_of_def events_of_def request_events_def)

theorem tcp_relays_streams_witness:
  "sent_by Outbound (events_of 0 request_events) = ''200 OK'' \<and>
   prefix (sk_written (tc_stream (tp_conns request_proxy ! 0) Inbound)) ''200 OK''"
proof -
  have "copies (polls_of dir (events_of 0 request_events))" for dir
    by (cases dir) (simp_all add: request_polls copies_def)
  from tcp_relays_streams [OF request_run _ this] show ?thesis
    by (simp add: request_proxy_def request_events_def events_of_def sent_by_def)
qed

lemma tcp_half_close_cuts_reply_witness:
  "\<exists>q. run_tcp_proxy (OnConn 0 (Polled ClientToServer ([], True, [], ReadyOk))) request_proxy = Some q \<and>
     (\<forall>later r. tcp_run later q = Some r \<longrightarrow> sk_written (tc_stream (tp_conns r ! 0) Inbound) = ''200'')"
  using tcp_half_close_cuts_reply [of 0 request_proxy] by (simp add: request_proxy_def stream_gives_def)

lemma tcp_connections_outlive_stop_witness:
  "\<exists>r'. tcp_run [OnConn 0 (Polled ServerToClient ([], False, '' OK'', Pending))] request_proxy = Some r' \<and>
     sk_written (tc_stream (tp_conns r' ! 0) Inbound) = ''200 OK''"
proof -
  have stop: "run_tcp_proxy StopSignal request_proxy = Some (request_proxy\<lparr>tp_accepting := False\<rparr>)"
    by (simp add: request_proxy_def)
  obtain r where r: "tcp_run [OnConn 0 (Polled ServerToClient ([], False, '' OK'', Pending))]
      (request_proxy\<lparr>tp_accepting := False\<rparr>) = Some r"
    "sk_written (tc_stream (tp_conns r ! 0) Inbound) = ''200 OK''"
    by (simp add: request_proxy_def stream_gives_def upd_stream_def)
  from tcp_connections_outlive_stop [OF stop r(1)] r(2) show ?thesis by (metis (no_types))
qed

end
