(* ===== verification/Socket_Addr.thy ===== *)
theory Socket_Addr
  imports Rust_Str_Facts
begin

text \<open>
  \<open>std::net::SocketAddr\<close> and its \<open>FromStr\<close>, as far as the UDP proxy needs it: \<open>target.parse()\<close>
  decides whether a datagram is forwarded. The parser of the standard library reads from the left
  and gives back what it read when an alternative fails, so a reader is a function from the rest
  of the input to a value and the new rest.
\<close>

section \<open>Readers\<close>

type_synonym u8 = "8 word"
type_synonym 'a reader = "string \<Rightarrow> ('a \<times> string) option"

datatype socket_addr =
    SocketAddrV4 "u8 list" u16          \<comment> \<open>four octets, port\<close>
  | SocketAddrV6 "u16 list" u32 u16     \<comment> \<open>eight groups, scope id, port\<close>

definition read_given_char :: "char \<Rightarrow> unit reader" where
  "read_given_char c s = (case s of [] \<Rightarrow> None | x # r \<Rightarrow> if x = c then Some ((), r) else None)"

definition then_read :: "'a reader \<Rightarrow> ('a \<Rightarrow> 'b reader) \<Rightarrow> 'b reader" where
  "then_read p f s = (case p s of None \<Rightarrow> None | Some (a, r) \<Rightarrow> f a r)"

definition to_digit :: "nat \<Rightarrow> char \<Rightarrow> nat option" where
  "to_digit radix c =
     (let b = byte c;
          d = (if 48 \<le> b \<and> b \<le> 57 then Some (b - 48)
               else if 97 \<le> b \<and> b \<le> 122 then Some (b - 87)
               else if 65 \<le> b \<and> b \<le> 90 then Some (b - 55) else None)
      in case d of None \<Rightarrow> None | Some v \<Rightarrow> if v < radix then Some v else None)"

fun number_value :: "nat \<Rightarrow> nat \<Rightarrow> string \<Rightarrow> nat" where
  "number_value radix acc [] = acc"
| "number_value radix acc (c # s) =
     number_value radix (acc * radix + (case to_digit radix c of None \<Rightarrow> 0 | Some d \<Rightarrow> d)) s"

text \<open>
  \<open>read_number(radix, max_digits, allow_zero_prefix)\<close> for a type with largest value \<open>mx\<close>: all digits
  that follow, at least one, at most \<open>max_digits\<close> if that is given, with a value that fits.
\<close>

definition read_number :: "nat \<Rightarrow> nat option \<Rightarrow> bool \<Rightarrow> nat \<Rightarrow> nat reader" where
  "read_number radix max_digits zero_prefix mx s =
     (let ds = takeWhile (\<lambda>c. to_digit radix c \<noteq> None) s;
          v = number_value radix 0 ds
      in if ds = [] \<or> (case max_digits of None \<Rightarrow> False | Some m \<Rightarrow> m < length ds) \<or> mx < v \<or>
            (\<not> zero_prefix \<and> hd ds = CHR ''0'' \<and> 1 < length ds)
         then None else Some (v, drop (length ds) s))"

definition read_separator :: "char \<Rightarrow> nat \<Rightarrow> 'a reader \<Rightarrow> 'a reader" where
  "read_separator sep index p =
     (if index = 0 then p else then_read (read_given_char sep) (\<lambda>_. p))"

section \<open>Addresses\<close>

fun read_octets :: "nat \<Rightarrow> nat \<Rightarrow> u8 list reader" where
  "read_octets 0 i s = Some ([], s)"
| "read_octets (Suc n) i s =
     then_read (read_separator (CHR ''.'') i (read_number 10 (Some 3) False 255))
       (\<lambda>o'. then_read (read_octets n (Suc i)) (\<lambda>os r. Some (of_nat o' # os, r))) s"

definition read_ipv4_addr :: "u8 list reader" where
  "read_ipv4_addr = read_octets 4 0"

definition v4_groups :: "u8 list \<Rightarrow> u16 list" where
  "v4_groups os = [ucast (os ! 0) * 256 + ucast (os ! 1), ucast (os ! 2) * 256 + ucast (os ! 3)]"

text \<open>\<open>read_groups\<close> with \<open>n\<close> groups to go, the first of them with index \<open>i\<close>: the groups, and
  whether the last two are an IPv4 address.\<close>

fun read_groups :: "nat \<Rightarrow> nat \<Rightarrow> string \<Rightarrow> u16 list \<times> bool \<times> string" where
  "read_groups 0 i s = ([], False, s)"
| "read_groups (Suc n) i s =
     (case (if 0 < n then read_separator (CHR '':'') i read_ipv4_addr s else None) of
        Some (os, r) \<Rightarrow> (v4_groups os, True, r)
      | None \<Rightarrow>
          (case read_separator (CHR '':'') i (read_number 16 (Some 4) True 65535) s of
             Some (g, r) \<Rightarrow> (let (gs, v4, r') = read_groups n (Suc i) r in (of_nat g # gs, v4, r'))
           | None \<Rightarrow> ([], False, s)))"

definition read_ipv6_addr :: "u16 list reader" where
  "read_ipv6_addr s =
     (let (head, head_ipv4, r) = read_groups 8 0 s in
      if length head = 8 then Some (head, r)
      else if head_ipv4 then None
      else then_read (read_given_char (CHR '':'')) (\<lambda>_. then_read (read_given_char (CHR '':'')) (\<lambda>_ r'.
             let (tail, _, r'') = read_groups (8 - (length head + 1)) 0 r'
             in Some (head @ replicate (8 - length head - length tail) 0 @ tail, r''))) r)"

definition read_scope_id :: "u32 reader" where
  "read_scope_id =
     then_read (read_given_char (CHR ''%'')) (\<lambda>_. then_read (read_number 10 None True (2 ^ 32 - 1))
       (\<lambda>v r. Some (of_nat v, r)))"

definition read_port :: "u16 reader" where
  "read_port =
     then_read (read_given_char (CHR '':'')) (\<lambda>_. then_read (read_number 10 None True (2 ^ 16 - 1))
       (\<lambda>v r. Some (of_nat v, r)))"

definition read_socket_addr_v4 :: "socket_addr reader" where
  "read_socket_addr_v4 =
     then_read read_ipv4_addr (\<lambda>ip. then_read read_port (\<lambda>port r. Some (SocketAddrV4 ip port, r)))"

definition read_socket_addr_v6 :: "socket_addr reader" where
  "read_socket_addr_v6 =
     then_read (read_given_char (CHR ''['')) (\<lambda>_. then_read read_ipv6_addr (\<lambda>ip s.
       let (scope, s') = (case read_scope_id s of None \<Rightarrow> (0, s) | Some x \<Rightarrow> x)
       in then_read (read_given_char (CHR '']'')) (\<lambda>_. then_read read_port (\<lambda>port r.
            Some (SocketAddrV6 ip scope port, r))) s'))"

text \<open>\<open>str::parse::<SocketAddr>\<close>: one of the two forms, with nothing left over.\<close>

definition parse_socket_addr :: "string \<Rightarrow> socket_addr option" where
  "parse_socket_addr s =
     (case (case read_socket_addr_v4 s of None \<Rightarrow> read_socket_addr_v6 s | Some x \<Rightarrow> Some x) of
        None \<Rightarrow> None
      | Some (addr, r) \<Rightarrow> if r = [] then Some addr else None)"


section \<open>What is read back\<close>

lemma then_read_Some [simp]: "p s = Some (a, r) \<Longrightarrow> then_read p f s = f a r"
  by (simp add: then_read_def)

lemma read_given_char_simps [simp]:
  "read_given_char c (x # r) = (if x = c then Some ((), r) else None)" "read_given_char c [] = None"
  by (simp_all add: read_given_char_def)

definition show_ipv4 :: "u8 list \<Rightarrow> string" where
  "show_ipv4 os = join_char (CHR ''.'') (map (\<lambda>v. show_nat (unat v)) os)"

lemma to_digit_10: "to_digit 10 c = digit_val c"
  by (auto simp: to_digit_def digit_val_def Let_def)

lemma digit_byte_to_digit: "digit_byte c \<longleftrightarrow> to_digit 10 c \<noteq> None"
  by (auto simp: to_digit_10 digit_val_def digit_byte_def)

lemma number_value_append: "number_value radix acc (s @ t) = number_value radix (number_value radix acc s) t"
  by (induction s arbitrary: acc) auto

lemma number_value_show [simp]: "number_value 10 0 (show_nat n) = n"
proof (induction n rule: show_nat.induct)
  case (1 n)
  then show ?case
    by (subst show_nat.simps) (auto simp: number_value_append to_digit_10)
qed

lemma takeWhile_show:
  assumes "r = [] \<or> \<not> digit_byte (hd r)"
  shows "takeWhile (\<lambda>c. to_digit 10 c \<noteq> None) (show_nat n @ r) = show_nat n"
proof -
  have "\<forall>c \<in> set (show_nat n). to_digit 10 c \<noteq> None"
    using show_nat_digits digit_byte_to_digit by blast
  then show ?thesis
    using assms by (cases r) (auto simp: takeWhile_append2 digit_byte_to_digit)
qed

lemma show_nat_no_zero: "10 \<le> n \<Longrightarrow> hd (show_nat n) \<noteq> CHR ''0''"
proof (induction n rule: show_nat.induct)
  case (1 n)
  show ?case
  proof (cases "n < 100")
    case True
    with 1(2) have d: "1 \<le> n div 10" "n div 10 < 10" by auto
    with 1(2) have "hd (show_nat n) = digit_char (n div 10)"
      by (simp add: show_nat.simps [of n] show_nat.simps [of "n div 10"])
    moreover have "byte (digit_char (n div 10)) \<noteq> byte (CHR ''0'')"
      unfolding byte_digit_char [OF d(2)] using d(1) by (simp add: byte_def)
    ultimately show ?thesis by auto
  next
    case False
    with 1 show ?thesis by (simp add: show_nat.simps [of n])
  qed
qed

lemma show_nat_length: "n < 10 \<Longrightarrow> length (show_nat n) = 1"
  "n < 100 \<Longrightarrow> length (show_nat n) \<le> 2" "n < 1000 \<Longrightarrow> length (show_nat n) \<le> 3"
proof -
  show 1: "n < 10 \<Longrightarrow> length (show_nat n) = 1" for n by (simp add: show_nat.simps)
  show 2: "n < 100 \<Longrightarrow> length (show_nat n) \<le> 2" for n using 1 [of "n div 10"] by (simp add: show_nat.simps [of n])
  show "n < 1000 \<Longrightarrow> length (show_nat n) \<le> 3" using 2 [of "n div 10"] by (simp add: show_nat.simps [of n])
qed

lemma read_number_show:
  assumes "r = [] \<or> \<not> digit_byte (hd r)" and "n \<le> mx" and "case m of None \<Rightarrow> True | Some k \<Rightarrow> length (show_nat n) \<le> k"
  shows "read_number 10 m z mx (show_nat n @ r) = Some (n, r)"
proof -
  have "\<not> (\<not> z \<and> hd (show_nat n) = CHR ''0'' \<and> 1 < length (show_nat n))"
    using show_nat_no_zero [of n] show_nat_length(1) [of n] by (cases "n < 10") auto
  moreover have "\<not> (case m of None \<Rightarrow> False | Some k \<Rightarrow> k < length (show_nat n))"
    using assms(3) by (simp split: option.splits)
  ultimately show ?thesis
    using assms(2) by (simp add: read_number_def takeWhile_show [OF assms(1)] Let_def del: not_None_eq)
qed

lemma read_octet_show:
  fixes v :: u8
  assumes "r = [] \<or> \<not> digit_byte (hd r)"
  shows "read_number 10 (Some 3) False 255 (show_nat (unat v) @ r) = Some (unat v, r)"
proof -
  have "unat v < 256" using unsigned_less [of v, where ?'a = nat] by simp
  then show ?thesis using show_nat_length(3) [of "unat v"] by (intro read_number_show assms) simp_all
qed

lemma read_port_show: "read_port (CHR '':'' # show_u16 p) = Some (p, [])"
proof -
  have "unat p \<le> 2 ^ 16 - 1" using unsigned_less [of p, where ?'a = nat] by simp
  then have "read_number 10 None True (2 ^ 16 - 1) (show_nat (unat p) @ []) = Some (unat p, [])"
    by (intro read_number_show) simp_all
  then show ?thesis by (simp add: read_port_def then_read_def show_u16_def)
qed


lemma length_4: "length os = 4 \<Longrightarrow> \<exists>a b c d. os = [a, b, c, d]"
  by (simp add: numeral_eq_Suc length_Suc_conv) blast

lemma read_ipv4_show:
  assumes "length os = 4" and "r = [] \<or> \<not> digit_byte (hd r)"
  shows "read_ipv4_addr (show_ipv4 os @ r) = Some (os, r)"
proof -
  obtain a b c d where os: "os = [a, b, c, d]" using length_4 [OF assms(1)] by blast
  have four: "read_ipv4_addr = read_octets (Suc (Suc (Suc (Suc 0)))) 0"
    by (simp add: read_ipv4_addr_def eval_nat_numeral)
  have dot: "\<not> digit_byte (CHR ''.'')" by (simp add: digit_byte_def byte_def)
  show ?thesis
    using assms(2)
    by (simp add: os four show_ipv4_def read_separator_def then_read_def read_octet_show dot)
qed

text \<open>An IPv4 address and a port, written out, are parsed to that address.\<close>

lemma parse_socket_addr_v4:
  assumes "length os = 4"
  shows "parse_socket_addr (show_ipv4 os @ '':'' @ show_u16 p) = Some (SocketAddrV4 os p)"
proof -
  have "\<not> digit_byte (CHR '':'')" by (simp add: digit_byte_def byte_def)
  then have "read_ipv4_addr (show_ipv4 os @ CHR '':'' # show_u16 p) = Some (os, CHR '':'' # show_u16 p)"
    by (intro read_ipv4_show assms) simp
  then show ?thesis
    by (simp add: parse_socket_addr_def read_socket_addr_v4_def read_port_show)
qed

text \<open>
  The reader of an IPv4 socket address consumes exactly one colon, so an IPv6 address without
  brackets is never read as one.
\<close>

definition colons :: "string \<Rightarrow> nat" where
  "colons s = length (filter (\<lambda>c. c = CHR '':'') s)"

lemma colons_simps [simp]:
  "colons [] = 0" "colons (c # s) = (if c = CHR '':'' then 1 else 0) + colons s" "colons (s @ t) = colons s + colons t"
  by (simp_all add: colons_def)

definition consumes :: "'a reader \<Rightarrow> nat \<Rightarrow> bool" where
  "consumes p n \<longleftrightarrow> (\<forall>s a r. p s = Some (a, r) \<longrightarrow> colons s = n + colons r)"

lemma consumes_then:
  "consumes p m \<Longrightarrow> (\<And>a. consumes (f a) n) \<Longrightarrow> m + n = k \<Longrightarrow> consumes (then_read p f) k"
  unfolding consumes_def then_read_def by (fastforce split: option.splits)

lemma consumes_result: "consumes (\<lambda>r. Some (a, r)) 0"
  by (simp add: consumes_def)

lemma consumes_char: "consumes (read_given_char c) (if c = CHR '':'' then 1 else 0)"
  by (auto simp: consumes_def read_given_char_def split: list.splits if_splits)

lemma colons_drop_digits: "colons (drop (length (takeWhile (\<lambda>c. to_digit 10 c \<noteq> None) s)) s) = colons s"
  by (induction s) (auto simp: to_digit_def byte_def Let_def)

lemma consumes_number: "consumes (read_number 10 m z mx) 0"
  using colons_drop_digits by (auto simp: consumes_def read_number_def Let_def simp del: not_None_eq split: if_splits)

lemma consumes_octets: "consumes (read_octets n i) 0"
proof (induction n arbitrary: i)
  case (Suc n)
  have sep: "consumes (read_separator (CHR ''.'') i (read_number 10 (Some 3) False 255)) 0"
    by (simp add: read_separator_def consumes_number)
      (rule impI, rule consumes_then [OF consumes_char consumes_number], simp)
  have eq: "read_octets (Suc n) i = then_read (read_separator (CHR ''.'') i (read_number 10 (Some 3) False 255))
       (\<lambda>o'. then_read (read_octets n (Suc i)) (\<lambda>os r. Some (of_nat o' # os, r)))"
    by (rule ext) simp
  show ?case
    unfolding eq by (rule consumes_then [OF sep consumes_then [OF Suc.IH consumes_result]]) simp_all
qed (simp add: consumes_def)

lemma consumes_v4: "consumes read_socket_addr_v4 1"
proof -
  have port: "consumes read_port 1"
    unfolding read_port_def
    by (rule consumes_then [OF consumes_char consumes_then [OF consumes_number consumes_result]]) simp_all
  have ip: "consumes read_ipv4_addr 0" unfolding read_ipv4_addr_def by (rule consumes_octets)
  show ?thesis
    unfolding read_socket_addr_v4_def
    by (rule consumes_then [OF ip consumes_then [OF port consumes_result]]) simp_all
qed

lemma parse_socket_addr_unbracketed:
  assumes "colons ip > 0" and "hd ip \<noteq> CHR ''[''"
  shows "parse_socket_addr (ip @ '':'' @ show_u16 p) = None"
proof -
  let ?s = "ip @ '':'' @ show_u16 p"
  from assms(1) obtain c s where s: "?s = c # s" and c: "c \<noteq> CHR ''[''"
    using assms(2) by (cases ip) auto
  have "read_socket_addr_v6 ?s = None"
    unfolding s using c by (simp add: read_socket_addr_v6_def then_read_def)
  moreover have False if "read_socket_addr_v4 ?s = Some (a, [])" for a
    using consumes_v4 that assms(1) unfolding consumes_def by fastforce
  ultimately show ?thesis
    by (auto simp: parse_socket_addr_def split: option.splits)
qed

end
