(* ===== verification/Udp_Relay.thy ===== *)
theory Udp_Relay
  imports Socket_Addr Event_Systems
begin

text \<open>
  The UDP proxy, \<open>run_udp_proxy\<close> of \<open>src/proxy.rs\<close>: a task that receives the datagrams of all
  clients on one socket (the listener) and forwards them to the target, each client through an
  upstream socket of its own, and for every upstream socket a task that relays what arrives there
  back to the client. The tasks share the table \<open>clients\<close> behind a mutex and the listener.

  A step is what a task does between two points where it waits: for a datagram, for the mutex, for
  a send to finish. The argument of an event is what the operating system answers. Time is in
  milliseconds. The buffers of 65535 bytes hold any UDP datagram. Log lines are left out.
\<close>

section \<open>State\<close>

type_synonym datagram = string

text \<open>Where the receiving task is: in \<open>select!\<close>, waiting for the mutex with a datagram of a client
  and the parsed target, in \<open>upstream.send_to\<close> (the client is still in scope), or past the loop.\<close>

datatype udp_phase =
    Receiving
  | Routing socket_addr datagram socket_addr
  | Forwarding socket_addr nat datagram socket_addr
  | Finished

text \<open>What the closure of a relay task holds besides its socket: the client, the time its current
  \<open>timeout\<close> began, and whether it has left its loop.\<close>

record udp_relay =
  rl_client :: socket_addr
  rl_since :: nat
  rl_leaving :: bool

text \<open>
  The upstream sockets are numbered in the order they are opened: number \<open>s\<close> is the one opened for the
  client \<open>ud_opened ! s\<close>. \<open>ud_sent\<close> and \<open>ud_replied\<close> record the successful sends on upstream sockets
  and on the listener.
\<close>

record udp_proxy =
  ud_target :: string
  ud_phase :: udp_phase
  ud_clients :: "socket_addr \<rightharpoonup> nat"
  ud_relays :: "nat \<rightharpoonup> udp_relay"
  ud_opened :: "socket_addr list"
  ud_now :: nat
  ud_sent :: "(nat \<times> socket_addr \<times> datagram) list"
  ud_replied :: "(socket_addr \<times> datagram) list"

definition udp_new :: "string \<Rightarrow> udp_proxy" where
  "udp_new target =
     \<lparr>ud_target = target, ud_phase = Receiving, ud_clients = Map.empty, ud_relays = Map.empty,
      ud_opened = [], ud_now = 0, ud_sent = [], ud_replied = []\<rparr>"

definition RELAY_TIMEOUT_MS :: nat where
  "RELAY_TIMEOUT_MS = 60 * 1000"

section \<open>The receiving task\<close>

text \<open>A datagram: an invalid target is logged and the datagram dropped (\<open>continue\<close>).\<close>

definition on_datagram :: "socket_addr \<Rightarrow> datagram \<Rightarrow> udp_proxy \<Rightarrow> udp_proxy" where
  "on_datagram client_addr data p =
     (case parse_socket_addr (ud_target p) of
        None \<Rightarrow> p
      | Some target_addr \<Rightarrow> p\<lparr>ud_phase := Routing client_addr data target_addr\<rparr>)"

text \<open>The relay task for a new upstream socket.\<close>

definition spawn_relay :: "nat \<Rightarrow> socket_addr \<Rightarrow> udp_proxy \<Rightarrow> udp_proxy" where
  "spawn_relay sock client_addr p =
     p\<lparr>ud_relays := (ud_relays p)(sock \<mapsto> \<lparr>rl_client = client_addr, rl_since = ud_now p, rl_leaving = False\<rparr>)\<rparr>"

text \<open>Under the mutex: the upstream socket of the client, opened if there is none and \<open>bind\<close> succeeds.\<close>

definition upstream_for :: "bool \<Rightarrow> socket_addr \<Rightarrow> udp_proxy \<Rightarrow> nat option \<times> udp_proxy" where
  "upstream_for bind_ok client_addr p =
     (case ud_clients p client_addr of
        Some sock \<Rightarrow> (Some sock, p)
      | None \<Rightarrow>
          if bind_ok
          then let sock = length (ud_opened p);
                   p = p\<lparr>ud_opened := ud_opened p @ [client_addr], ud_clients := (ud_clients p)(client_addr \<mapsto> sock)\<rparr>
               in (Some sock, spawn_relay sock client_addr p)
          else (None, p))"

definition route_datagram :: "bool \<Rightarrow> socket_addr \<Rightarrow> datagram \<Rightarrow> socket_addr \<Rightarrow> udp_proxy \<Rightarrow> udp_proxy" where
  "route_datagram bind_ok client_addr data target_addr p =
     (case upstream_for bind_ok client_addr p of
        (Some upstream, p) \<Rightarrow> p\<lparr>ud_phase := Forwarding client_addr upstream data target_addr\<rparr>
      | (None, p) \<Rightarrow> p\<lparr>ud_phase := Receiving\<rparr>)"

text \<open>The end of \<open>upstream.send_to\<close>; a failure is logged and the datagram lost.\<close>

definition forwarded_datagram :: "bool \<Rightarrow> nat \<Rightarrow> datagram \<Rightarrow> socket_addr \<Rightarrow> udp_proxy \<Rightarrow> udp_proxy" where
  "forwarded_datagram send_ok upstream data target_addr p =
     p\<lparr>ud_phase := Receiving,
       ud_sent := (if send_ok then ud_sent p @ [(upstream, target_addr, data)] else ud_sent p)\<rparr>"

text \<open>An error of \<open>recv_from\<close> and the shutdown signal both leave the loop.\<close>

definition leave_loop :: "udp_proxy \<Rightarrow> udp_proxy" where
  "leave_loop p = p\<lparr>ud_phase := Finished\<rparr>"

section \<open>A relay task\<close>

text \<open>A datagram arrived on its socket, whoever sent it, and was sent on (or not) to the client.\<close>

definition relay_response :: "nat \<Rightarrow> udp_relay \<Rightarrow> datagram \<Rightarrow> bool \<Rightarrow> udp_proxy \<Rightarrow> udp_proxy" where
  "relay_response sock r data send_ok p =
     (if send_ok
      then p\<lparr>ud_replied := ud_replied p @ [(rl_client r, data)],
             ud_relays := (ud_relays p)(sock \<mapsto> r\<lparr>rl_since := ud_now p\<rparr>)\<rparr>
      else p\<lparr>ud_relays := (ud_relays p)(sock \<mapsto> r\<lparr>rl_leaving := True\<rparr>)\<rparr>)"

text \<open>\<open>recv_from\<close> failed or the timeout elapsed.\<close>

definition relay_break :: "nat \<Rightarrow> udp_relay \<Rightarrow> udp_proxy \<Rightarrow> udp_proxy" where
  "relay_break sock r p = p\<lparr>ud_relays := (ud_relays p)(sock \<mapsto> r\<lparr>rl_leaving := True\<rparr>)\<rparr>"

text \<open>After the loop, under the mutex: the entry of the client is removed, and the task ends.\<close>

definition relay_remove :: "nat \<Rightarrow> udp_relay \<Rightarrow> udp_proxy \<Rightarrow> udp_proxy" where
  "relay_remove sock r p =
     p\<lparr>ud_clients := (ud_clients p)(rl_client r := None), ud_relays := (ud_relays p)(sock := None)\<rparr>"

section \<open>The tasks together\<close>

datatype udp_event =
    Datagram socket_addr datagram              \<comment> \<open>\<open>listener.recv_from\<close> gave a datagram\<close>
  | RecvError
  | ShutdownSignal
  | Locked bool                                \<comment> \<open>the receiving task has the mutex; the answer to a \<open>bind\<close>\<close>
  | SendDone bool                              \<comment> \<open>the end of \<open>upstream.send_to\<close>\<close>
  | Response nat socket_addr datagram bool     \<comment> \<open>on an upstream socket, from an address; the answer of the send\<close>
  | RelayError nat
  | RelayTimeout nat
  | RelayLeaves nat                            \<comment> \<open>the relay task has the mutex\<close>
  | Elapse nat

text \<open>The relay task of a socket, while it is in its loop.\<close>

definition relaying :: "nat \<Rightarrow> udp_proxy \<Rightarrow> udp_relay option" where
  "relaying sock p =
     (case ud_relays p sock of None \<Rightarrow> None | Some r \<Rightarrow> if rl_leaving r then None else Some r)"

fun run_udp_proxy :: "udp_event \<Rightarrow> udp_proxy \<Rightarrow> udp_proxy option" where
  "run_udp_proxy (Datagram client_addr data) p =
     (if ud_phase p = Receiving then Some (on_datagram client_addr data p) else None)"
| "run_udp_proxy RecvError p = (if ud_phase p = Receiving then Some (leave_loop p) else None)"
| "run_udp_proxy ShutdownSignal p = (if ud_phase p = Receiving then Some (leave_loop p) else None)"
| "run_udp_proxy (Locked bind_ok) p =
     (case ud_phase p of
        Routing client_addr data target_addr \<Rightarrow> Some (route_datagram bind_ok client_addr data target_addr p)
      | _ \<Rightarrow> None)"
| "run_udp_proxy (SendDone send_ok) p =
     (case ud_phase p of
        Forwarding client_addr upstream data target_addr \<Rightarrow> Some (forwarded_datagram send_ok upstream data target_addr p)
      | _ \<Rightarrow> None)"
| "run_udp_proxy (Response sock from_addr data send_ok) p =
     map_option (\<lambda>r. relay_response sock r data send_ok p) (relaying sock p)"
| "run_udp_proxy (RelayError sock) p = map_option (\<lambda>r. relay_break sock r p) (relaying sock p)"
| "run_udp_proxy (RelayTimeout sock) p =
     (case relaying sock p of
        None \<Rightarrow> None
      | Some r \<Rightarrow> if rl_since r + RELAY_TIMEOUT_MS \<le> ud_now p then Some (relay_break sock r p) else None)"
| "run_udp_proxy (RelayLeaves sock) p =
     (case ud_relays p sock of
        None \<Rightarrow> None
      | Some r \<Rightarrow> if rl_leaving r then Some (relay_remove sock r p) else None)"
| "run_udp_proxy (Elapse ms) p = Some (p\<lparr>ud_now := ud_now p + ms\<rparr>)"

abbreviation udp_run :: "udp_event list \<Rightarrow> udp_proxy \<Rightarrow> udp_proxy option" where
  "udp_run \<equiv> run_events run_udp_proxy"

end
