(* ===== verification/Udp_Facts.thy ===== *)
theory Udp_Facts
  imports Udp_Relay "HOL-Library.Sublist"
begin

text \<open>
  The UDP proxy is correct: its table of clients is exactly the relay tasks that exist, it refines a
  specification of sessions in which a socket belongs to one client for ever, it forwards in order
  and without loss where the operating system does its part, and its sessions end when the target
  is silent for a minute. And what it does not do: it forwards nothing to an IPv6 target, does not
  look at who answers, and does not end its sessions when it is stopped.
\<close>

section \<open>The table of clients and the relay tasks\<close>

text \<open>
  A client is in the table with a socket exactly if there is a relay task for that socket which
  answers to that client.
\<close>

definition table_is_relays :: "(socket_addr \<rightharpoonup> nat) \<Rightarrow> (nat \<rightharpoonup> udp_relay) \<Rightarrow> bool" where
  "table_is_relays cl rl \<longleftrightarrow> (\<forall>c s. cl c = Some s \<longleftrightarrow> (\<exists>r. rl s = Some r \<and> rl_client r = c))"

lemma table_empty: "table_is_relays Map.empty Map.empty"
  by (simp add: table_is_relays_def)

lemma table_insert:
  "table_is_relays cl rl \<Longrightarrow> cl (rl_client r) = None \<Longrightarrow> rl s = None \<Longrightarrow>
   table_is_relays (cl(rl_client r \<mapsto> s)) (rl(s \<mapsto> r))"
  unfolding table_is_relays_def by (auto simp: fun_upd_def) (metis option.distinct(1))+

lemma table_update:
  "table_is_relays cl rl \<Longrightarrow> rl s = Some r \<Longrightarrow> rl_client r' = rl_client r \<Longrightarrow> table_is_relays cl (rl(s \<mapsto> r'))"
  unfolding table_is_relays_def by auto

lemma table_unique:
  assumes "table_is_relays cl rl" and "rl s = Some r" and "rl s' = Some r'" and "rl_client r' = rl_client r"
  shows "s' = s"
proof -
  from assms have "cl (rl_client r) = Some s" "cl (rl_client r) = Some s'" unfolding table_is_relays_def by blast+
  then show ?thesis by simp
qed

lemma table_remove:
  assumes "table_is_relays cl rl" and "rl s = Some r"
  shows "table_is_relays (cl(rl_client r := None)) (rl(s := None))"
proof -
  have "cl c = Some s \<longleftrightarrow> c = rl_client r" for c
    using assms unfolding table_is_relays_def by (metis option.inject)
  with table_unique [OF assms] assms(1) show ?thesis
    unfolding table_is_relays_def by (auto simp: fun_upd_def)
qed

section \<open>The invariant\<close>

text \<open>
  Moreover each socket was opened for the client of its task, and a datagram on its way carries the
  parsed target and a socket that was opened for its client.
\<close>

definition relays_opened :: "socket_addr list \<Rightarrow> (nat \<rightharpoonup> udp_relay) \<Rightarrow> bool" where
  "relays_opened opened rl \<longleftrightarrow> (\<forall>s r. rl s = Some r \<longrightarrow> s < length opened \<and> opened ! s = rl_client r)"

fun in_flight_ok :: "string \<Rightarrow> socket_addr list \<Rightarrow> udp_phase \<Rightarrow> bool" where
  "in_flight_ok target opened (Routing c d t) \<longleftrightarrow> parse_socket_addr target = Some t"
| "in_flight_ok target opened (Forwarding c s d t) \<longleftrightarrow>
     parse_socket_addr target = Some t \<and> s < length opened \<and> opened ! s = c"
| "in_flight_ok target opened _ \<longleftrightarrow> True"

definition sent_ok :: "string \<Rightarrow> nat \<Rightarrow> (nat \<times> socket_addr \<times> datagram) list \<Rightarrow> bool" where
  "sent_ok target n sent \<longleftrightarrow> (\<forall>(s, t, d) \<in> set sent. s < n \<and> parse_socket_addr target = Some t)"

definition udp_inv :: "udp_proxy \<Rightarrow> bool" where
  "udp_inv p \<longleftrightarrow>
     table_is_relays (ud_clients p) (ud_relays p) \<and> relays_opened (ud_opened p) (ud_relays p) \<and>
     in_flight_ok (ud_target p) (ud_opened p) (ud_phase p) \<and>
     sent_ok (ud_target p) (length (ud_opened p)) (ud_sent p)"

lemma udp_inv_new: "udp_inv (udp_new target)"
  by (simp add: udp_inv_def udp_new_def table_empty relays_opened_def sent_ok_def)

lemma sent_mono: "sent_ok target n sent \<Longrightarrow> n \<le> m \<Longrightarrow> sent_ok target m sent"
  by (fastforce simp: sent_ok_def)

lemma sent_snoc: "sent_ok target n (sent @ [(s, t, d)]) \<longleftrightarrow> sent_ok target n sent \<and> s < n \<and> parse_socket_addr target = Some t"
  by (auto simp: sent_ok_def)

lemma relaying_Some: "relaying s p = Some r \<longleftrightarrow> ud_relays p s = Some r \<and> \<not> rl_leaving r"
  by (auto simp: relaying_def split: option.splits)

lemma relays_opened_update:
  "relays_opened opened rl \<Longrightarrow> rl s = Some r \<Longrightarrow> rl_client r' = rl_client r \<Longrightarrow> relays_opened opened (rl(s \<mapsto> r'))"
  by (auto simp: relays_opened_def)

lemma relays_opened_spawn:
  "relays_opened opened rl \<Longrightarrow> rl_client r = c \<Longrightarrow> relays_opened (opened @ [c]) (rl(length opened \<mapsto> r))"
  by (auto simp: relays_opened_def nth_append less_Suc_eq)

lemma relays_opened_fresh: "relays_opened opened rl \<Longrightarrow> rl (length opened) = None"
  by (rule ccontr) (auto simp: relays_opened_def)

lemma client_socket:
  assumes "udp_inv p" and "ud_clients p c = Some s"
  shows "s < length (ud_opened p) \<and> ud_opened p ! s = c"
proof -
  from assms obtain r where "ud_relays p s = Some r" "rl_client r = c"
    by (auto simp: udp_inv_def table_is_relays_def)
  with assms(1) show ?thesis by (auto simp: udp_inv_def relays_opened_def)
qed

text \<open>What the receiving task does when it has the mutex, in one step.\<close>

definition opened_for :: "socket_addr \<Rightarrow> udp_proxy \<Rightarrow> udp_proxy" where
  "opened_for c p =
     p\<lparr>ud_opened := ud_opened p @ [c], ud_clients := (ud_clients p)(c \<mapsto> length (ud_opened p)),
       ud_relays := (ud_relays p)(length (ud_opened p) \<mapsto> \<lparr>rl_client = c, rl_since = ud_now p, rl_leaving = False\<rparr>)\<rparr>"

lemma route_datagram_cases:
  obtains (known) s where "ud_clients p c = Some s" "route_datagram ok c d t p = p\<lparr>ud_phase := Forwarding c s d t\<rparr>"
  | (opened) "ud_clients p c = None" "ok"
      "route_datagram ok c d t p = (opened_for c p)\<lparr>ud_phase := Forwarding c (length (ud_opened p)) d t\<rparr>"
  | (failed) "ud_clients p c = None" "\<not> ok" "route_datagram ok c d t p = p\<lparr>ud_phase := Receiving\<rparr>"
  by (cases "ud_clients p c"; cases ok)
    (simp_all add: route_datagram_def upstream_for_def spawn_relay_def opened_for_def Let_def)

lemma inv_route:
  assumes inv: "udp_inv p" and ph: "ud_phase p = Routing c d t"
  shows "udp_inv (route_datagram ok c d t p)"
proof (cases rule: route_datagram_cases [of p c ok d t])
  case (known s)
  with client_socket [OF inv] have "s < length (ud_opened p) \<and> ud_opened p ! s = c" by simp
  with known inv ph show ?thesis by (simp add: udp_inv_def)
next
  case opened
  let ?r = "\<lparr>rl_client = c, rl_since = ud_now p, rl_leaving = False\<rparr>"
  have "table_is_relays ((ud_clients p)(rl_client ?r \<mapsto> length (ud_opened p))) ((ud_relays p)(length (ud_opened p) \<mapsto> ?r))"
    by (rule table_insert) (use inv opened(1) in \<open>auto simp: udp_inv_def relays_opened_fresh\<close>)
  with opened(3) inv ph show ?thesis
    by (auto simp: udp_inv_def opened_for_def relays_opened_spawn intro: sent_mono)
qed (use inv in \<open>simp add: udp_inv_def\<close>)

interpretation udp: step_invariant run_udp_proxy udp_inv
proof
  fix p e q
  assume inv: "udp_inv p" and step: "run_udp_proxy e p = Some q"
  show "udp_inv q"
  proof (cases e)
    case (Locked ok)
    then show ?thesis using step inv by (auto simp: inv_route split: udp_phase.splits)
  qed (use step inv in \<open>auto simp: udp_inv_def relaying_Some on_datagram_def leave_loop_def forwarded_datagram_def
      relay_response_def relay_break_def relay_remove_def sent_snoc table_update table_remove relays_opened_update
      split: if_splits option.splits udp_phase.splits\<close>, auto simp: relays_opened_def)
qed

lemma udp_reach_inv: "udp_run evs (udp_new target) = Some p \<Longrightarrow> udp_inv p"
  using udp.inv_run udp_inv_new by blast


section \<open>Refinement: sessions\<close>

text \<open>
  The specification. A session pairs a client with a socket, which is used for one session in its
  life. A datagram is taken from a client, then assigned to the session the client has at that
  time, and then sent on the socket of that session, or lost. While the send is under way the session
  may end: the datagram still leaves on the socket it was assigned to. What is delivered on a socket
  goes to the client of its session, which has not ended. The state has what was sent, on which
  socket, and what was delivered, to whom.
\<close>

record session_table =
  st_sessions :: "socket_addr \<rightharpoonup> nat"
  st_used :: nat
  st_waiting :: "(socket_addr \<times> datagram) option"
  st_outgoing :: "(socket_addr \<times> nat \<times> datagram) option"
  st_sent :: "(nat \<times> datagram) list"
  st_delivered :: "(socket_addr \<times> datagram) list"

datatype session_label =
    Taken socket_addr datagram
  | Opened socket_addr nat
  | Assigned socket_addr nat datagram
  | Outward socket_addr nat datagram
  | Lost
  | Inward nat datagram socket_addr
  | Closed socket_addr nat

inductive session_step :: "session_table \<Rightarrow> session_label \<Rightarrow> session_table \<Rightarrow> bool" where
  taken: "st_waiting a = None \<Longrightarrow> st_outgoing a = None \<Longrightarrow>
     session_step a (Taken c d) (a\<lparr>st_waiting := Some (c, d)\<rparr>)"
| opened: "st_waiting a = Some (c, d) \<Longrightarrow> st_sessions a c = None \<Longrightarrow> st_used a \<le> s \<Longrightarrow>
     session_step a (Opened c s) (a\<lparr>st_sessions := (st_sessions a)(c \<mapsto> s), st_used := Suc s\<rparr>)"
| assigned: "st_waiting a = Some (c, d) \<Longrightarrow> st_sessions a c = Some s \<Longrightarrow>
     session_step a (Assigned c s d) (a\<lparr>st_waiting := None, st_outgoing := Some (c, s, d)\<rparr>)"
| outward: "st_outgoing a = Some (c, s, d) \<Longrightarrow>
     session_step a (Outward c s d) (a\<lparr>st_outgoing := None, st_sent := st_sent a @ [(s, d)]\<rparr>)"
| lost: "session_step a Lost (a\<lparr>st_waiting := None, st_outgoing := None\<rparr>)"
| inward: "st_sessions a c = Some s \<Longrightarrow>
     session_step a (Inward s d c) (a\<lparr>st_delivered := st_delivered a @ [(c, d)]\<rparr>)"
| closed: "st_sessions a c = Some s \<Longrightarrow> session_step a (Closed c s) (a\<lparr>st_sessions := (st_sessions a)(c := None)\<rparr>)"

inductive_simps session_step_simps [simp]:
  "session_step a (Taken c d) b" "session_step a (Opened c s) b" "session_step a (Assigned c s d) b"
  "session_step a (Outward c s d) b" "session_step a Lost b"
  "session_step a (Inward s d c) b" "session_step a (Closed c s) b"

definition no_sessions :: session_table where
  "no_sessions =
     \<lparr>st_sessions = Map.empty, st_used = 0, st_waiting = None, st_outgoing = None, st_sent = [], st_delivered = []\<rparr>"

text \<open>The view of the proxy as a table of sessions: its two records of sends are those of the view.\<close>

definition session_view :: "udp_proxy \<Rightarrow> session_table" where
  "session_view p =
     \<lparr>st_sessions = ud_clients p, st_used = length (ud_opened p),
      st_waiting = (case ud_phase p of Routing c d t \<Rightarrow> Some (c, d) | _ \<Rightarrow> None),
      st_outgoing = (case ud_phase p of Forwarding c s d t \<Rightarrow> Some (c, s, d) | _ \<Rightarrow> None),
      st_sent = map (\<lambda>(s, t, d). (s, d)) (ud_sent p), st_delivered = ud_replied p\<rparr>"

text \<open>
  What an event shows. A send is what the step adds to the record of sends (the socket and the
  datagram that were used, not those the task had chosen), with the client whose datagram the
  task has in hand; a delivery is what the step adds to the record of replies.
\<close>

definition appended :: "(udp_proxy \<Rightarrow> 'a list) \<Rightarrow> udp_event \<Rightarrow> udp_proxy \<Rightarrow> 'a list" where
  "appended rec e p =
     (case run_udp_proxy e p of None \<Rightarrow> [] | Some q \<Rightarrow> drop (length (rec p)) (rec q))"

definition sends_shown :: "socket_addr \<Rightarrow> udp_event \<Rightarrow> udp_proxy \<Rightarrow> session_label list" where
  "sends_shown c e p =
     (case appended ud_sent e p of [] \<Rightarrow> [Lost] | new \<Rightarrow> map (\<lambda>(s, t, d). Outward c s d) new)"

fun session_labels :: "udp_event \<Rightarrow> udp_proxy \<Rightarrow> session_label list" where
  "session_labels (Datagram c d) p = (if parse_socket_addr (ud_target p) = None then [] else [Taken c d])"
| "session_labels (Locked bind_ok) p =
     (case ud_phase p of
        Routing c d t \<Rightarrow>
          (case ud_clients p c of
             Some s \<Rightarrow> [Assigned c s d]
           | None \<Rightarrow>
               if bind_ok then [Opened c (length (ud_opened p)), Assigned c (length (ud_opened p)) d] else [Lost])
      | _ \<Rightarrow> [])"
| "session_labels (SendDone send_ok) p =
     (case ud_phase p of Forwarding c s d t \<Rightarrow> sends_shown c (SendDone send_ok) p | _ \<Rightarrow> [])"
| "session_labels (Response s from_addr d send_ok) p =
     map (\<lambda>(c, d). Inward s d c) (appended ud_replied (Response s from_addr d send_ok) p)"
| "session_labels (RelayLeaves s) p =
     (case ud_relays p s of Some r \<Rightarrow> [Closed (rl_client r) s] | None \<Rightarrow> [])"
| "session_labels _ p = []"

lemma relay_in_table: "udp_inv p \<Longrightarrow> ud_relays p s = Some r \<Longrightarrow> ud_clients p (rl_client r) = Some s"
  by (auto simp: udp_inv_def table_is_relays_def)

interpretation udp_sessions: refinement_map run_udp_proxy udp_inv session_view session_labels session_step
proof
  fix p e q
  assume inv: "udp_inv p" and step: "run_udp_proxy e p = Some q"
  show "spec_run session_step (session_view p) (session_labels e p) (session_view q)"
  proof (cases e)
    case (Locked ok)
    with step obtain c d t where ph: "ud_phase p = Routing c d t" and q: "q = route_datagram ok c d t p"
      by (auto split: udp_phase.splits)
    show ?thesis
      by (cases rule: route_datagram_cases [of p c ok d t])
        (auto simp: q Locked ph session_view_def opened_for_def)
  next
    case (SendDone ok)
    with step obtain c s d t where ph: "ud_phase p = Forwarding c s d t" and q: "q = forwarded_datagram ok s d t p"
      by (auto split: udp_phase.splits)
    have "appended ud_sent e p = (if ok then [(s, t, d)] else [])"
      by (simp add: SendDone appended_def ph forwarded_datagram_def)
    then show ?thesis by (simp add: SendDone ph sends_shown_def q session_view_def forwarded_datagram_def)
  next
    case (Response s from_addr d ok)
    with step obtain r where r: "relaying s p = Some r" and q: "q = relay_response s r d ok p" by auto
    with relay_in_table [OF inv] have "ud_clients p (rl_client r) = Some s" by (simp add: relaying_Some)
    moreover have "appended ud_replied e p = (if ok then [(rl_client r, d)] else [])"
      by (simp add: Response appended_def r relay_response_def)
    ultimately show ?thesis by (simp add: Response q relay_response_def session_view_def)
  qed (use step relay_in_table [OF inv] in \<open>auto simp: session_view_def on_datagram_def leave_loop_def
      relay_break_def relay_remove_def split: if_splits option.splits udp_phase.splits\<close>)
qed

abbreviation udp_trace :: "udp_event list \<Rightarrow> udp_proxy \<Rightarrow> session_label list" where
  "udp_trace \<equiv> run_labels run_udp_proxy session_labels"

lemma view_new: "session_view (udp_new target) = no_sessions"
  by (simp add: session_view_def udp_new_def no_sessions_def)

text \<open>The sends and the deliveries a history shows.\<close>

fun send_of :: "session_label \<Rightarrow> (nat \<times> datagram) list" where
  "send_of (Outward c s d) = [(s, d)]"
| "send_of _ = []"

fun delivery_of :: "session_label \<Rightarrow> (socket_addr \<times> datagram) list" where
  "delivery_of (Inward s d c) = [(c, d)]"
| "delivery_of _ = []"

text \<open>
  In the specification a socket has one client for ever, what is sent was taken from the client and
  assigned to a session of it, and the history shows all of the sends and deliveries.
\<close>

definition one_owner :: "session_label list \<Rightarrow> session_table \<Rightarrow> bool" where
  "one_owner ls a \<longleftrightarrow>
     (\<forall>c s. st_sessions a c = Some s \<longrightarrow> Opened c s \<in> set ls) \<and>
     (\<forall>c s. Opened c s \<in> set ls \<longrightarrow> s < st_used a) \<and>
     (\<forall>c c' s. Opened c s \<in> set ls \<longrightarrow> Opened c' s \<in> set ls \<longrightarrow> c' = c) \<and>
     (\<forall>c s d. Outward c s d \<in> set ls \<or> Inward s d c \<in> set ls \<or> st_outgoing a = Some (c, s, d) \<longrightarrow> Opened c s \<in> set ls)"

definition taken_first :: "session_label list \<Rightarrow> session_table \<Rightarrow> bool" where
  "taken_first ls a \<longleftrightarrow>
     (\<forall>c d. st_waiting a = Some (c, d) \<longrightarrow> Taken c d \<in> set ls) \<and>
     (\<forall>c s d. st_outgoing a = Some (c, s, d) \<or> Outward c s d \<in> set ls \<longrightarrow> Taken c d \<in> set ls)"

definition all_shown :: "session_label list \<Rightarrow> session_table \<Rightarrow> bool" where
  "all_shown ls a \<longleftrightarrow>
     concat (map send_of ls) = st_sent a \<and> concat (map delivery_of ls) = st_delivered a"

lemma one_owner_step: "one_owner ls a \<Longrightarrow> session_step a l b \<Longrightarrow> one_owner (ls @ [l]) b"
  by (cases l) (fastforce simp: one_owner_def split: if_splits)+

lemma taken_first_step: "taken_first ls a \<Longrightarrow> session_step a l b \<Longrightarrow> taken_first (ls @ [l]) b"
  by (cases l) (fastforce simp: taken_first_def)+

lemma all_shown_step: "all_shown ls a \<Longrightarrow> session_step a l b \<Longrightarrow> all_shown (ls @ [l]) b"
  by (cases l) (auto simp: all_shown_def)

lemma session_history:
  assumes "spec_run session_step no_sessions ls a"
  shows "one_owner ls a" "taken_first ls a" "all_shown ls a"
proof -
  have "one_owner [] no_sessions" "taken_first [] no_sessions" "all_shown [] no_sessions"
    by (simp_all add: one_owner_def taken_first_def all_shown_def no_sessions_def)
  from spec_run_history [OF assms, of one_owner "[]", OF this(1) one_owner_step]
    spec_run_history [OF assms, of taken_first "[]", OF this(2) taken_first_step]
    spec_run_history [OF assms, of all_shown "[]", OF this(3) all_shown_step]
  show "one_owner ls a" "taken_first ls a" "all_shown ls a" by simp_all
qed

lemma udp_history:
  assumes "udp_run evs (udp_new target) = Some p"
  shows "spec_run session_step no_sessions (udp_trace evs (udp_new target)) (session_view p)"
  using udp_sessions.refines [OF udp_inv_new assms] by (simp add: view_new)

lemma Taken_not_send: "Taken c d \<notin> set (sends_shown c' e p)"
  by (auto simp: sends_shown_def split: list.splits)

lemma Taken_received: "Taken c d \<in> set (udp_trace evs p) \<Longrightarrow> Datagram c d \<in> set evs"
proof (induction evs arbitrary: p)
  case (Cons e evs)
  have "Taken c d \<in> set (session_labels e p) \<Longrightarrow> e = Datagram c d"
    by (cases e) (auto simp: Taken_not_send split: if_splits option.splits udp_phase.splits)
  with Cons show ?case by (auto split: option.splits)
qed simp

text \<open>
  C8. The UDP proxy refines the specification of sessions: whatever the clients, the target and the
  operating system do, and however the tasks interleave, every run of the proxy is a run of the
  specification. So a datagram is sent on the socket of the session its client had when the
  receiving task held the mutex (a session that may have timed out while the send was under way), an
  answer is delivered only while the session of its socket exists, and the sends and the deliveries
  of that run are the records of what the proxy sent on which upstream socket and delivered to whom.
\<close>

theorem udp_proxy_refines_sessions:
  assumes "udp_run evs (udp_new target) = Some p"
  shows "spec_run session_step no_sessions (udp_trace evs (udp_new target)) (session_view p) \<and>
    concat (map send_of (udp_trace evs (udp_new target))) = map (\<lambda>(s, t, d). (s, d)) (ud_sent p) \<and>
    concat (map delivery_of (udp_trace evs (udp_new target))) = ud_replied p"
  using udp_history [OF assms] session_history(3) [OF udp_history [OF assms]]
  by (simp add: all_shown_def session_view_def)

text \<open>
  C22. A client is answered only through sockets that carried its own datagrams: if a datagram taken
  from a client was sent on a socket, as the record of sends has it, then that client had sent it, and
  the socket never delivers to another client, also after sessions have ended and new ones have
  begun.
\<close>

theorem udp_clients_isolated:
  assumes "udp_run evs (udp_new target) = Some p"
    and "Outward c s d \<in> set (udp_trace evs (udp_new target))"
    and "Inward s d' c' \<in> set (udp_trace evs (udp_new target))"
  shows "c' = c \<and> Datagram c d \<in> set evs"
proof -
  note h = session_history(1,2) [OF udp_history [OF assms(1)]]
  from h(1) assms(2,3) have "c' = c" unfolding one_owner_def by blast
  moreover from h(2) assms(2) have "Taken c d \<in> set (udp_trace evs (udp_new target))"
    unfolding taken_first_def by blast
  ultimately show ?thesis using Taken_received by blast
qed


section \<open>Order and loss\<close>

text \<open>What clients sent, what was forwarded for which client, and what is on its way.\<close>

fun received_of :: "udp_event \<Rightarrow> (socket_addr \<times> datagram) list" where
  "received_of (Datagram c d) = [(c, d)]"
| "received_of _ = []"

definition received :: "udp_event list \<Rightarrow> (socket_addr \<times> datagram) list" where
  "received evs = concat (map received_of evs)"

definition forwarded :: "udp_proxy \<Rightarrow> (socket_addr \<times> datagram) list" where
  "forwarded p = map (\<lambda>(s, t, d). (ud_opened p ! s, d)) (ud_sent p)"

definition in_flight :: "udp_proxy \<Rightarrow> (socket_addr \<times> datagram) list" where
  "in_flight p =
     (case ud_phase p of
        Routing c d t \<Rightarrow> [(c, d)]
      | Forwarding c s d t \<Rightarrow> [(ud_opened p ! s, d)]
      | _ \<Rightarrow> [])"

definition failure :: "udp_event \<Rightarrow> bool" where
  "failure e \<longleftrightarrow> e = Locked False \<or> e = SendDone False"

lemma received_snoc [simp]: "received (evs @ [e]) = received evs @ received_of e"
  by (simp add: received_def)

lemma forwarded_opened_for: "sent_ok target (length (ud_opened p)) (ud_sent p) \<Longrightarrow> forwarded (opened_for c p) = forwarded p"
  by (auto simp: forwarded_def opened_for_def sent_ok_def nth_append intro!: map_cong)

text \<open>One step, from the point of view of the traffic to the target.\<close>

definition traffic :: "udp_proxy \<Rightarrow> (socket_addr \<times> datagram) list" where
  "traffic p = forwarded p @ in_flight p"

lemma target_const: "run_udp_proxy e p = Some q \<Longrightarrow> ud_target q = ud_target p"
  by (cases e)
    (auto simp: on_datagram_def leave_loop_def route_datagram_def upstream_for_def spawn_relay_def forwarded_datagram_def
      relay_response_def relay_break_def relay_remove_def Let_def split: if_splits option.splits udp_phase.splits)

lemma traffic_step:
  assumes inv: "udp_inv p" and step: "run_udp_proxy e p = Some q"
  shows "subseq (traffic q) (traffic p @ received_of e) \<and>
    (\<not> failure e \<longrightarrow> parse_socket_addr (ud_target p) \<noteq> None \<longrightarrow> traffic q = traffic p @ received_of e)"
proof (cases e)
  case (Locked ok)
  with step obtain c d t where ph: "ud_phase p = Routing c d t" and q: "q = route_datagram ok c d t p"
    by (auto split: udp_phase.splits)
  show ?thesis
  proof (cases rule: route_datagram_cases [of p c ok d t])
    case (known s)
    with client_socket [OF inv] have "ud_opened p ! s = c" by simp
    with known show ?thesis by (simp add: q Locked ph traffic_def in_flight_def forwarded_def)
  next
    case opened
    have "forwarded (opened_for c p) = forwarded p"
      by (rule forwarded_opened_for [of "ud_target p"]) (use inv in \<open>simp add: udp_inv_def\<close>)
    moreover have "forwarded q = forwarded (opened_for c p)" by (simp add: q opened(3) forwarded_def)
    ultimately have "forwarded q = forwarded p" by simp
    then show ?thesis
      by (simp add: q opened(3) Locked ph traffic_def in_flight_def) (simp add: opened_for_def)
  next
    case failed
    then show ?thesis by (simp add: q Locked ph traffic_def in_flight_def forwarded_def failure_def prefix_imp_subseq)
  qed
next
  case (SendDone ok)
  with step obtain c s d t where "ud_phase p = Forwarding c s d t" and "q = forwarded_datagram ok s d t p"
    by (auto split: udp_phase.splits)
  then show ?thesis
    by (cases ok) (simp_all add: SendDone failure_def forwarded_datagram_def traffic_def in_flight_def forwarded_def prefix_imp_subseq)
next
  case (Datagram c d)
  with step show ?thesis
    by (simp add: on_datagram_def traffic_def in_flight_def forwarded_def prefix_imp_subseq split: if_splits option.splits)
      (auto simp: prefix_imp_subseq)
next
  case (Response s from_addr d ok)
  with step show ?thesis
    by (auto simp: relay_response_def traffic_def in_flight_def forwarded_def cong: udp_phase.case_cong)
next
  case (RelayLeaves s)
  with step show ?thesis
    by (auto simp: relay_remove_def traffic_def in_flight_def forwarded_def cong: udp_phase.case_cong
        split: option.splits if_splits)
qed (use step in \<open>auto simp: traffic_def in_flight_def forwarded_def leave_loop_def relay_break_def
    cong: udp_phase.case_cong split: if_splits option.splits\<close>)

interpretation udp_traffic: history_invariant run_udp_proxy
  "\<lambda>evs p. udp_inv p \<and> ud_target p = target \<and> subseq (traffic p) (received evs) \<and>
     (parse_socket_addr target \<noteq> None \<longrightarrow> (\<forall>e \<in> set evs. \<not> failure e) \<longrightarrow> traffic p = received evs)" for target
proof (unfold_locales, elim conjE, intro conjI)
  fix evs p e q
  assume inv: "udp_inv p" and step: "run_udp_proxy e p = Some q" and t: "ud_target p = target"
    and sub: "subseq (traffic p) (received evs)"
    and all: "parse_socket_addr target \<noteq> None \<longrightarrow> (\<forall>e \<in> set evs. \<not> failure e) \<longrightarrow> traffic p = received evs"
  show "udp_inv q" using udp.inv_step inv step .
  show "ud_target q = target" using target_const [OF step] t by simp
  have "subseq (traffic p @ received_of e) (received (evs @ [e]))" using sub by simp
  with conjunct1 [OF traffic_step [OF inv step]] show "subseq (traffic q) (received (evs @ [e]))"
    by (rule subseq_order.order_trans)
  show "parse_socket_addr target \<noteq> None \<longrightarrow> (\<forall>e \<in> set (evs @ [e]). \<not> failure e) \<longrightarrow> traffic q = received (evs @ [e])"
    using traffic_step [OF inv step] all t by auto
qed

lemma udp_traffic:
  assumes "udp_run evs (udp_new target) = Some p"
  shows "udp_inv p" "ud_target p = target" "subseq (traffic p) (received evs)"
    "parse_socket_addr target \<noteq> None \<Longrightarrow> \<forall>e \<in> set evs. \<not> failure e \<Longrightarrow> traffic p = received evs"
proof -
  have "traffic (udp_new target) = []" by (simp add: traffic_def forwarded_def in_flight_def udp_new_def)
  moreover have "ud_target (udp_new target) = target" by (simp add: udp_new_def)
  ultimately have "udp_inv p \<and> ud_target p = target \<and> subseq (traffic p) (received evs) \<and>
     (parse_socket_addr target \<noteq> None \<longrightarrow> (\<forall>e \<in> set evs. \<not> failure e) \<longrightarrow> traffic p = received evs)"
    using udp_traffic.H_reach [of "udp_new target" target evs p] assms udp_inv_new by (simp add: received_def)
  then show "udp_inv p" "ud_target p = target" "subseq (traffic p) (received evs)"
    "parse_socket_addr target \<noteq> None \<Longrightarrow> \<forall>e \<in> set evs. \<not> failure e \<Longrightarrow> traffic p = received evs" by blast+
qed

text \<open>
  C29. The proxy forwards in order: what it has sent to the target is, client by client and datagram
  by datagram, a subsequence of what it received, nothing is duplicated or invented, and all of it
  went to the address the target string stands for. If the target is valid and no \<open>bind\<close> or send
  fails, nothing is lost: when the task waits for the next datagram it has forwarded them all.
\<close>

theorem udp_forwards_in_order:
  assumes "udp_run evs (udp_new target) = Some p"
  shows "subseq (forwarded p) (received evs) \<and>
    (\<forall>(s, t, d) \<in> set (ud_sent p). parse_socket_addr target = Some t) \<and>
    (parse_socket_addr target \<noteq> None \<and> (\<forall>e \<in> set evs. \<not> failure e) \<and> ud_phase p = Receiving \<longrightarrow>
       forwarded p = received evs)"
proof -
  note t = udp_traffic [OF assms]
  have "subseq (forwarded p) (traffic p)" by (simp add: traffic_def prefix_imp_subseq)
  with t(3) have "subseq (forwarded p) (received evs)" using subseq_order.order_trans by blast
  moreover have "sent_ok target (length (ud_opened p)) (ud_sent p)" using t(1,2) by (simp add: udp_inv_def)
  moreover have "forwarded p = traffic p" if "ud_phase p = Receiving"
    using that by (simp add: traffic_def in_flight_def)
  ultimately show ?thesis using t(4) by (auto simp: sent_ok_def)
qed


text \<open>With a target that is not a socket address nothing ever leaves the first state.\<close>

lemma udp_bad_target:
  assumes "udp_run evs (udp_new target) = Some p" and "parse_socket_addr target = None"
  shows "ud_sent p = [] \<and> ud_opened p = []"
proof -
  have "ud_sent q = [] \<and> ud_opened q = []"
    if "udp_run evs p = Some q" "ud_target p = target" "ud_phase p = Receiving \<or> ud_phase p = Finished"
      "ud_sent p = []" "ud_opened p = []" for p q
    using that
  proof (induction evs arbitrary: p)
    case (Cons e evs)
    from Cons.prems(1) obtain u where u: "run_udp_proxy e p = Some u" "udp_run evs u = Some q"
      by (rule run_events_ConsE)
    have "(ud_phase u = Receiving \<or> ud_phase u = Finished) \<and> ud_sent u = [] \<and> ud_opened u = []"
      using u(1) Cons.prems(2-5) assms(2)
      by (cases e) (auto simp: on_datagram_def leave_loop_def relay_response_def relay_break_def relay_remove_def
          split: if_splits option.splits)
    with Cons.IH [OF u(2)] target_const [OF u(1)] Cons.prems(2) show ?case by simp
  qed simp
  from this [OF assms(1)] show ?thesis by (simp add: udp_new_def)
qed

section \<open>Replies\<close>

text \<open>The responses that arrived on upstream sockets and were sent on.\<close>

fun response_of :: "udp_event \<Rightarrow> (nat \<times> datagram) list" where
  "response_of (Response s from_addr d True) = [(s, d)]"
| "response_of _ = []"

definition responses :: "udp_event list \<Rightarrow> (nat \<times> datagram) list" where
  "responses evs = concat (map response_of evs)"

lemma opened_grows: "run_udp_proxy e p = Some q \<Longrightarrow> \<exists>cs. ud_opened q = ud_opened p @ cs"
  by (cases e)
    (auto simp: on_datagram_def leave_loop_def route_datagram_def upstream_for_def spawn_relay_def forwarded_datagram_def
      relay_response_def relay_break_def relay_remove_def Let_def split: if_splits option.splits udp_phase.splits)

text \<open>What a step adds to the replies.\<close>

lemma replied_step:
  assumes inv: "udp_inv p" and step: "run_udp_proxy e p = Some q"
  shows "ud_replied q = ud_replied p @ map (\<lambda>(s, d). (ud_opened q ! s, d)) (response_of e) \<and>
    (\<forall>(s, d) \<in> set (response_of e). s < length (ud_opened p))"
proof (cases e)
  case (Response s from_addr d ok)
  with step obtain r where r: "ud_relays p s = Some r" and q: "q = relay_response s r d ok p"
    by (auto simp: relaying_Some)
  with inv have "s < length (ud_opened p) \<and> ud_opened p ! s = rl_client r"
    by (simp add: udp_inv_def relays_opened_def)
  then show ?thesis by (cases ok) (simp_all add: Response q relay_response_def)
qed (use step in \<open>auto simp: on_datagram_def leave_loop_def route_datagram_def upstream_for_def spawn_relay_def
    forwarded_datagram_def relay_break_def relay_remove_def Let_def split: if_splits option.splits udp_phase.splits\<close>)

interpretation udp_replies: history_invariant run_udp_proxy
  "\<lambda>evs p. udp_inv p \<and> (\<forall>(s, d) \<in> set (responses evs). s < length (ud_opened p)) \<and>
     ud_replied p = map (\<lambda>(s, d). (ud_opened p ! s, d)) (responses evs)"
proof (unfold_locales, elim conjE, intro conjI)
  fix evs p e q
  assume inv: "udp_inv p" and step: "run_udp_proxy e p = Some q"
    and bound: "\<forall>(s, d) \<in> set (responses evs). s < length (ud_opened p)"
    and replied: "ud_replied p = map (\<lambda>(s, d). (ud_opened p ! s, d)) (responses evs)"
  obtain cs where cs: "ud_opened q = ud_opened p @ cs" using opened_grows [OF step] by blast
  note new = replied_step [OF inv step]
  show "udp_inv q" using udp.inv_step inv step .
  show "\<forall>(s, d) \<in> set (responses (evs @ [e])). s < length (ud_opened q)"
    using new bound by (fastforce simp: responses_def cs intro: trans_less_add1)
  have "ud_replied p = map (\<lambda>(s, d). (ud_opened q ! s, d)) (responses evs)"
    using bound by (auto simp: replied cs nth_append)
  then show "ud_replied q = map (\<lambda>(s, d). (ud_opened q ! s, d)) (responses (evs @ [e]))"
    using new by (simp add: responses_def)
qed

text \<open>
  The client of a socket gets exactly what arrives on the socket, in order and once, whoever sent
  it: the source address of a response plays no part, so any host that reaches the upstream port can
  put datagrams into the session of an external client.
\<close>

lemma udp_replies_are_responses:
  assumes "udp_run evs (udp_new target) = Some p"
  shows "ud_replied p = map (\<lambda>(s, d). (ud_opened p ! s, d)) (responses evs) \<and>
    run_udp_proxy (Response s target_addr d ok) p = run_udp_proxy (Response s other_addr d ok) p"
  using udp_replies.H_reach [of "udp_new target" evs p] assms udp_inv_new
  by (simp add: responses_def udp_new_def)

section \<open>The end of sessions\<close>

text \<open>
  A session ends when the target has been silent on it for a minute, and not before: then the
  relay task times out, and when it has the mutex the client leaves the table and nothing else
  changes. What the client sends has no influence on this: no step of the receiving task touches the
  waiting relay task, so a client that only sends loses its socket every minute.
\<close>

lemma udp_session_expires:
  assumes "udp_run evs (udp_new target) = Some p" and "relaying s p = Some r"
  shows "(run_udp_proxy (RelayTimeout s) p \<noteq> None \<longleftrightarrow> rl_since r + 60000 \<le> ud_now p) \<and>
    (rl_since r + 60000 \<le> ud_now p \<longrightarrow>
       udp_run [RelayTimeout s, RelayLeaves s] p =
         Some (p\<lparr>ud_clients := (ud_clients p)(rl_client r := None), ud_relays := (ud_relays p)(s := None)\<rparr>)) \<and>
    (\<forall>c d b q. run_udp_proxy (Datagram c d) p = Some q \<or> run_udp_proxy (Locked b) p = Some q \<or>
       run_udp_proxy (SendDone b) p = Some q \<longrightarrow> relaying s q = Some r)"
proof -
  have r: "ud_relays p s = Some r" "\<not> rl_leaving r" using assms(2) by (auto simp: relaying_Some)
  have "udp_inv p" using udp_reach_inv [OF assms(1)] .
  with r(1) have bound: "s < length (ud_opened p)" by (auto simp: udp_inv_def relays_opened_def)
  have kept: "relaying s q = Some r" if "run_udp_proxy e p = Some q" "e \<in> {Datagram c d, Locked b, SendDone b}" for e q c d b
    using that r bound
    by (auto simp: relaying_Some on_datagram_def route_datagram_def upstream_for_def spawn_relay_def forwarded_datagram_def
        Let_def split: if_splits option.splits udp_phase.splits)
  have "(run_udp_proxy (RelayTimeout s) p \<noteq> None \<longleftrightarrow> rl_since r + 60000 \<le> ud_now p) \<and>
    (rl_since r + 60000 \<le> ud_now p \<longrightarrow>
       udp_run [RelayTimeout s, RelayLeaves s] p =
         Some (p\<lparr>ud_clients := (ud_clients p)(rl_client r := None), ud_relays := (ud_relays p)(s := None)\<rparr>))"
    by (simp add: assms(2) RELAY_TIMEOUT_MS_def relay_break_def relay_remove_def)
  with kept show ?thesis by blast
qed

text \<open>
  A proxy that is stopped forwards nothing more and opens no session, but does not end the sessions
  it has: their tasks go on delivering to the clients, through the listener's port, for as long as the
  target keeps sending.
\<close>

lemma udp_sessions_outlive_stop:
  assumes "udp_run (evs @ [ShutdownSignal]) (udp_new target) = Some p" and "udp_run later p = Some q"
  shows "ud_sent q = ud_sent p \<and> ud_opened q = ud_opened p \<and>
    (\<forall>s r a d. relaying s q = Some r \<longrightarrow>
       (\<exists>q'. run_udp_proxy (Response s a d True) q = Some q' \<and>
          ud_replied q' = ud_replied q @ [(rl_client r, d)] \<and> relaying s q' \<noteq> None))"
proof -
  have "ud_phase p = Finished"
    using assms(1) by (auto simp: run_events_snoc leave_loop_def split: if_splits)
  with assms(2) have "ud_phase q = Finished \<and> ud_sent q = ud_sent p \<and> ud_opened q = ud_opened p"
  proof (induction later arbitrary: p)
    case (Cons e later)
    from Cons.prems(1) obtain u where u: "run_udp_proxy e p = Some u" "udp_run later u = Some q"
      by (rule run_events_ConsE)
    from u(1) Cons.prems(2) have "ud_phase u = Finished \<and> ud_sent u = ud_sent p \<and> ud_opened u = ud_opened p"
      by (cases e) (auto simp: relay_response_def relay_break_def relay_remove_def split: if_splits option.splits)
    with Cons.IH [OF u(2)] show ?case by simp
  qed simp
  then show ?thesis by (auto simp: relaying_Some relay_response_def)
qed


section \<open>A run\<close>

text \<open>Two clients of a name server; the answer to the first arrives, and its session times out.\<close>

definition client_1 :: socket_addr where
  "client_1 = SocketAddrV4 [192, 168, 0, 9] 4000"

definition client_2 :: socket_addr where
  "client_2 = SocketAddrV4 [192, 168, 0, 9] 4001"

definition name_server :: socket_addr where
  "name_server = SocketAddrV4 [10, 0, 0, 1] 53"

lemma name_server_parsed: "parse_socket_addr ''10.0.0.1:53'' = Some name_server"
proof -
  have "show_ipv4 [10, 0, 0, 1] @ '':'' @ show_u16 53 = ''10.0.0.1:53''"
    by (simp add: show_ipv4_def show_u16_def show_nat.simps digit_char_def char_of_eq_iff)
  with parse_socket_addr_v4 [of "[10, 0, 0, 1]" 53] show ?thesis by (simp add: name_server_def)
qed

definition sample_events :: "udp_event list" where
  "sample_events =
     [Datagram client_1 ''q1'', Locked True, SendDone True, Datagram client_2 ''q2'', Locked True, SendDone True,
      Response 0 name_server ''a1'' True]"

definition sample_proxy :: udp_proxy where
  "sample_proxy =
     \<lparr>ud_target = ''10.0.0.1:53'', ud_phase = Receiving, ud_clients = [client_1 \<mapsto> 0, client_2 \<mapsto> 1],
      ud_relays = [0 \<mapsto> \<lparr>rl_client = client_1, rl_since = 0, rl_leaving = False\<rparr>,
                   1 \<mapsto> \<lparr>rl_client = client_2, rl_since = 0, rl_leaving = False\<rparr>],
      ud_opened = [client_1, client_2], ud_now = 0,
      ud_sent = [(0, name_server, ''q1''), (1, name_server, ''q2'')], ud_replied = [(client_1, ''a1'')]\<rparr>"

lemmas sample_defs =
  sample_events_def sample_proxy_def udp_new_def on_datagram_def route_datagram_def upstream_for_def spawn_relay_def
  forwarded_datagram_def relay_response_def relaying_def name_server_parsed

lemma clients_differ [simp]: "client_1 \<noteq> client_2" "client_2 \<noteq> client_1"
  by (simp_all add: client_1_def client_2_def)

lemma sample_run: "udp_run sample_events (udp_new ''10.0.0.1:53'') = Some sample_proxy"
  by (simp add: sample_defs Let_def fun_upd_twist)

lemma sample_trace:
  "udp_trace sample_events (udp_new ''10.0.0.1:53'') =
     [Taken client_1 ''q1'', Opened client_1 0, Assigned client_1 0 ''q1'', Outward client_1 0 ''q1'',
      Taken client_2 ''q2'', Opened client_2 1, Assigned client_2 1 ''q2'', Outward client_2 1 ''q2'',
      Inward 0 ''a1'' client_1]"
  by (simp add: sample_defs Let_def sends_shown_def appended_def)

text \<open>
  A send that outlives its session: the relay task of the client times out and leaves the table
  while \<open>send_to\<close> is under way, and the datagram leaves on the socket of a session that is over.
\<close>

lemma send_outlives_session:
  "\<exists>p. udp_run [Datagram client_1 ''q1'', Locked True, Elapse 60000, RelayTimeout 0, RelayLeaves 0, SendDone True]
         (udp_new ''10.0.0.1:53'') = Some p \<and>
       ud_clients p = Map.empty \<and> ud_sent p = [(0, name_server, ''q1'')]"
  by (simp add: sample_defs Let_def RELAY_TIMEOUT_MS_def relay_break_def relay_remove_def)

theorem udp_proxy_refines_sessions_witness:
  "spec_run session_step no_sessions (udp_trace sample_events (udp_new ''10.0.0.1:53'')) (session_view sample_proxy) \<and>
   map (\<lambda>(s, t, d). (s, d)) (ud_sent sample_proxy) = [(0, ''q1''), (1, ''q2'')]"
  using udp_proxy_refines_sessions [OF sample_run] by (simp add: sample_trace del: spec_run_Cons)

theorem udp_clients_isolated_witness:
  "Inward 0 ''a1'' client_1 \<in> set (udp_trace sample_events (udp_new ''10.0.0.1:53'')) \<and>
   Inward 0 ''a1'' client_2 \<notin> set (udp_trace sample_events (udp_new ''10.0.0.1:53''))"
  using udp_clients_isolated [OF sample_run, of client_1 0 "''q1''" "''a1''" client_2] by (auto simp: sample_trace)

theorem udp_forwards_in_order_witness:
  "forwarded sample_proxy = [(client_1, ''q1''), (client_2, ''q2'')] \<and> received sample_events = forwarded sample_proxy"
  using udp_forwards_in_order [OF sample_run]
  by (simp add: forwarded_def received_def sample_events_def sample_proxy_def failure_def name_server_parsed)

lemma udp_replies_are_responses_witness:
  "ud_replied sample_proxy = [(client_1, ''a1'')] \<and>
   run_udp_proxy (Response 0 client_2 ''forged'' True) sample_proxy = run_udp_proxy (Response 0 name_server ''forged'' True) sample_proxy"
  using udp_replies_are_responses [OF sample_run, of 0 client_2 "''forged''" True name_server]
  by (simp add: responses_def sample_events_def) (simp add: sample_proxy_def)

lemma udp_session_expires_witness:
  "run_udp_proxy (RelayTimeout 1) sample_proxy = None"
  using udp_session_expires [OF sample_run, of 1 "\<lparr>rl_client = client_2, rl_since = 0, rl_leaving = False\<rparr>"]
  by (simp add: sample_proxy_def relaying_def)

lemma udp_sessions_outlive_stop_witness:
  "\<exists>q'. run_udp_proxy (Response 1 name_server ''a2'' True) (leave_loop sample_proxy) = Some q' \<and>
     ud_replied q' = [(client_1, ''a1''), (client_2, ''a2'')]"
proof -
  have stop: "udp_run (sample_events @ [ShutdownSignal]) (udp_new ''10.0.0.1:53'') = Some (leave_loop sample_proxy)"
    by (simp add: run_events_snoc sample_run) (simp add: sample_proxy_def)
  have "relaying 1 (leave_loop sample_proxy) = Some \<lparr>rl_client = client_2, rl_since = 0, rl_leaving = False\<rparr>"
    by (simp add: relaying_def leave_loop_def sample_proxy_def)
  with udp_sessions_outlive_stop [OF stop, of "[]"] show ?thesis
    by (auto simp: leave_loop_def sample_proxy_def)
qed

end
