(* ===== verification/Proxy_Planes.thy ===== *)
theory Proxy_Planes
  imports Proxy_Facts Tcp_Relay Udp_Facts
begin

text \<open>
  The proxy manager together with the data planes of the tasks it has spawned. The manager tells a
  task to stop through its channel; the task's loop sees the signal at some later step, or ends on
  its own after an error of its socket, of which the manager is not told.
\<close>

section \<open>Tasks and their data planes\<close>

datatype plane = TcpPlane tcp_proxy | UdpPlane udp_proxy

text \<open>The task spawned by \<open>ensure_proxy\<close>.\<close>

definition plane_for :: "proxy_task \<Rightarrow> plane" where
  "plane_for t = (case pt_protocol t of Tcp \<Rightarrow> TcpPlane (tcp_new (pt_target t)) | Udp \<Rightarrow> UdpPlane (udp_new (pt_target t)))"

record proxies =
  pl_manager :: proxy_manager
  pl_planes :: "plane list"

datatype proxies_event =
    Manage proxy_op
  | OnTcp nat tcp_event
  | OnUdp nat udp_event

definition proxies_new :: "string \<Rightarrow> proxies" where
  "proxies_new ip = \<lparr>pl_manager = new_manager ip, pl_planes = []\<rparr>"

text \<open>The shutdown branch of a \<open>select!\<close> is ready once the task has been told to stop.\<close>

definition told_to_stop :: "proxies \<Rightarrow> nat \<Rightarrow> bool" where
  "told_to_stop s i \<longleftrightarrow> i < length (px_tasks (pl_manager s)) \<and> pt_stop (px_tasks (pl_manager s) ! i)"

fun proxies_step :: "os_bind \<Rightarrow> proxies_event \<Rightarrow> proxies \<Rightarrow> proxies option" where
  "proxies_step bnd (Manage op) s =
     (let m = run_op bnd op (pl_manager s)
      in Some \<lparr>pl_manager = m, pl_planes = pl_planes s @ map plane_for (drop (length (pl_planes s)) (px_tasks m))\<rparr>)"
| "proxies_step bnd (OnTcp i ev) s =
     (if i < length (pl_planes s) \<and> (ev = StopSignal \<longrightarrow> told_to_stop s i)
      then case pl_planes s ! i of
             TcpPlane t \<Rightarrow> map_option (\<lambda>t'. s\<lparr>pl_planes := (pl_planes s)[i := TcpPlane t']\<rparr>) (run_tcp_proxy ev t)
           | UdpPlane u \<Rightarrow> None
      else None)"
| "proxies_step bnd (OnUdp i ev) s =
     (if i < length (pl_planes s) \<and> (ev = ShutdownSignal \<longrightarrow> told_to_stop s i)
      then case pl_planes s ! i of
             UdpPlane u \<Rightarrow> map_option (\<lambda>u'. s\<lparr>pl_planes := (pl_planes s)[i := UdpPlane u']\<rparr>) (run_udp_proxy ev u)
           | TcpPlane t \<Rightarrow> None
      else None)"

abbreviation proxies_run :: "os_bind \<Rightarrow> proxies_event list \<Rightarrow> proxies \<Rightarrow> proxies option" where
  "proxies_run bnd \<equiv> run_events (proxies_step bnd)"

fun serving :: "plane \<Rightarrow> bool" where
  "serving (TcpPlane t) = tp_accepting t"
| "serving (UdpPlane u) = (ud_phase u \<noteq> Finished)"

section \<open>What the manager does to tasks\<close>

text \<open>The tasks only get more, and a task only changes by being told to stop.\<close>

definition told_more :: "proxy_task \<Rightarrow> proxy_task \<Rightarrow> bool" where
  "told_more t t' \<longleftrightarrow> (t' = t \<or> t' = t\<lparr>pt_stop := True\<rparr>)"

definition tasks_grow :: "proxy_manager \<Rightarrow> proxy_manager \<Rightarrow> bool" where
  "tasks_grow m m' \<longleftrightarrow>
     length (px_tasks m) \<le> length (px_tasks m') \<and>
     (\<forall>i < length (px_tasks m). told_more (px_tasks m ! i) (px_tasks m' ! i)) \<and>
     (\<forall>i < length (px_tasks m'). length (px_tasks m) \<le> i \<longrightarrow> \<not> pt_stop (px_tasks m' ! i))"

lemma tasks_grow_remove: "tasks_grow m (remove_handle key m)"
  by (auto simp: tasks_grow_def told_more_def remove_handle_def split: option.splits)

lemma tasks_grow_op: "tasks_grow m (run_op bnd op m)"
proof (cases op)
  case (EnsureOp key target proto)
  obtain r m' where run: "run_state (ensure_proxy bnd key target proto) m = (r, m')"
    by (cases "run_state (ensure_proxy bnd key target proto) m")
  from run have "tasks_grow m m'"
  proof (cases rule: ensure_proxy_cases)
    case (start port)
    then show ?thesis
      using tasks_grow_remove [of m key] by (auto simp: tasks_grow_def started_def nth_append less_Suc_eq)
  next
    case fail
    then show ?thesis using tasks_grow_remove [of m key] by (simp add: tasks_grow_def)
  qed (simp add: tasks_grow_def told_more_def)
  then show ?thesis by (simp add: EnsureOp run)
qed (simp add: tasks_grow_remove)

lemma proxy_inv_op: "proxy_inv m \<Longrightarrow> proxy_inv (run_op bnd op m)"
  by (cases op) (auto intro: proxy_inv_ensure [OF prod.collapse [symmetric]] proxy_inv_remove)

section \<open>Each task runs by itself\<close>

text \<open>A data plane is in a state that its own events led to, from a start with its task's target.\<close>

fun plane_reached :: "proxy_task \<Rightarrow> plane \<Rightarrow> bool" where
  "plane_reached t (TcpPlane p) \<longleftrightarrow> pt_protocol t = Tcp \<and> (\<exists>evs. tcp_run evs (tcp_new (pt_target t)) = Some p)"
| "plane_reached t (UdpPlane p) \<longleftrightarrow> pt_protocol t = Udp \<and> (\<exists>evs. udp_run evs (udp_new (pt_target t)) = Some p)"

lemma plane_reached_new: "plane_reached t (plane_for t)"
  by (cases "pt_protocol t") (auto simp: plane_for_def intro: exI [of _ "[]"])

lemma plane_reached_told: "told_more t t' \<Longrightarrow> plane_reached t p \<Longrightarrow> plane_reached t' p"
  by (cases p) (auto simp: told_more_def)

definition proxies_inv :: "proxies \<Rightarrow> bool" where
  "proxies_inv s \<longleftrightarrow>
     proxy_inv (pl_manager s) \<and> length (pl_planes s) = length (px_tasks (pl_manager s)) \<and>
     (\<forall>i < length (pl_planes s). plane_reached (px_tasks (pl_manager s) ! i) (pl_planes s ! i))"

lemma plane_reached_step:
  "plane_reached t (TcpPlane p) \<Longrightarrow> run_tcp_proxy e p = Some p' \<Longrightarrow> plane_reached t (TcpPlane p')"
  "plane_reached t (UdpPlane u) \<Longrightarrow> run_udp_proxy f u = Some u' \<Longrightarrow> plane_reached t (UdpPlane u')"
proof -
  show "plane_reached t (TcpPlane p')" if "plane_reached t (TcpPlane p)" "run_tcp_proxy e p = Some p'"
  proof -
    from that obtain evs where "pt_protocol t = Tcp" "tcp_run evs (tcp_new (pt_target t)) = Some p" by auto
    with that(2) have "tcp_run (evs @ [e]) (tcp_new (pt_target t)) = Some p'" by (simp add: run_events_snoc)
    with \<open>pt_protocol t = Tcp\<close> show ?thesis by auto
  qed
  show "plane_reached t (UdpPlane u')" if "plane_reached t (UdpPlane u)" "run_udp_proxy f u = Some u'"
  proof -
    from that obtain evs where "pt_protocol t = Udp" "udp_run evs (udp_new (pt_target t)) = Some u" by auto
    with that(2) have "udp_run (evs @ [f]) (udp_new (pt_target t)) = Some u'" by (simp add: run_events_snoc)
    with \<open>pt_protocol t = Udp\<close> show ?thesis by auto
  qed
qed

lemma proxies_inv_update:
  "proxies_inv s \<Longrightarrow> i < length (pl_planes s) \<Longrightarrow> plane_reached (px_tasks (pl_manager s) ! i) p \<Longrightarrow>
   proxies_inv (s\<lparr>pl_planes := (pl_planes s)[i := p]\<rparr>)"
  by (auto simp: proxies_inv_def nth_list_update)

lemma serving_new: "serving (plane_for t)"
  by (simp add: plane_for_def tcp_new_def udp_new_def split: protocol.splits)

interpretation planes: step_invariant "proxies_step bnd" proxies_inv for bnd
proof
  fix s e s'
  assume inv: "proxies_inv s" and step: "proxies_step bnd e s = Some s'"
  show "proxies_inv s'"
  proof (cases e)
    case (Manage op)
    let ?m = "pl_manager s" and ?n = "run_op bnd op (pl_manager s)"
    have s': "s' = \<lparr>pl_manager = ?n, pl_planes = pl_planes s @ map plane_for (drop (length (px_tasks ?m)) (px_tasks ?n))\<rparr>"
      using step inv by (simp add: Manage Let_def proxies_inv_def)
    have grow: "tasks_grow ?m ?n" by (rule tasks_grow_op)
    have "plane_reached (px_tasks ?n ! i) (pl_planes s' ! i)" if "i < length (px_tasks ?n)" for i
    proof (cases "i < length (px_tasks ?m)")
      case True
      then show ?thesis
        using inv grow plane_reached_told by (auto simp: s' proxies_inv_def tasks_grow_def nth_append)
    next
      case False
      then show ?thesis
        using inv grow that by (simp add: s' proxies_inv_def tasks_grow_def nth_append plane_reached_new)
    qed
    then show ?thesis
      using inv grow proxy_inv_op by (auto simp: s' proxies_inv_def tasks_grow_def)
  next
    case (OnTcp i ev)
    with step obtain t t' where i: "i < length (pl_planes s)" "pl_planes s ! i = TcpPlane t"
      and t': "run_tcp_proxy ev t = Some t'" and s': "s' = s\<lparr>pl_planes := (pl_planes s)[i := TcpPlane t']\<rparr>"
      by (auto split: if_splits plane.splits)
    have "plane_reached (px_tasks (pl_manager s) ! i) (TcpPlane t)" using inv i by (auto simp: proxies_inv_def)
    then show ?thesis unfolding s' using inv i(1) plane_reached_step(1) [OF _ t'] by (intro proxies_inv_update) auto
  next
    case (OnUdp i ev)
    with step obtain u u' where i: "i < length (pl_planes s)" "pl_planes s ! i = UdpPlane u"
      and u': "run_udp_proxy ev u = Some u'" and s': "s' = s\<lparr>pl_planes := (pl_planes s)[i := UdpPlane u']\<rparr>"
      by (auto split: if_splits plane.splits)
    have "plane_reached (px_tasks (pl_manager s) ! i) (UdpPlane u)" using inv i by (auto simp: proxies_inv_def)
    then show ?thesis unfolding s' using inv i(1) plane_reached_step(2) [OF _ u'] by (intro proxies_inv_update) auto
  qed
qed

lemma proxies_inv_new: "proxies_inv (proxies_new ip)"
  by (simp add: proxies_inv_def proxies_new_def) (simp add: new_manager_def)

lemma proxies_reach_inv: "proxies_run bnd evs (proxies_new ip) = Some s \<Longrightarrow> proxies_inv s"
  using planes.inv_run proxies_inv_new by blast

section \<open>Handles and their listeners\<close>

lemma handle_plane:
  assumes "proxies_inv s" and "px_proxies (pl_manager s) key = Some h"
  shows "ph_shutdown h < length (pl_planes s)" "plane_reached (task_of key h) (pl_planes s ! ph_shutdown h)"
    "\<not> told_to_stop s (ph_shutdown h)"
  using assms proxy_inv_handle [of "pl_manager s" key h]
  by (auto simp: proxies_inv_def told_to_stop_def task_of_def)

lemma tcp_ends: "run_tcp_proxy e t = Some t' \<Longrightarrow> tp_accepting t \<Longrightarrow> \<not> tp_accepting t' \<Longrightarrow> e = AcceptError \<or> e = StopSignal"
  by (cases e) (auto split: if_splits)

lemma udp_ends:
  "run_udp_proxy e p = Some q \<Longrightarrow> ud_phase p \<noteq> Finished \<Longrightarrow> ud_phase q = Finished \<Longrightarrow> e = RecvError \<or> e = ShutdownSignal"
  by (cases e)
    (auto simp: on_datagram_def route_datagram_def upstream_for_def spawn_relay_def forwarded_datagram_def
      relay_response_def relay_break_def relay_remove_def Let_def split: if_splits option.splits udp_phase.splits)

definition socket_error :: "proxies_event \<Rightarrow> bool" where
  "socket_error e \<longleftrightarrow> (\<exists>i. e = OnTcp i AcceptError \<or> e = OnUdp i RecvError)"

definition ended_told :: "proxies \<Rightarrow> bool" where
  "ended_told s \<longleftrightarrow> (\<forall>i < length (pl_planes s). \<not> serving (pl_planes s ! i) \<longrightarrow> told_to_stop s i)"

lemma ended_told_update:
  assumes "ended_told s" and "\<not> serving p \<Longrightarrow> told_to_stop s i"
  shows "ended_told (s\<lparr>pl_planes := (pl_planes s)[i := p]\<rparr>)"
  unfolding ended_told_def
proof (intro allI impI)
  fix j
  assume "j < length (pl_planes (s\<lparr>pl_planes := (pl_planes s)[i := p]\<rparr>))"
    and "\<not> serving (pl_planes (s\<lparr>pl_planes := (pl_planes s)[i := p]\<rparr>) ! j)"
  with assms show "told_to_stop (s\<lparr>pl_planes := (pl_planes s)[i := p]\<rparr>) j"
    by (cases "j = i") (auto simp: ended_told_def told_to_stop_def)
qed

lemma ended_told_step:
  assumes inv: "proxies_inv s" and told: "ended_told s" and step: "proxies_step bnd e s = Some s'" and "\<not> socket_error e"
  shows "ended_told s'"
proof (cases e)
  case (Manage op)
  let ?m = "run_op bnd op (pl_manager s)"
  have s': "s' = \<lparr>pl_manager = ?m, pl_planes = pl_planes s @ map plane_for (drop (length (pl_planes s)) (px_tasks ?m))\<rparr>"
    using step by (simp add: Manage Let_def)
  have grow: "tasks_grow (pl_manager s) ?m" by (rule tasks_grow_op)
  show ?thesis
    unfolding ended_told_def
  proof (intro allI impI)
    fix i assume i: "i < length (pl_planes s')" "\<not> serving (pl_planes s' ! i)"
    have old: "i < length (pl_planes s)"
    proof (rule ccontr)
      assume "\<not> i < length (pl_planes s)"
      with i show False by (simp add: s' nth_append serving_new)
    qed
    with i have "told_to_stop s i" using told by (simp add: s' nth_append ended_told_def)
    with grow show "told_to_stop s' i"
      by (auto simp: s' told_to_stop_def tasks_grow_def told_more_def)
  qed
next
  case (OnTcp i ev)
  with step obtain t t' where i: "i < length (pl_planes s)" "pl_planes s ! i = TcpPlane t" "ev = StopSignal \<longrightarrow> told_to_stop s i"
    and t': "run_tcp_proxy ev t = Some t'" and s': "s' = s\<lparr>pl_planes := (pl_planes s)[i := TcpPlane t']\<rparr>"
    by (auto split: if_splits plane.splits)
  have "told_to_stop s i" if "\<not> tp_accepting t'"
  proof (cases "tp_accepting t")
    case True
    then show ?thesis using tcp_ends [OF t' True that] i(3) assms(4) by (auto simp: OnTcp socket_error_def)
  next
    case False
    then show ?thesis using told i by (simp add: ended_told_def)
  qed
  then show ?thesis unfolding s' by (intro ended_told_update told) simp
next
  case (OnUdp i ev)
  with step obtain u u' where i: "i < length (pl_planes s)" "pl_planes s ! i = UdpPlane u" "ev = ShutdownSignal \<longrightarrow> told_to_stop s i"
    and u': "run_udp_proxy ev u = Some u'" and s': "s' = s\<lparr>pl_planes := (pl_planes s)[i := UdpPlane u']\<rparr>"
    by (auto split: if_splits plane.splits)
  have "told_to_stop s i" if "ud_phase u' = Finished"
  proof (cases "ud_phase u = Finished")
    case False
    then show ?thesis using udp_ends [OF u' False that] i(3) assms(4) by (auto simp: OnUdp socket_error_def)
  next
    case True
    then show ?thesis using told i by (simp add: ended_told_def)
  qed
  then show ?thesis unfolding s' by (intro ended_told_update told) simp
qed

interpretation planes_told: history_invariant "proxies_step bnd"
  "\<lambda>evs s. proxies_inv s \<and> ((\<forall>e \<in> set evs. \<not> socket_error e) \<longrightarrow> ended_told s)" for bnd
proof (unfold_locales, elim conjE, intro conjI)
  fix evs s e t
  assume inv: "proxies_inv s" and step: "proxies_step bnd e s = Some t"
    and told: "(\<forall>e \<in> set evs. \<not> socket_error e) \<longrightarrow> ended_told s"
  show "proxies_inv t" using planes.inv_step inv step .
  show "(\<forall>e \<in> set (evs @ [e]). \<not> socket_error e) \<longrightarrow> ended_told t"
    using ended_told_step [OF inv _ step] told by auto
qed

text \<open>
  C26. As long as no socket fails, every proxy of the table is served: its task is still in its loop,
  accepting connections or receiving datagrams, whatever calls, clients and targets did in between; a
  task leaves its loop only after the manager has told it to.
\<close>

theorem proxies_serve_until_error:
  assumes "proxies_run bnd evs (proxies_new ip) = Some s" and "\<forall>e \<in> set evs. \<not> socket_error e"
    and "px_proxies (pl_manager s) key = Some h"
  shows "serving (pl_planes s ! ph_shutdown h)"
proof -
  have "ended_told (proxies_new ip)" by (simp add: ended_told_def proxies_new_def)
  then have "proxies_inv s \<and> ended_told s"
    using planes_told.H_reach [of "proxies_new ip" bnd evs s] assms(1,2) proxies_inv_new by blast
  with handle_plane [OF _ assms(3)] show ?thesis by (auto simp: ended_told_def)
qed

text \<open>
  But a task that ended on an error of its socket stays in the table: every later
  \<open>ensure_proxy\<close> for the same target returns its port and starts nothing, so the mapping points to a
  port nobody listens on until the target changes or the proxy is stopped.
\<close>

lemma dead_proxy_never_replaced:
  assumes "proxies_run bnd evs (proxies_new ip) = Some s" and "px_proxies (pl_manager s) key = Some h"
    and "\<not> serving (pl_planes s ! ph_shutdown h)"
  shows "run_state (ensure_proxy bnd key (ph_target h) (ph_protocol h)) (pl_manager s) = (Ok (ph_local_port h), pl_manager s) \<and>
    proxies_run bnd (replicate n (Manage (EnsureOp key (ph_target h) (ph_protocol h)))) s = Some s"
proof -
  have ensure: "run_state (ensure_proxy bnd key (ph_target h) (ph_protocol h)) (pl_manager s) = (Ok (ph_local_port h), pl_manager s)"
    by (rule run_ensure_same) (simp add: same_proxy_def assms(2))
  have "length (pl_planes s) = length (px_tasks (pl_manager s))"
    using proxies_reach_inv [OF assms(1)] by (simp add: proxies_inv_def)
  with ensure have "proxies_step bnd (Manage (EnsureOp key (ph_target h) (ph_protocol h))) s = Some s" by simp
  then have "proxies_run bnd (replicate n (Manage (EnsureOp key (ph_target h) (ph_protocol h)))) s = Some s"
    by (induction n) simp_all
  with ensure show ?thesis by blast
qed

text \<open>
  The traffic of a UDP proxy of the table, in a process with any number of proxies, goes where its
  handle says: all its datagrams have been sent to the address its target stands for, in the order
  its clients sent them, and none has been sent if the target is not such an address.
\<close>

lemma udp_proxy_serves_its_handle:
  assumes "proxies_run bnd evs (proxies_new ip) = Some s" and "px_proxies (pl_manager s) key = Some h"
    and "ph_protocol h = Udp"
  shows "\<exists>u local. pl_planes s ! ph_shutdown h = UdpPlane u \<and> udp_run local (udp_new (ph_target h)) = Some u \<and>
    subseq (forwarded u) (received local) \<and>
    (\<forall>(sock, t, d) \<in> set (ud_sent u). parse_socket_addr (ph_target h) = Some t)"
proof -
  from handle_plane(2) [OF proxies_reach_inv [OF assms(1)] assms(2)] assms(3)
  obtain u local where u: "pl_planes s ! ph_shutdown h = UdpPlane u" "udp_run local (udp_new (ph_target h)) = Some u"
    by (cases "pl_planes s ! ph_shutdown h") (auto simp: task_of_def)
  note t = udp_traffic [OF u(2)]
  have "subseq (forwarded u) (received local)"
    using subseq_order.order_trans [OF prefix_imp_subseq t(3)] by (simp add: traffic_def)
  moreover have "\<forall>(sock, t, d) \<in> set (ud_sent u). parse_socket_addr (ph_target h) = Some t"
    using t(1,2) by (auto simp: udp_inv_def sent_ok_def)
  ultimately show ?thesis using u by blast
qed


section \<open>Runs\<close>

lemma first_ensure:
  "run_state (ensure_proxy next_port_bind key target proto) (new_manager ip) =
     (Ok 1, started key target proto 1 (count_bind (new_manager ip)))"
  by (simp add: run_ensure_other same_proxy_def run_restart_proxy next_port_bind_def new_manager_def
      remove_handle_def live_sockets_def unstopped_def Let_def)

definition one_proxy :: "string \<Rightarrow> string \<Rightarrow> protocol \<Rightarrow> plane \<Rightarrow> proxies" where
  "one_proxy key target proto plane =
     \<lparr>pl_manager = started key target proto 1 (count_bind (new_manager ''192.168.0.2'')), pl_planes = [plane]\<rparr>"

lemma one_proxy_run:
  "proxies_run next_port_bind [Manage (EnsureOp key target proto)] (proxies_new ''192.168.0.2'') =
     Some (one_proxy key target proto (plane_for \<lparr>pt_port = 1, pt_target = target, pt_protocol = proto, pt_key = key, pt_stop = False\<rparr>))"
  by (simp add: proxies_new_def first_ensure one_proxy_def Let_def) (simp add: started_def new_manager_def)

lemma one_proxy_handle:
  "px_proxies (pl_manager (one_proxy key target proto plane)) key =
     Some \<lparr>ph_local_port = 1, ph_target = target, ph_protocol = proto, ph_shutdown = 0\<rparr>"
  "pl_planes (one_proxy key target proto plane) = [plane]"
  by (simp_all add: one_proxy_def started_def) (simp add: new_manager_def)

theorem proxies_serve_until_error_witness:
  "serving (pl_planes (one_proxy ''k'' ''10.0.0.1:80'' Tcp (TcpPlane (tcp_new ''10.0.0.1:80''))) ! 0)"
proof -
  have run: "proxies_run next_port_bind [Manage (EnsureOp ''k'' ''10.0.0.1:80'' Tcp)] (proxies_new ''192.168.0.2'') =
     Some (one_proxy ''k'' ''10.0.0.1:80'' Tcp (TcpPlane (tcp_new ''10.0.0.1:80'')))"
    unfolding one_proxy_run by (simp add: plane_for_def)
  from proxies_serve_until_error [OF run _ one_proxy_handle(1)] show ?thesis by (simp add: socket_error_def)
qed

lemma accept_error_run:
  "proxies_run next_port_bind ([Manage (EnsureOp ''k'' ''10.0.0.1:80'' Tcp)] @ [OnTcp 0 AcceptError]) (proxies_new ''192.168.0.2'') =
     Some (one_proxy ''k'' ''10.0.0.1:80'' Tcp (TcpPlane (tcp_new ''10.0.0.1:80''\<lparr>tp_accepting := False\<rparr>)))"
  unfolding run_events_snoc one_proxy_run by (simp add: plane_for_def one_proxy_def tcp_new_def)

lemma dead_proxy_never_replaced_witness:
  "fst (run_state (ensure_proxy next_port_bind ''k'' ''10.0.0.1:80'' Tcp)
      (pl_manager (one_proxy ''k'' ''10.0.0.1:80'' Tcp (TcpPlane (tcp_new ''10.0.0.1:80''\<lparr>tp_accepting := False\<rparr>))))) = Ok 1"
  using dead_proxy_never_replaced [OF accept_error_run one_proxy_handle(1)] by (simp add: one_proxy_handle(2))

lemma udp_proxy_serves_its_handle_witness:
  "\<exists>u local. pl_planes (one_proxy ''k'' ''10.0.0.1:53'' Udp (UdpPlane (udp_new ''10.0.0.1:53''))) ! 0 = UdpPlane u \<and>
     udp_run local (udp_new ''10.0.0.1:53'') = Some u \<and> subseq (forwarded u) (received local)"
proof -
  have run: "proxies_run next_port_bind [Manage (EnsureOp ''k'' ''10.0.0.1:53'' Udp)] (proxies_new ''192.168.0.2'') =
     Some (one_proxy ''k'' ''10.0.0.1:53'' Udp (UdpPlane (udp_new ''10.0.0.1:53'')))"
    unfolding one_proxy_run by (simp add: plane_for_def)
  from udp_proxy_serves_its_handle [OF run one_proxy_handle(1)] show ?thesis by auto
qed

end
