(* ===== verification/Proxy_Calls.thy ===== *)
theory Proxy_Calls
  imports Proxy_Facts Event_Systems
begin

text \<open>
  Calls of the proxy manager that overlap. \<open>ensure_proxy\<close> holds the lock of the table only to look
  up, to remove (in \<open>stop_proxy\<close>) and to insert; in between other calls can run. Here each of these
  sections is a step, any number of calls are under way, and their steps interleave in any order.
  Run without interruption the steps of a call are \<open>ensure_proxy\<close> of the theory \<open>Proxy\<close>, and the
  promise that no proxy is leaked holds for every interleaving.
\<close>

section \<open>Calls under way\<close>

text \<open>Where a call is: which of its sections comes next, with its local variables.\<close>

datatype proxy_call =
    EnsureCheck string string protocol
  | EnsureStop string string protocol
  | EnsureBind string string protocol
  | EnsureInsert string proxy_handle        \<comment> \<open>bound and spawned; the handle holds the sender\<close>
  | StopCall string
  | Returned "(string, u16) outcome"
  | StopReturned

fun call_section :: "os_bind \<Rightarrow> proxy_call \<Rightarrow> proxy_manager \<Rightarrow> (proxy_call \<times> proxy_manager) option" where
  "call_section bnd (EnsureCheck key target proto) m =
     Some (case px_proxies m key of
             Some handle \<Rightarrow>
               if ph_target handle = target \<and> ph_protocol handle = proto
               then (Returned (Ok (ph_local_port handle)), m)
               else (EnsureStop key target proto, m)
           | None \<Rightarrow> (EnsureStop key target proto, m))"
| "call_section bnd (EnsureStop key target proto) m =
     Some (EnsureBind key target proto, snd (run_state (stop_proxy key) m))"
| "call_section bnd (EnsureBind key target proto) m =
     Some (case run_state (bind_socket bnd proto) m of
             (BindFailed e, m) \<Rightarrow> (Returned (Err (bind_error proto e)), m)
           | (LocalAddrFailed e, m) \<Rightarrow> (Returned (Err (''Failed to get local addr: '' @ e)), m)
           | (Bound local_port, m) \<Rightarrow>
               (case run_state (spawn_proxy key target proto local_port) m of
                  (c, m) \<Rightarrow>
                    (EnsureInsert key \<lparr>ph_local_port = local_port, ph_target = target, ph_protocol = proto, ph_shutdown = c\<rparr>, m)))"
| "call_section bnd (EnsureInsert key handle) m =
     Some (Returned (Ok (ph_local_port handle)), insert_handle key handle m)"
| "call_section bnd (StopCall key) m = Some (StopReturned, snd (run_state (stop_proxy key) m))"
| "call_section bnd (Returned r) m = None"
| "call_section bnd StopReturned m = None"

record call_pool =
  cp_manager :: proxy_manager
  cp_calls :: "proxy_call list"

datatype pool_event =
    Ensure string string protocol     \<comment> \<open>somebody calls \<open>ensure_proxy\<close>\<close>
  | Stop string
  | Section nat                       \<comment> \<open>the next section of a call\<close>

fun pool_step :: "os_bind \<Rightarrow> pool_event \<Rightarrow> call_pool \<Rightarrow> call_pool option" where
  "pool_step bnd (Ensure key target proto) p = Some (p\<lparr>cp_calls := cp_calls p @ [EnsureCheck key target proto]\<rparr>)"
| "pool_step bnd (Stop key) p = Some (p\<lparr>cp_calls := cp_calls p @ [StopCall key]\<rparr>)"
| "pool_step bnd (Section i) p =
     (if i < length (cp_calls p)
      then map_option (\<lambda>(c, m). \<lparr>cp_manager = m, cp_calls = (cp_calls p)[i := c]\<rparr>)
             (call_section bnd (cp_calls p ! i) (cp_manager p))
      else None)"

definition pool_new :: "string \<Rightarrow> call_pool" where
  "pool_new ip = \<lparr>cp_manager = new_manager ip, cp_calls = []\<rparr>"

abbreviation pool_run :: "os_bind \<Rightarrow> pool_event list \<Rightarrow> call_pool \<Rightarrow> call_pool option" where
  "pool_run bnd \<equiv> run_events (pool_step bnd)"

section \<open>A call by itself\<close>

text \<open>The sections of one call, one after the other.\<close>

fun finish_call :: "os_bind \<Rightarrow> nat \<Rightarrow> proxy_call \<times> proxy_manager \<Rightarrow> proxy_call \<times> proxy_manager" where
  "finish_call bnd 0 s = s"
| "finish_call bnd (Suc n) s = (case call_section bnd (fst s) (snd s) of None \<Rightarrow> s | Some s' \<Rightarrow> finish_call bnd n s')"

lemma insert_absent:
  "px_proxies m key = None \<Longrightarrow> insert_handle key h m = m\<lparr>px_proxies := (px_proxies m)(key \<mapsto> h)\<rparr>"
  by (simp add: insert_handle_def)

text \<open>
  A call that is not interrupted is \<open>ensure_proxy\<close>: after at most four sections it has returned,
  with the same result and the same state.
\<close>

lemma uninterrupted_call_is_ensure_proxy:
  "finish_call bnd 4 (EnsureCheck key target proto, m) =
     (let (r, m') = run_state (ensure_proxy bnd key target proto) m in (Returned r, m'))"
proof -
  have finish: "finish_call bnd 3 (EnsureStop key target proto, m) =
     (let (r, m') = run_state (restart_proxy bnd key target proto) m in (Returned r, m'))"
    by (simp add: restart_proxy_def bind_socket_def spawn_proxy_def eval_nat_numeral Let_def split: bind_reply.splits)
  show ?thesis
  proof (cases "\<exists>port. same_proxy m key target proto port")
    case True
    then obtain port where same: "same_proxy m key target proto port" ..
    then show ?thesis
      by (auto simp: run_ensure_same [OF same] eval_nat_numeral) (auto simp: same_proxy_def split: option.splits)
  next
    case False
    then have "call_section bnd (EnsureCheck key target proto) m = Some (EnsureStop key target proto, m)"
      by (auto simp: same_proxy_def split: option.splits)
    then have "finish_call bnd (Suc 3) (EnsureCheck key target proto, m) = finish_call bnd 3 (EnsureStop key target proto, m)"
      by (simp only: finish_call.simps fst_conv snd_conv option.case)
    moreover have "Suc 3 = (4::nat)" by simp
    ultimately have "finish_call bnd 4 (EnsureCheck key target proto, m) = finish_call bnd 3 (EnsureStop key target proto, m)"
      by metis
    with False finish show ?thesis by (simp add: run_ensure_other del: finish_call.simps)
  qed
qed

section \<open>Who holds a task\<close>

text \<open>
  The sender of a task's channel is held in one place: a handle of the table, or the local variables
  of a call that is about to insert it. The holders are the keys and the calls. Every holder leads to
  a task not told to stop for it, no two to the same one, and every such task is held.
\<close>

type_synonym holders = "string + nat \<Rightarrow> (string \<times> proxy_handle) option"

definition holders_ok :: "proxy_task list \<Rightarrow> holders \<Rightarrow> bool" where
  "holders_ok ts H \<longleftrightarrow>
     (\<forall>x k h. H x = Some (k, h) \<longrightarrow> ph_shutdown h < length ts \<and> ts ! ph_shutdown h = task_of k h) \<and>
     (\<forall>x y k h k' h'. H x = Some (k, h) \<longrightarrow> H y = Some (k', h') \<longrightarrow> ph_shutdown h = ph_shutdown h' \<longrightarrow> x = y) \<and>
     (\<forall>c < length ts. \<not> pt_stop (ts ! c) \<longrightarrow> (\<exists>x k h. H x = Some (k, h) \<and> ph_shutdown h = c))"

text \<open>A holder lets go and the task is told to stop; a new task is held; a task changes hands.\<close>

lemma holders_release:
  assumes ok: "holders_ok ts H" and x: "H x = Some (k, h)"
  shows "holders_ok (signal (ph_shutdown h) ts) (H(x := None))"
proof -
  have other: "ph_shutdown h' \<noteq> ph_shutdown h" if "H y = Some (k', h')" "y \<noteq> x" for y k' h'
    using ok x that unfolding holders_ok_def by metis
  have held: "\<exists>y k' h'. y \<noteq> x \<and> H y = Some (k', h') \<and> ph_shutdown h' = c"
    if "c < length ts" "\<not> pt_stop (ts ! c)" "c \<noteq> ph_shutdown h" for c
    using ok x that unfolding holders_ok_def by (metis option.inject prod.inject)
  show ?thesis
    unfolding holders_ok_def
  proof (intro conjI allI impI, goal_cases)
    case (1 y k' h')
    then show ?case using ok other by (auto simp: holders_ok_def split: if_splits)
  next
    case (2 y k' h')
    then show ?case using ok other by (auto simp: holders_ok_def split: if_splits)
  next
    case (3 y z k1 h1 k2 h2)
    then show ?case using ok unfolding holders_ok_def by (metis fun_upd_apply option.distinct(1))
  next
    case (4 c)
    then show ?case using held [of c] by (auto split: if_splits)
  qed
qed

lemma holders_acquire:
  assumes ok: "holders_ok ts H" and x: "H x = None" and h: "ph_shutdown h = length ts"
  shows "holders_ok (ts @ [task_of k h]) (H(x \<mapsto> (k, h)))"
proof -
  have old: "ph_shutdown h' < length ts \<and> ts ! ph_shutdown h' = task_of k' h'" if "H y = Some (k', h')" for y k' h'
    using ok that by (simp add: holders_ok_def)
  show ?thesis
    unfolding holders_ok_def
  proof (intro conjI allI impI, goal_cases)
    case (1 y k' h')
    then show ?case using old [of y k' h'] h by (auto split: if_splits)
  next
    case (2 y k' h')
    then show ?case using old [of y k' h'] h by (auto simp: nth_append split: if_splits)
  next
    case (3 y z k1 h1 k2 h2)
    have "ph_shutdown h' \<noteq> ph_shutdown h" if "H y = Some (k', h')" for y k' h'
      using old [OF that] h by simp
    then show ?case using ok 3 unfolding holders_ok_def by (metis fun_upd_apply option.inject prod.inject)
  next
    case (4 c)
    show ?case
    proof (cases "c = length ts")
      case True
      then show ?thesis using h by (intro exI [of _ x]) simp
    next
      case False
      with 4 have "c < length ts" "\<not> pt_stop (ts ! c)" by (auto simp: nth_append)
      then obtain y k' h' where "H y = Some (k', h')" "ph_shutdown h' = c" using ok unfolding holders_ok_def by blast
      then show ?thesis using x by (intro exI [of _ y]) auto
    qed
  qed
qed

lemma holders_move:
  assumes ok: "holders_ok ts H" and x: "H x = Some v" and y: "H y = None"
  shows "holders_ok ts (H(x := None, y \<mapsto> v))"
proof -
  have mine: "z = x" if "H z = Some (k', h')" "v = (k, h)" "ph_shutdown h = ph_shutdown h'" for z k h k' h'
    using ok x that unfolding holders_ok_def by metis
  show ?thesis
    unfolding holders_ok_def
  proof (intro conjI allI impI, goal_cases)
    case (3 u w k1 h1 k2 h2)
    then show ?case using ok mine x unfolding holders_ok_def by (auto split: if_splits)
  next
    case (4 c)
    then obtain u k h where "H u = Some (k, h)" "ph_shutdown h = c" using ok unfolding holders_ok_def by blast
    then show ?case using x y by (cases "u = x") (auto intro: exI [of _ y] exI [of _ u])
  qed (use ok x in \<open>auto simp: holders_ok_def split: if_splits\<close>)
qed

section \<open>The invariant of all interleavings\<close>

fun pending :: "proxy_call \<Rightarrow> (string \<times> proxy_handle) option" where
  "pending (EnsureInsert key h) = Some (key, h)"
| "pending _ = None"

definition holders_of :: "call_pool \<Rightarrow> holders" where
  "holders_of p x =
     (case x of
        Inl key \<Rightarrow> map_option (Pair key) (px_proxies (cp_manager p) key)
      | Inr i \<Rightarrow> if i < length (cp_calls p) then pending (cp_calls p ! i) else None)"

definition pool_inv :: "call_pool \<Rightarrow> bool" where
  "pool_inv p \<longleftrightarrow> holders_ok (px_tasks (cp_manager p)) (holders_of p)"

text \<open>The effect of a section on the holders.\<close>

lemma holders_call:
  "i < length cs \<Longrightarrow>
   holders_of \<lparr>cp_manager = m, cp_calls = cs[i := c]\<rparr> = (holders_of \<lparr>cp_manager = m, cp_calls = cs\<rparr>)(Inr i := pending c)"
  by (auto simp: holders_of_def fun_eq_iff nth_list_update split: sum.splits)

lemma holders_table:
  "holders_of \<lparr>cp_manager = m\<lparr>px_proxies := (px_proxies m)(key := v)\<rparr>, cp_calls = cs\<rparr> =
     (holders_of \<lparr>cp_manager = m, cp_calls = cs\<rparr>)(Inl key := map_option (Pair key) v)"
  "holders_of \<lparr>cp_manager = m\<lparr>px_tasks := ts\<rparr>, cp_calls = cs\<rparr> = holders_of \<lparr>cp_manager = m, cp_calls = cs\<rparr>"
  "holders_of \<lparr>cp_manager = m\<lparr>px_binds := n\<rparr>, cp_calls = cs\<rparr> = holders_of \<lparr>cp_manager = m, cp_calls = cs\<rparr>"
  by (auto simp: holders_of_def fun_eq_iff split: sum.splits)

lemma holders_key: "holders_of p (Inl key) = map_option (Pair key) (px_proxies (cp_manager p) key)"
  by (simp add: holders_of_def)

lemma pool_inv_stop:
  assumes "pool_inv \<lparr>cp_manager = m, cp_calls = cs\<rparr>"
  shows "pool_inv \<lparr>cp_manager = remove_handle key m, cp_calls = cs\<rparr>"
proof (cases "px_proxies m key")
  case None
  then show ?thesis using assms by (simp add: remove_handle_def)
next
  case (Some h)
  let ?H = "holders_of \<lparr>cp_manager = m, cp_calls = cs\<rparr>"
  have "holders_ok (signal (ph_shutdown h) (px_tasks m)) (?H(Inl key := None))"
    by (rule holders_release) (use assms Some in \<open>simp_all add: pool_inv_def holders_key\<close>)
  then show ?thesis by (simp add: pool_inv_def remove_handle_def Some holders_table)
qed

lemma pool_inv_insert:
  assumes inv: "pool_inv \<lparr>cp_manager = m, cp_calls = cs\<rparr>" and i: "i < length cs" "cs ! i = EnsureInsert key h"
  shows "pool_inv \<lparr>cp_manager = insert_handle key h m, cp_calls = cs[i := Returned r]\<rparr>"
proof -
  define n where "n = remove_handle key m"
  let ?H = "holders_of \<lparr>cp_manager = n, cp_calls = cs\<rparr>"
  have "pool_inv \<lparr>cp_manager = n, cp_calls = cs\<rparr>" "px_proxies n key = None"
    unfolding n_def using pool_inv_stop [OF inv] by simp_all
  then have "holders_ok (px_tasks n) (?H(Inr i := None, Inl key \<mapsto> (key, h)))"
    by (intro holders_move) (use i in \<open>simp_all add: pool_inv_def holders_of_def\<close>)
  moreover have "insert_handle key h m = n\<lparr>px_proxies := (px_proxies n)(key \<mapsto> h)\<rparr>"
    by (simp add: n_def insert_handle_def remove_handle_def split: option.splits)
  ultimately show ?thesis
    using i by (simp add: pool_inv_def holders_table holders_call fun_upd_twist)
qed

lemma pool_inv_bind:
  assumes inv: "pool_inv \<lparr>cp_manager = m, cp_calls = cs\<rparr>" and i: "i < length cs" "cs ! i = EnsureBind key target proto"
    and step: "call_section bnd (EnsureBind key target proto) m = Some (c, m')"
  shows "pool_inv \<lparr>cp_manager = m', cp_calls = cs[i := c]\<rparr>"
proof -
  let ?H = "holders_of \<lparr>cp_manager = m, cp_calls = cs\<rparr>"
  have idle: "?H (Inr i) = None" using i by (simp add: holders_of_def)
  show ?thesis
  proof (cases "bnd (px_binds m) (live_sockets m) proto")
    case (Bound port)
    let ?h = "\<lparr>ph_local_port = port, ph_target = target, ph_protocol = proto, ph_shutdown = length (px_tasks m)\<rparr>"
    have "holders_ok (px_tasks m @ [task_of key ?h]) (?H(Inr i \<mapsto> (key, ?h)))"
      by (rule holders_acquire) (use inv idle in \<open>simp_all add: pool_inv_def\<close>)
    with step Bound i show ?thesis
      by (auto simp: bind_socket_def spawn_proxy_def pool_inv_def holders_call holders_table task_of_def)
  qed (use step inv i idle in \<open>auto simp: bind_socket_def pool_inv_def holders_call holders_table fun_upd_idem\<close>)
qed

interpretation pool: step_invariant "pool_step bnd" pool_inv for bnd
proof
  fix p e q
  assume inv: "pool_inv p" and step: "pool_step bnd e p = Some q"
  obtain m cs where p: "p = \<lparr>cp_manager = m, cp_calls = cs\<rparr>" by (cases p) auto
  have new: "pool_inv \<lparr>cp_manager = m, cp_calls = cs @ [c]\<rparr>" if "pending c = None" for c
  proof -
    have "holders_of \<lparr>cp_manager = m, cp_calls = cs @ [c]\<rparr> = holders_of \<lparr>cp_manager = m, cp_calls = cs\<rparr>"
      using that by (auto simp: holders_of_def fun_eq_iff nth_append less_Suc_eq split: sum.splits)
    then show ?thesis using inv by (simp add: pool_inv_def p)
  qed
  have goon: "pool_inv \<lparr>cp_manager = m', cp_calls = cs[i := c]\<rparr>"
    if "pool_inv \<lparr>cp_manager = m', cp_calls = cs\<rparr>" "i < length cs" "pending (cs ! i) = None" "pending c = None" for m' i c
  proof -
    have "holders_of \<lparr>cp_manager = m', cp_calls = cs\<rparr> (Inr i) = None" using that by (simp add: holders_of_def)
    then show ?thesis using that by (simp add: pool_inv_def holders_call fun_upd_idem)
  qed
  show "pool_inv q"
  proof (cases e)
    case (Section i)
    with step obtain c m' where i: "i < length cs" and sec: "call_section bnd (cs ! i) m = Some (c, m')"
      and q: "q = \<lparr>cp_manager = m', cp_calls = cs[i := c]\<rparr>"
      by (auto simp: p split: if_splits)
    show ?thesis
    proof (cases "cs ! i")
      case (EnsureCheck key target proto)
      then show ?thesis using sec i inv goon [of m i c] by (auto simp: q p split: option.splits if_splits)
    next
      case (EnsureBind key target proto)
      with sec show ?thesis using pool_inv_bind inv i unfolding p q by metis
    next
      case (EnsureInsert key h)
      then show ?thesis using sec i inv pool_inv_insert by (auto simp: q p)
    qed (use sec i inv goon pool_inv_stop in \<open>auto simp: q p\<close>)
  qed (use step new in \<open>auto simp: p\<close>)
qed

lemma pool_inv_new: "pool_inv (pool_new ip)"
  by (auto simp: pool_inv_def pool_new_def holders_ok_def holders_of_def new_manager_def split: sum.splits)


section \<open>No interleaving leaks a proxy\<close>

text \<open>
  C12. However calls of \<open>ensure_proxy\<close> and \<open>stop_proxy\<close> overlap, the proxy tasks that have not been
  told to stop are exactly those of the table and those a call under way is about to insert; so when no
  call is under way, exactly those of the table.
\<close>

theorem overlapping_calls_leak_no_proxy:
  assumes "pool_run bnd evs (pool_new ip) = Some p"
  shows "set (unstopped (cp_manager p)) =
    {task_of key h | key h. px_proxies (cp_manager p) key = Some h} \<union>
    {task_of key h | key h. EnsureInsert key h \<in> set (cp_calls p)}"
proof -
  let ?ts = "px_tasks (cp_manager p)"
  have ok: "holders_ok ?ts (holders_of p)"
    using pool.inv_run [OF pool_inv_new assms] by (simp add: pool_inv_def)
  have holder: "(\<exists>x. holders_of p x = Some (key, h)) \<longleftrightarrow>
      px_proxies (cp_manager p) key = Some h \<or> EnsureInsert key h \<in> set (cp_calls p)" for key h
  proof -
    have "pending c = Some (key, h) \<longleftrightarrow> c = EnsureInsert key h" for c by (cases c) auto
    then show ?thesis by (auto simp: split_sum_ex holders_of_def in_set_conv_nth)
  qed
  have "t \<in> set (unstopped (cp_manager p)) \<longleftrightarrow> (\<exists>x key h. holders_of p x = Some (key, h) \<and> t = task_of key h)" for t
  proof
    assume "t \<in> set (unstopped (cp_manager p))"
    then obtain c where "c < length ?ts" "t = ?ts ! c" "\<not> pt_stop (?ts ! c)"
      by (auto simp: unstopped_def in_set_conv_nth)
    with ok show "\<exists>x key h. holders_of p x = Some (key, h) \<and> t = task_of key h"
      unfolding holders_ok_def by metis
  next
    assume "\<exists>x key h. holders_of p x = Some (key, h) \<and> t = task_of key h"
    then obtain key h where "ph_shutdown h < length ?ts" "?ts ! ph_shutdown h = t" "t = task_of key h"
      using ok unfolding holders_ok_def by metis
    then show "t \<in> set (unstopped (cp_manager p))"
      by (auto simp: unstopped_def in_set_conv_nth) (auto simp: task_of_def)
  qed
  with holder show ?thesis by blast
qed

text \<open>Two calls for one key that take turns.\<close>

definition race :: "string \<Rightarrow> string \<Rightarrow> pool_event list" where
  "race key target =
     [Ensure key target Tcp, Ensure key target Tcp, Section 0, Section 1, Section 0, Section 1,
      Section 0, Section 1, Section 0, Section 1]"

text \<open>
  But two calls for one key and one target can both start a proxy: the second to insert replaces the
  first, whose port has already been returned and is dead.
\<close>

lemma overlapping_calls_return_dead_port:
  "\<exists>p. pool_run next_port_bind (race key target) (pool_new ip) = Some p \<and>
     cp_calls p = [Returned (Ok 1), Returned (Ok 2)] \<and> get_port (cp_manager p) key = Some 2 \<and>
     1 \<notin> pt_port ` set (unstopped (cp_manager p))"
  by (simp add: race_def pool_new_def new_manager_def bind_socket_def spawn_proxy_def next_port_bind_def
      live_sockets_def unstopped_def remove_handle_def insert_handle_def signal_def get_port_def) auto

theorem overlapping_calls_leak_no_proxy_witness:
  "\<exists>p. pool_run next_port_bind (race ''k'' ''10.0.0.1:80'') (pool_new ''192.168.0.2'') = Some p \<and>
     set (unstopped (cp_manager p)) =
       {task_of key h | key h. px_proxies (cp_manager p) key = Some h} \<union> {task_of key h | key h. EnsureInsert key h \<in> set (cp_calls p)}"
proof -
  have "pool_run next_port_bind (race ''k'' ''10.0.0.1:80'') (pool_new ''192.168.0.2'') \<noteq> None"
    by (simp add: race_def pool_new_def new_manager_def bind_socket_def spawn_proxy_def next_port_bind_def
        live_sockets_def unstopped_def remove_handle_def insert_handle_def signal_def) auto
  then obtain p where p: "pool_run next_port_bind (race ''k'' ''10.0.0.1:80'') (pool_new ''192.168.0.2'') = Some p"
    by blast
  from overlapping_calls_leak_no_proxy [OF p] p show ?thesis by blast
qed

end
