(* ===== verification/Forwarding.thy ===== *)
theory Forwarding
  imports System_Facts Proxy_Planes Proxy_Calls
begin

text \<open>
  From the PortMapping to the backend: what a watcher has written, the handle in the table of the
  proxy manager and the task that serves it, put together.
\<close>

section \<open>What a written PortMapping leads to\<close>

lemma live_manifest_handle:
  assumes "live_manifest ow ip w (external_port, internal_port, proto) (ns, name, mf)"
  obtains h where "px_proxies (w_proxies w) name = Some h" "ph_local_port h = spec_internal_port (mf_spec mf)"
    "ph_target h = fo_backend ow @ '':'' @ show_u16 internal_port" "ph_protocol h = proto"
  using assms by (auto simp: live_manifest_def serves_w_def serves_def split: option.splits)

text \<open>A data plane in its loop, over this protocol and for this target.\<close>

fun serves_target :: "plane \<Rightarrow> protocol \<Rightarrow> string \<Rightarrow> bool" where
  "serves_target (TcpPlane t) proto target \<longleftrightarrow> proto = Tcp \<and> tp_accepting t \<and> tp_target t = target"
| "serves_target (UdpPlane u) proto target \<longleftrightarrow> proto = Udp \<and> ud_phase u \<noteq> Finished \<and> ud_target u = target"

lemma plane_serves_target:
  assumes "plane_reached t p" and "serving p"
  shows "serves_target p (pt_protocol t) (pt_target t)"
proof (cases p)
  case (TcpPlane q)
  with assms(1) obtain evs where run: "tcp_run evs (tcp_new (pt_target t)) = Some q" and "pt_protocol t = Tcp" by auto
  from tcp_streams.H_reach [OF _ run, of "pt_target t"] have "tp_target q = pt_target t"
    by (simp add: tcp_new_def events_of_def)
  with TcpPlane assms(2) \<open>pt_protocol t = Tcp\<close> show ?thesis by simp
next
  case (UdpPlane q)
  with assms(1) obtain evs where run: "udp_run evs (udp_new (pt_target t)) = Some q" and "pt_protocol t = Udp" by auto
  from udp_traffic(2) [OF run] UdpPlane assms(2) \<open>pt_protocol t = Udp\<close> show ?thesis by simp
qed

text \<open>What the calls of a visit do to the manager they do to the manager with its data planes.\<close>

lemma proxies_run_ops:
  "\<exists>s'. proxies_run bnd (map Manage ops) s = Some s' \<and> pl_manager s' = fold (run_op bnd) ops (pl_manager s)"
proof (induction ops arbitrary: s)
  case (Cons op ops)
  obtain u where u: "proxies_step bnd (Manage op) s = Some u" "pl_manager u = run_op bnd op (pl_manager s)"
    by (simp add: Let_def)
  from Cons.IH [of u] u show ?case by simp
qed simp

text \<open>
  C10. A visit publishes ports behind which somebody listens. In a process whose proxies have had no
  error of a socket so far, for an annotation that does not ask twice for one external port and
  protocol: the calls an uninterrupted visit to a Service makes to the manager lead to a state in which every
  PortMapping the visit has written is one of those asked for and has a proxy in the table, whose port
  is the internal port of the PortMapping, and whose task is in its loop, over the protocol of the
  PortMapping and for the cluster address of the Service and the port asked for.
\<close>

theorem written_mapping_is_served:
  assumes run: "proxies_run (os_binds env) evs (proxies_new lan_ip) = Some s" and ok: "\<forall>e \<in> set evs. \<not> socket_error e"
    and manager: "w_proxies w = pl_manager s"
    and visit: "run_state (reconcile_service env svc) w = (r, w')"
    and distinct: "distinct (map (\<lambda>(e, i, p). (e, p)) (service_desired svc))"
  shows "\<exists>ops s' new. proxies_run (os_binds env) (map Manage ops) s = Some s' \<and> pl_manager s' = w_proxies w' \<and>
    published w' = published w @ new \<and>
    (\<forall>(ns, name, mf) \<in> set new. \<exists>internal_port h.
       (spec_external_port (mf_spec mf), internal_port, spec_protocol (mf_spec mf)) \<in> set (service_desired svc) \<and>
       px_proxies (pl_manager s') name = Some h \<and> ph_local_port h = spec_internal_port (mf_spec mf) \<and>
       serves_target (pl_planes s' ! ph_shutdown h) (spec_protocol (mf_spec mf))
         (cluster_ip_of svc @ '':'' @ show_u16 internal_port))"
proof -
  from visit_runs_manager [OF visit] obtain ops where ops: "w_proxies w' = fold (run_op (os_binds env)) ops (w_proxies w)" ..
  obtain s' where s': "proxies_run (os_binds env) (map Manage ops) s = Some s'" "pl_manager s' = w_proxies w'"
    using proxies_run_ops [of "os_binds env" ops s] by (auto simp: ops manager)
  have whole: "proxies_run (os_binds env) (evs @ map Manage ops) (proxies_new lan_ip) = Some s'"
    by (simp add: run_events_append run s'(1))
  have "ended_told (proxies_new lan_ip)" by (simp add: ended_told_def proxies_new_def)
  then have inv: "proxies_inv s'" "ended_told s'"
    using planes_told.H_reach [OF _ whole] ok proxies_inv_new by (auto simp: socket_error_def)
  from service_live [OF visit distinct] obtain new where new: "published w' = published w @ new"
    "\<forall>m \<in> set new. \<exists>d \<in> set (service_desired svc). live_manifest (service_owner svc) (px_lan_ip (w_proxies w)) w' d m"
    by blast
  have "\<exists>internal_port h.
      (spec_external_port (mf_spec mf), internal_port, spec_protocol (mf_spec mf)) \<in> set (service_desired svc) \<and>
      px_proxies (pl_manager s') name = Some h \<and> ph_local_port h = spec_internal_port (mf_spec mf) \<and>
      serves_target (pl_planes s' ! ph_shutdown h) (spec_protocol (mf_spec mf))
        (cluster_ip_of svc @ '':'' @ show_u16 internal_port)" if "(ns, name, mf) \<in> set new" for ns name mf
  proof -
    from new(2) that obtain e i p where d: "(e, i, p) \<in> set (service_desired svc)"
      "live_manifest (service_owner svc) (px_lan_ip (w_proxies w)) w' (e, i, p) (ns, name, mf)" by fastforce
    from live_manifest_handle [OF d(2)] obtain h where h: "px_proxies (pl_manager s') name = Some h"
      "ph_local_port h = spec_internal_port (mf_spec mf)" "ph_target h = cluster_ip_of svc @ '':'' @ show_u16 i" "ph_protocol h = p"
      by (auto simp: s'(2) service_owner_def)
    note plane = handle_plane [OF inv(1) h(1)]
    have "serving (pl_planes s' ! ph_shutdown h)" using inv(2) plane(1,3) by (auto simp: ended_told_def)
    from plane_serves_target [OF plane(2) this] h
    have "serves_target (pl_planes s' ! ph_shutdown h) p (cluster_ip_of svc @ '':'' @ show_u16 i)" by (simp add: task_of_def)
    with d h show ?thesis by (auto simp: live_manifest_def)
  qed
  with s' new(1) show ?thesis by (intro exI [of _ ops] exI [of _ s'] exI [of _ new]) blast
qed

text \<open>
  The target of a mapping is the backend's address, a colon and the port, and the UDP proxy takes
  only what \<open>SocketAddr\<close> accepts: with an IPv4 backend every datagram goes to that address and port;
  with an IPv6 backend, written without brackets, the proxy runs and is published, but every datagram
  of every client is dropped.
\<close>

lemma udp_forwarding_by_address_family:
  assumes "proxies_run bnd evs (proxies_new lan_ip) = Some s" and "px_proxies (pl_manager s) key = Some h"
    and "ph_protocol h = Udp" and "ph_target h = desired_target ow (external_port, internal_port, Udp)"
  shows "\<exists>u. pl_planes s ! ph_shutdown h = UdpPlane u \<and>
    (\<forall>os. length os = 4 \<longrightarrow> fo_backend ow = show_ipv4 os \<longrightarrow>
       (\<forall>(sock, t, d) \<in> set (ud_sent u). t = SocketAddrV4 os internal_port)) \<and>
    (colons (fo_backend ow) > 0 \<longrightarrow> hd (fo_backend ow) \<noteq> CHR ''['' \<longrightarrow> ud_sent u = [] \<and> ud_opened u = [])"
proof -
  from handle_plane(2) [OF proxies_reach_inv [OF assms(1)] assms(2)] assms(3)
  obtain u local where u: "pl_planes s ! ph_shutdown h = UdpPlane u" "udp_run local (udp_new (ph_target h)) = Some u"
    by (cases "pl_planes s ! ph_shutdown h") (auto simp: task_of_def)
  have target: "ph_target h = fo_backend ow @ '':'' @ show_u16 internal_port"
    by (simp add: assms(4) desired_target_def)
  have sent: "\<forall>(sock, t, d) \<in> set (ud_sent u). parse_socket_addr (ph_target h) = Some t"
    using udp_traffic(1,2) [OF u(2)] by (auto simp: udp_inv_def sent_ok_def)
  have v4: "\<forall>(sock, t, d) \<in> set (ud_sent u). t = SocketAddrV4 os internal_port"
    if "length os = 4" "fo_backend ow = show_ipv4 os" for os
    using sent parse_socket_addr_v4 [OF that(1)] by (auto simp: target that(2))
  have v6: "ud_sent u = [] \<and> ud_opened u = []" if "colons (fo_backend ow) > 0" "hd (fo_backend ow) \<noteq> CHR ''[''"
    using udp_bad_target [OF u(2)] parse_socket_addr_unbracketed [OF that] by (simp add: target)
  show ?thesis by (intro exI [of _ u] conjI allI impI) (use u(1) v4 v6 in simp_all)
qed

section \<open>Runs\<close>

definition dns_owner :: "string \<Rightarrow> forward_owner" where
  "dns_owner backend = \<lparr>fo_kind = ''Service'', fo_ns = ''prod'', fo_name = ''dns'', fo_uid = ''u1'', fo_backend = backend\<rparr>"

abbreviation dns_mapping :: desired where
  "dns_mapping \<equiv> (53, 53, Udp)"

definition dns_proxy :: "string \<Rightarrow> proxies" where
  "dns_proxy backend =
     one_proxy (desired_name (dns_owner backend) dns_mapping) (desired_target (dns_owner backend) dns_mapping) Udp
       (UdpPlane (udp_new (desired_target (dns_owner backend) dns_mapping)))"

lemma dns_proxy_run:
  "proxies_run next_port_bind
     [Manage (EnsureOp (desired_name (dns_owner b) dns_mapping) (desired_target (dns_owner b) dns_mapping) Udp)]
     (proxies_new ''192.168.0.2'') = Some (dns_proxy b)"
  unfolding one_proxy_run by (simp add: plane_for_def dns_proxy_def)

lemma dns_proxy_handle:
  "px_proxies (pl_manager (dns_proxy b)) (desired_name (dns_owner b) dns_mapping) =
     Some \<lparr>ph_local_port = 1, ph_target = desired_target (dns_owner b) dns_mapping, ph_protocol = Udp, ph_shutdown = 0\<rparr>"
  "pl_planes (dns_proxy b) = [UdpPlane (udp_new (desired_target (dns_owner b) dns_mapping))]"
  unfolding dns_proxy_def by (rule one_proxy_handle)+

theorem written_mapping_is_served_witness:
  "\<exists>(s' :: proxies) h. pl_manager s' = w_proxies (snd (run_state (reconcile_service sample_env (sample_service (Some ''true''))) (world_new ''192.168.0.2''))) \<and>
     px_proxies (pl_manager s') (desired_name (service_owner (sample_service (Some ''true''))) (80, 80, Tcp)) = Some h \<and>
     serves_target (pl_planes s' ! ph_shutdown h) Tcp ''10.0.0.1:80''"
proof -
  let ?svc = "sample_service (Some ''true'')" and ?w = "world_new ''192.168.0.2''"
  let ?ow = "service_owner ?svc" and ?run = "run_state (reconcile_service sample_env ?svc) ?w"
  have new: "published ?w = []" "w_proxies ?w = new_manager ''192.168.0.2''" "\<not> w_shutting_down ?w"
    by (simp_all add: published_def world_new_def)
  have target: "cluster_ip_of ?svc @ '':'' @ show_u16 80 = ''10.0.0.1:80''"
    by (simp add: sample_service_def cluster_ip_of_def show_u16_def show_nat.simps digit_char_def char_of_eq_iff)
  from sample_visit [of sample_env ?w "''192.168.0.2''"] new have
    pub: "published (snd ?run) = [(''prod'', desired_name ?ow (80, 80, Tcp), desired_manifest ?ow ''192.168.0.2'' (80, 80, Tcp) 1)]"
    by (auto simp: sample_env_def)
  have run: "proxies_run (os_binds sample_env) [] (proxies_new ''192.168.0.2'') = Some (proxies_new ''192.168.0.2'')" by simp
  have manager: "w_proxies ?w = pl_manager (proxies_new ''192.168.0.2'')" by (simp add: new proxies_new_def)
  have "\<forall>e \<in> set []. \<not> socket_error e" "distinct (map (\<lambda>(e, i, p). (e, p)) (service_desired ?svc))" by simp_all
  from written_mapping_is_served [OF run this(1) manager prod.collapse [symmetric] this(2)] show ?thesis
  proof (elim exE conjE)
    fix s' :: proxies and new'
    assume s': "pl_manager s' = w_proxies (snd ?run)" "published (snd ?run) = published ?w @ new'"
      and served: "\<forall>(ns, name, mf) \<in> set new'. \<exists>internal_port h.
         (spec_external_port (mf_spec mf), internal_port, spec_protocol (mf_spec mf)) \<in> set (service_desired ?svc) \<and>
         px_proxies (pl_manager s') name = Some h \<and> ph_local_port h = spec_internal_port (mf_spec mf) \<and>
         serves_target (pl_planes s' ! ph_shutdown h) (spec_protocol (mf_spec mf)) (cluster_ip_of ?svc @ '':'' @ show_u16 internal_port)"
    have "new' = [(''prod'', desired_name ?ow (80, 80, Tcp), desired_manifest ?ow ''192.168.0.2'' (80, 80, Tcp) 1)]"
      using s'(2) unfolding pub new(1) by simp
    with served have "\<exists>h. px_proxies (pl_manager s') (desired_name ?ow (80, 80, Tcp)) = Some h \<and>
        serves_target (pl_planes s' ! ph_shutdown h) Tcp (cluster_ip_of ?svc @ '':'' @ show_u16 80)"
      by (auto simp: desired_manifest_def desired_protocol_def)
    with s'(1) show ?thesis unfolding target by blast
  qed
qed

lemma udp_forwarding_by_address_family_witness:
  "ud_sent (udp_new (desired_target (dns_owner ''fd00::10'') dns_mapping)) = []"
  using udp_forwarding_by_address_family [OF dns_proxy_run [of "''fd00::10''"] dns_proxy_handle(1),
      of "dns_owner ''fd00::10''" 53 53]
  by (simp add: dns_proxy_handle dns_owner_def)

end
