(* ===== verification/Router_Table.thy ===== *)
theory Router_Table
  imports Upnp_Facts System_Facts Event_Systems
begin

text \<open>
  The table of port mappings that a router keeps when it does what it confirms: by the documentation
  of WANIPConnection, \<open>AddPortMapping\<close> sets the entry of an external port and protocol, with a lease
  that starts then, and \<open>DeletePortMapping\<close> removes it. The table is read off the calls made so far and
  the answers to them, through the client's own parser. The process refines operations on this table:
  only visits to PortMappings change it, each by its own entry.
\<close>

section \<open>What a router does\<close>

type_synonym router_key = "u16 \<times> string"
type_synonym router_table = "router_key \<rightharpoonup> port_mapping_entry \<times> datetime option"

definition soap_action_is :: "string \<Rightarrow> http_request \<Rightarrow> bool" where
  "soap_action_is action rq \<longleftrightarrow>
     map_of (rq_headers rq) ''SOAPAction'' = Some (quoted (SOAP_NAMESPACE @ ''#'' @ action))"

text \<open>A lease of 0 seconds does not end.\<close>

definition lease_end :: "datetime \<Rightarrow> u32 \<Rightarrow> datetime option" where
  "lease_end now lease = (if lease = 0 then None else Some (now + uint lease * nanos))"

definition deleted_key :: "string \<Rightarrow> (string, router_key) outcome" where
  "deleted_key xml =
     and_then (extract_xml_value xml ''NewExternalPort'') (\<lambda>ep.
     and_then (ok_or ''Invalid external port'' (parse_u16 ep)) (\<lambda>external_port.
     and_then (extract_xml_value xml ''NewProtocol'') (\<lambda>protocol. Ok (external_port, protocol))))"

definition router_does :: "datetime \<Rightarrow> http_request \<Rightarrow> router_table \<Rightarrow> router_table" where
  "router_does now rq t =
     (if soap_action_is ''AddPortMapping'' rq
      then case parse_port_mapping_entry (rq_body rq) of
             Ok e \<Rightarrow> t((pe_external_port e, pe_protocol e) \<mapsto> (e, lease_end now (pe_lease_duration e)))
           | _ \<Rightarrow> t
      else if soap_action_is ''DeletePortMapping'' rq
      then case deleted_key (rq_body rq) of Ok k \<Rightarrow> t(k := None) | _ \<Rightarrow> t
      else t)"

definition confirmed :: "env \<Rightarrow> call list \<Rightarrow> http_request \<Rightarrow> bool" where
  "confirmed env h rq = (case soap_result (http_answer env h rq) of Ok _ \<Rightarrow> True | _ \<Rightarrow> False)"

text \<open>The table after the calls, the last one first, from what it was before.\<close>

fun table_rev :: "env \<Rightarrow> router_table \<Rightarrow> call list \<Rightarrow> router_table" where
  "table_rev env t [] = t"
| "table_rev env t (Http rq # h) =
     (if confirmed env (rev h) rq then router_does (utc_now env (rev h)) rq (table_rev env t h) else table_rev env t h)"
| "table_rev env t (c # h) = table_rev env t h"

definition router_table :: "env \<Rightarrow> router_table \<Rightarrow> world \<Rightarrow> router_table" where
  "router_table env t w = table_rev env t (rev (w_calls w))"

lemma router_table_log:
  "router_table env t (log_call c w) =
     (case c of
        Http rq \<Rightarrow>
          if confirmed env (w_calls w) rq then router_does (utc_now env (w_calls w)) rq (router_table env t w)
          else router_table env t w
      | _ \<Rightarrow> router_table env t w)"
  by (cases c) (simp_all add: router_table_def)

lemma router_table_fields [simp]:
  "router_table env t (w\<lparr>w_proxies := a\<rparr>) = router_table env t w"
  "router_table env t (w\<lparr>w_shutting_down := b\<rparr>) = router_table env t w"
  "router_table env t (w\<lparr>w_eventing := c\<rparr>) = router_table env t w"
  "router_table env t (w\<lparr>w_subscription_id := d\<rparr>) = router_table env t w"
  "router_table env t (w\<lparr>w_dns_active := b\<rparr>) = router_table env t w"
  "router_table env t (w\<lparr>w_metrics := m\<rparr>) = router_table env t w"
  by (simp_all add: router_table_def)

section \<open>What leaves the table alone\<close>

definition same_table :: "env \<Rightarrow> router_table \<Rightarrow> world \<Rightarrow> world \<Rightarrow> bool" where
  "same_table env t w v \<longleftrightarrow> router_table env t v = router_table env t w"

interpretation router_kube: kube_frame "same_table env t" for env t
  by unfold_locales (auto simp: same_table_def router_table_log split: call.splits)

interpretation router_watchers: watcher_frame "same_table env t" for env t
  by unfold_locales (auto simp: same_table_def router_table_log state_io_rel_def on_proxies_def)

text \<open>A request that neither adds nor deletes a mapping.\<close>

definition reads_only :: "http_request \<Rightarrow> bool" where
  "reads_only rq \<longleftrightarrow> \<not> soap_action_is ''AddPortMapping'' rq \<and> \<not> soap_action_is ''DeletePortMapping'' rq"

lemma table_reads_only: "reads_only rq \<Longrightarrow> router_table env t (log_call (Http rq) w) = router_table env t w"
  by (simp add: router_table_log router_does_def reads_only_def)

lemma keeps_read: "reads_only rq \<Longrightarrow> state_io_rel (same_table env t) (http_send env rq)"
  by (simp add: state_io_rel_def http_send_def same_table_def table_reads_only)

lemma reads_only_requests:
  "reads_only (ip_request upnp)" "reads_only (renew_request url sid ttl)" "reads_only (subscribe_request url callback ttl)"
  "reads_only (root_desc_request url)"
  by (simp_all add: reads_only_def soap_action_is_def ip_request_def soap_request_def quoted_def renew_request_def
      subscribe_request_def gena_request_def timeout_header_def root_desc_request_def)

section \<open>Visits to PortMappings\<close>

definition pm_key :: "port_mapping \<Rightarrow> router_key" where
  "pm_key pm = (spec_external_port (pmo_spec pm), protocol_to_string (spec_protocol (pmo_spec pm)))"

definition pm_entry :: "port_mapping \<Rightarrow> port_mapping_entry" where
  "pm_entry pm =
     \<lparr>pe_external_port = spec_external_port (pmo_spec pm), pe_protocol = protocol_to_string (spec_protocol (pmo_spec pm)),
      pe_internal_client = spec_internal_host (pmo_spec pm), pe_internal_port = spec_internal_port (pmo_spec pm),
      pe_description = pm_description pm, pe_enabled = True, pe_lease_duration = DEFAULT_LEASE_SECS\<rparr>"

text \<open>Host and description do not break the XML of the request, which is written without escaping.\<close>

definition plain_pm :: "port_mapping \<Rightarrow> bool" where
  "plain_pm pm \<longleftrightarrow>
     lt \<notin> set (spec_internal_host (pmo_spec pm)) \<and> lt \<notin> set (pm_description pm) \<and>
     utf8 (spec_internal_host (pmo_spec pm)) \<and> utf8 (pm_description pm)"

lemma soap_request_headers [simp]:
  "soap_action_is action (soap_request upnp action' body) \<longleftrightarrow> action = action'"
  by (auto simp: soap_action_is_def soap_request_def quoted_def)

lemma router_adds:
  assumes "plain_pm pm"
  shows "router_does now (add_request upnp pm) t =
    t(pm_key pm \<mapsto> (pm_entry pm, Some (now + 3600 * nanos)))"
proof -
  have lease: "lease_end now DEFAULT_LEASE_SECS = Some (now + 3600 * nanos)"
    by (simp add: lease_end_def DEFAULT_LEASE_SECS_def)
  have "parse_port_mapping_entry (rq_body (add_request upnp pm)) = Ok (pm_entry pm)"
    using assms unfolding add_request_def pm_entry_def plain_pm_def by (intro add_request_read) auto
  then show ?thesis
    by (simp add: router_does_def lease) (simp add: add_request_def pm_key_def pm_entry_def lease)
qed

lemma router_deletes: "router_does now (delete_request upnp pm) t = t(pm_key pm := None)"
proof -
  have "deleted_key (rq_body (delete_request upnp pm)) = Ok (pm_key pm)"
    by (simp add: deleted_key_def delete_request_def delete_request_read pm_key_def)
  then show ?thesis by (simp add: router_does_def) (simp add: delete_request_def)
qed

lemma keeps_table_requests:
  "state_io_rel (same_table env t) (get_external_ip env upnp)"
  "state_io_rel (same_table env t) (patch_status env ns name st)"
  "state_io_rel (same_table env t) (requeue_after env e)"
proof -
  have "state_io_rel (same_table env t) (soap_action env upnp ''GetExternalIPAddress'' get_external_ip_body)"
    unfolding soap_action_def
    by (intro router_kube.kube_keeps keeps_read) (use reads_only_requests(1) in \<open>simp add: ip_request_def\<close>)
  then show "state_io_rel (same_table env t) (get_external_ip env upnp)"
    unfolding get_external_ip_def by (intro router_kube.kube_keeps)
  show "state_io_rel (same_table env t) (patch_status env ns name st)"
    "state_io_rel (same_table env t) (requeue_after env e)"
    unfolding patch_status_def requeue_after_def Let_def by (intro router_kube.kube_keeps)+
qed

lemma keeps_table_record:
  "state_io_rel (same_table env t) (record_success env upnp ns name lease)"
  "state_io_rel (same_table env t) (record_failure env ns name e)"
  unfolding record_success_def record_failure_def Let_def
  by (intro router_kube.kube_keeps keeps_table_requests pm_metrics)+

definition adds_now :: "env \<Rightarrow> upnp_client \<Rightarrow> port_mapping \<Rightarrow> world \<Rightarrow> bool" where
  "adds_now env upnp pm w \<longleftrightarrow> due env pm w \<and> confirmed env (w_calls (look_at_clock pm w)) (add_request upnp pm)"

lemma look_at_clock_table [simp]: "router_table env t (look_at_clock pm w) = router_table env t w"
  by (simp add: look_at_clock_def router_table_log)

lemma table_after_apply:
  assumes "plain_pm pm"
  shows "router_table env t (snd (run_state (reconcile_apply env upnp ns pm) w)) =
    (if adds_now env upnp pm w
     then (router_table env t w)(pm_key pm \<mapsto>
            (pm_entry pm, Some (utc_now env (w_calls (look_at_clock pm w)) + 3600 * nanos)))
     else router_table env t w)"
proof (cases "due env pm w")
  case False
  then show ?thesis by (simp add: run_reconcile_apply_wait adds_now_def router_table_log)
next
  case True
  let ?w = "look_at_clock pm w"
  let ?w2 = "log_call (Http (add_request upnp pm)) ?w"
  have kept: "wp m (\<lambda>_ v. router_table env t v = router_table env t ?w2) ?w2"
    if "state_io_rel (same_table env t) m" for m :: "(world, (reconcile_error, action) outcome) state"
    using that by (simp add: wp_run state_io_rel_def same_table_def)
  have "wp (reconcile_apply env upnp ns pm) (\<lambda>_ v. router_table env t v = router_table env t ?w2) w"
    using kept [OF keeps_table_record(1)] kept [OF keeps_table_record(2)]
    by (simp add: wp_reconcile_apply_due [OF True] Let_def split: outcome.splits)
  then show ?thesis
    using True by (simp add: wp_run adds_now_def router_table_log router_adds [OF assms])
qed

lemma table_after_cleanup:
  "router_table env t (snd (run_state (reconcile_cleanup env upnp pm) w)) =
     (if confirmed env (w_calls w) (delete_request upnp pm)
      then (router_table env t w)(pm_key pm := None) else router_table env t w)"
proof -
  have "wp (reconcile_cleanup env upnp pm)
      (\<lambda>_ v. router_table env t v = router_table env t (log_call (Http (delete_request upnp pm)) w)) w"
    by (simp add: reconcile_cleanup_def delete_request_def Let_def wp_simps split: outcome.splits)
  then show ?thesis by (simp add: wp_run router_table_log router_deletes)
qed

section \<open>The rest of the process\<close>

interpretation router_address: address_frame "same_table env t" for env t
  by unfold_locales (simp_all add: same_table_def)

lemma keeps_table_handlers:
  "state_io_rel (same_table env t) (poll_tick env upnp)"
  "state_io_rel (same_table env t) (handle_notify env body)"
  "state_io_rel (same_table env t) (renewal_tick env url ttl)"
proof -
  show "state_io_rel (same_table env t) (poll_tick env upnp)"
    by (rule router_address.keeps_poll [OF keeps_table_requests(1)])
  show "state_io_rel (same_table env t) (handle_notify env body)"
    by (rule router_address.keeps_notify)
  have "state_io_rel (same_table env t) (upd_eventing f)" for f
    by (simp add: state_io_rel_def upd_eventing_def same_table_def)
  then show "state_io_rel (same_table env t) (renewal_tick env url ttl)"
    unfolding renewal_tick_def renew_subscription_def
    by (intro router_kube.kube_keeps keeps_read reads_only_requests)
qed

lemma keeps_table_startup: "state_io_rel (same_table env t) (startup env cfg datagram detect)"
proof -
  have "state_io_rel (same_table env t) (modify (\<lambda>w. w\<lparr>w_proxies := m, w_shutting_down := b, w_dns_active := c\<rparr>))"
    "state_io_rel (same_table env t) (modify (\<lambda>w. w\<lparr>w_subscription_id := s\<rparr>))" for m b c s
    by (simp_all add: state_io_rel_def modify_def same_table_def)
  note modify = this
  show ?thesis
    unfolding startup_def new_contexts_def discover_gateway_def initial_external_ip_def subscribe_gena_def subscribe_def Let_def
    by (intro router_kube.kube_keeps keeps_read reads_only_requests keeps_table_requests router_address.keeps_address modify)
qed

section \<open>The process as operations on the table\<close>

text \<open>The specification: an entry is set, with the end of its lease, or removed.\<close>

datatype table_op = Program router_key port_mapping_entry "datetime option" | Unmap router_key

fun table_step :: "router_table \<Rightarrow> table_op \<Rightarrow> router_table \<Rightarrow> bool" where
  "table_step t (Program k e x) t' \<longleftrightarrow> t' = t(k \<mapsto> (e, x))"
| "table_step t (Unmap k) t' \<longleftrightarrow> t' = t(k := None)"

text \<open>The operations a step of the process performs: at most one, by the visited PortMapping.\<close>

fun step_ops :: "env \<Rightarrow> started_process \<Rightarrow> world \<Rightarrow> event \<Rightarrow> table_op list" where
  "step_ops env sp w (ApplyPm ns pm) =
     (if adds_now env (sp_upnp sp) pm w
      then [Program (pm_key pm) (pm_entry pm) (Some (utc_now env (w_calls (look_at_clock pm w)) + 3600 * nanos))]
      else [])"
| "step_ops env sp w (CleanupPm pm) =
     (if confirmed env (w_calls w) (delete_request (sp_upnp sp) pm) then [Unmap (pm_key pm)] else [])"
| "step_ops env sp w _ = []"

fun plain_event :: "event \<Rightarrow> bool" where
  "plain_event (ApplyPm ns pm) \<longleftrightarrow> plain_pm pm"
| "plain_event _ \<longleftrightarrow> True"

lemma state_io_rel_same_table:
  "state_io_rel (same_table env t) m \<Longrightarrow> router_table env t (snd (run_state m w)) = router_table env t w"
  by (simp add: state_io_rel_def same_table_def)

lemma step_refines_table:
  assumes "sys_step env sp w ev v" and "plain_event ev"
  shows "spec_run table_step (router_table env t w) (step_ops env sp w ev) (router_table env t v)"
proof -
  note quiet = state_io_rel_same_table
  note kept = keeps_table_handlers [THEN quiet] router_watchers.keeps_watchers [THEN quiet]
    router_kube.keeps_gateway [THEN quiet] router_kube.keeps_dns [THEN quiet]
  from assms show ?thesis
    by (cases rule: sys_step.cases) (simp_all add: kept table_after_apply table_after_cleanup after_def shutdown_def modify_def
        del: sys_step_renewal sys_step_stop)
qed

text \<open>The operations that an event of the process may perform.\<close>

fun ops_of :: "event \<Rightarrow> table_op list \<Rightarrow> bool" where
  "ops_of (ApplyPm ns pm) ops \<longleftrightarrow> ops = [] \<or> (\<exists>x. ops = [Program (pm_key pm) (pm_entry pm) (Some x)])"
| "ops_of (CleanupPm pm) ops \<longleftrightarrow> ops = [] \<or> ops = [Unmap (pm_key pm)]"
| "ops_of _ ops \<longleftrightarrow> ops = []"

lemma step_ops_of: "ops_of ev (step_ops env sp w ev)"
  by (cases ev) auto

lemma run_refines_table:
  assumes "sys_run env sp w evs v" and "\<forall>ev \<in> set evs. plain_event ev"
  shows "\<exists>opss. list_all2 ops_of evs opss \<and> spec_run table_step (router_table env t w) (concat opss) (router_table env t v)"
  using assms
proof (induction rule: sys_run.induct)
  case (done_run w)
  show ?case by (rule exI [of _ "[]"]) simp
next
  case (more w ev u evs v)
  then obtain opss where "list_all2 ops_of evs opss"
    "spec_run table_step (router_table env t u) (concat opss) (router_table env t v)"
    by auto
  moreover from step_refines_table [OF more.hyps(1)] more.prems
  have "spec_run table_step (router_table env t w) (step_ops env sp w ev) (router_table env t u)" by simp
  ultimately show ?case
    using step_ops_of [of ev env sp w]
    by (intro exI [of _ "step_ops env sp w ev # opss"]) (auto intro: spec_run_append)
qed

lemma startup_table:
  assumes "run_state (startup env cfg datagram detect) (world_new ip) = (r, w)"
  shows "router_table env t w = t"
proof -
  have "router_table env t (world_new ip) = t" by (simp add: router_table_def world_new_def)
  with state_io_relD [OF keeps_table_startup [where t = t] assms] show ?thesis by (simp add: same_table_def)
qed

text \<open>
  C2. The router's table is what the visits to PortMappings make of it, if the host and the description of
  every PortMapping that is applied have no opening angle bracket (and are UTF-8, as every Rust string
  is); with one in them the request can set another entry, since nothing is escaped. Handlers run one at
  a time. From the start of the process to any later moment, whatever the other side answers, a router
  that does what it confirms and nothing else has a table that goes through a run of operations in the
  order of the events: a visit that applies a PortMapping sets its own entry, with an end of the lease,
  or changes nothing, one that cleans it up removes its own entry or changes nothing, and no poll,
  notification, watcher or other controller touches the table.
\<close>

theorem router_table_refined:
  assumes "run_state (startup env cfg datagram detect) (world_new ip) = (Ok sp, w0)"
    and "sys_run env sp w0 evs w" and "\<forall>ev \<in> set evs. plain_event ev"
  shows "\<exists>opss. list_all2 ops_of evs opss \<and> spec_run table_step t (concat opss) (router_table env t w)"
  using run_refines_table [OF assms(2,3), of t] startup_table [OF assms(1)] by simp

lemma sample_pm_plain: "plain_pm (sample_pm st)"
  by (simp add: plain_pm_def sample_pm_def pm_description_def utf8_def is_cont_def is_ascii_def byte_def)

theorem router_table_refined_witness:
  "\<exists>sp w0 v opss. gena_start = (Ok sp, w0) \<and> sys_run gena_env sp w0 [Poll, ApplyPm ''prod'' (sample_pm None)] v \<and>
     list_all2 ops_of [Poll, ApplyPm ''prod'' (sample_pm None)] opss \<and>
     spec_run table_step Map.empty (concat opss) (router_table gena_env Map.empty v)"
proof -
  obtain sp w0 where start: "gena_start = (Ok sp, w0)" and "polls sp" using gena_starts by blast
  from \<open>polls sp\<close> obtain v where run: "sys_run gena_env sp w0 [Poll, ApplyPm ''prod'' (sample_pm None)] v"
    by (blast intro: more poll apply_pm done_run)
  have "\<forall>ev \<in> set [Poll, ApplyPm ''prod'' (sample_pm None)]. plain_event ev" by (simp add: sample_pm_plain)
  from router_table_refined [OF start [unfolded gena_start_def] run this, of Map.empty] start run show ?thesis by blast
qed

section \<open>Two PortMappings for one port\<close>

text \<open>
  C23. Nothing keeps two PortMappings from naming the same external port and protocol, and the entry of
  the router belongs to both: when one of them is cleaned up and the router confirms, the entry is
  gone, while the other still counts as active; its visits read the clock and ask nothing of the
  router for as long as more than thirty seconds of the lease it once got are left.
\<close>

theorem cleanup_unmaps_shared_port:
  assumes "pm_key pm' = pm_key pm" and "confirmed env (w_calls w) (delete_request upnp pm)"
    and "run_state (reconcile_cleanup env upnp pm) w = (r, v)"
    and "lease_of pm' = Some expiry" and "num_seconds env expiry (utc_now env (w_calls v)) > 30"
  shows "router_table env t v (pm_key pm') = None \<and>
    (\<exists>secs v'. run_state (reconcile_apply env upnp ns pm') v = (Ok (Requeue secs), v') \<and>
       w_calls v' = w_calls v @ [UtcNow] \<and> router_table env t v' (pm_key pm') = None)"
proof -
  have none: "router_table env t v (pm_key pm') = None"
    using table_after_cleanup [of env t upnp pm w] assms(1-3) by simp
  have "\<not> due env pm' v" using assms(4,5) by (simp add: due_def RENEWAL_BUFFER_SECS_def)
  from run_reconcile_apply_wait [OF this] none show ?thesis by (simp add: router_table_log)
qed

theorem cleanup_unmaps_shared_port_witness:
  "router_table sample_env Map.empty (snd (run_state (reconcile_cleanup sample_env (upnp_client_new ''u'') (sample_pm None))
     (world_new ''192.168.0.2''))) (pm_key (sample_pm (Some (active_status None (Some 100000000000) 0)))) = None"
proof -
  let ?pm' = "sample_pm (Some (active_status None (Some 100000000000) 0))"
  let ?v = "snd (run_state (reconcile_cleanup sample_env (upnp_client_new ''u'') (sample_pm None)) (world_new ''192.168.0.2''))"
  have calls: "w_calls ?v = [Http (delete_request (upnp_client_new ''u'') (sample_pm None))]"
    using table_after_cleanup by (simp add: reconcile_cleanup_def delete_port_mapping_def run_try_bind
        soap_action_def http_send_def delete_request_def world_new_def upd_metrics_def Let_def split: outcome.splits)
  have "router_table sample_env Map.empty ?v (pm_key ?pm') = None \<and>
    (\<exists>secs v'. run_state (reconcile_apply sample_env (upnp_client_new ''u'') ''prod'' ?pm') ?v = (Ok (Requeue secs), v') \<and>
       w_calls v' = w_calls ?v @ [UtcNow] \<and> router_table sample_env Map.empty v' (pm_key ?pm') = None)"
    by (rule cleanup_unmaps_shared_port [OF _ _ prod.collapse [symmetric]])
      (simp_all add: calls confirmed_def lease_of_def, simp_all add: sample_pm_def pm_key_def active_status_def sample_env_def, simp add: sgn_if)
  then show ?thesis by blast
qed

end
