(* ===== verification/Lease_Timeline.thy ===== *)
theory Lease_Timeline
  imports Router_Table
begin

text \<open>
  A PortMapping over time. The runtime of \<open>kube\<close> visits an object when the reconciler asked for it; the
  relation \<open>tended\<close> has the visits at any time, in between any other events of the process, in which
  every renewal is granted by the router and written by the API server. The mapping then never lapses.
  After a renewal that the router refuses it does, since the next try comes later than the lease ends.
\<close>

section \<open>Visits as the reconciler asked for them\<close>

text \<open>Events that do not visit a PortMapping with the key.\<close>

fun other_key :: "router_key \<Rightarrow> event \<Rightarrow> bool" where
  "other_key k (ApplyPm ns pm) \<longleftrightarrow> plain_pm pm \<and> pm_key pm \<noteq> k"
| "other_key k (CleanupPm pm) \<longleftrightarrow> pm_key pm \<noteq> k"
| "other_key k _ \<longleftrightarrow> True"

text \<open>
  \<open>tended w pm next\<close>: in the world \<open>w\<close> the last visit to \<open>pm\<close>, which is shown as it is in the API
  server, asked to be visited again at \<open>next\<close>. The \<open>leeway\<close> is how many seconds a router may take to
  answer the request for the mapping.
\<close>

inductive tended ::
  "env \<Rightarrow> started_process \<Rightarrow> string \<Rightarrow> int \<Rightarrow> world \<Rightarrow> port_mapping \<Rightarrow> datetime \<Rightarrow> bool"
  for env sp ns leeway
where
  renewed:
    "rn = renewal_run env (sp_upnp sp) ns pm ip w \<Longrightarrow> granted env (sp_upnp sp) pm ip w \<Longrightarrow>
     kube_answer env (rn_patched_at rn) (PatchPortMappingStatus ns (pm_name pm) (rn_status rn)) = Inr () \<Longrightarrow>
     run_state (reconcile_apply env (sp_upnp sp) ns pm) w = (Ok (Requeue d), v) \<Longrightarrow>
     rn_now rn \<le> utc_now env (w_calls (look_at_clock pm w)) + leeway * nanos \<Longrightarrow>
     asked = utc_now env (rn_asked_at rn) \<Longrightarrow> rn_now rn \<le> asked \<Longrightarrow> asked < rn_now rn + 3560 * nanos \<Longrightarrow>
     tended env sp ns leeway v (pm\<lparr>pmo_status := Some (rn_status rn)\<rparr>) (asked + d * nanos)"
| early:
    "tended env sp ns leeway w pm next \<Longrightarrow> \<not> due env pm w \<Longrightarrow>
     run_state (reconcile_apply env (sp_upnp sp) ns pm) w = (Ok (Requeue d), v) \<Longrightarrow>
     tended env sp ns leeway v pm (utc_now env (w_calls w) + d * nanos)"
| meanwhile:
    "tended env sp ns leeway w pm next \<Longrightarrow> sys_run env sp w evs v \<Longrightarrow> \<forall>ev \<in> set evs. other_key (pm_key pm) ev \<Longrightarrow>
     tended env sp ns leeway v pm next"

lemma other_key_kept:
  assumes "sys_run env sp w evs v" and "\<forall>ev \<in> set evs. other_key k ev"
  shows "router_table env t v k = router_table env t w k"
  using assms
proof (induction rule: sys_run.induct)
  case (more w ev u evs v)
  have "plain_event ev" using more.prems by (cases ev) auto
  from step_refines_table [OF more.hyps(1) this, of t]
  have "spec_run table_step (router_table env t w) (step_ops env sp w ev) (router_table env t u)" .
  then have "router_table env t u k = router_table env t w k"
    using more.prems by (cases ev) (auto split: if_splits)
  with more show ?case by simp
qed simp

section \<open>The mapping never lapses\<close>

definition lease_kept :: "env \<Rightarrow> router_table \<Rightarrow> int \<Rightarrow> world \<Rightarrow> port_mapping \<Rightarrow> datetime \<Rightarrow> bool" where
  "lease_kept env t leeway w pm next \<longleftrightarrow>
     (\<exists>e x. lease_of pm = Some e \<and> router_table env t w (pm_key pm) = Some (pm_entry pm, Some x) \<and>
        e \<le> x + leeway * nanos \<and> next + 30 * nanos \<le> e \<and> e < next + 31 * nanos)"

lemma with_status_simps [simp]:
  "pm_key (pm\<lparr>pmo_status := st\<rparr>) = pm_key pm" "pm_entry (pm\<lparr>pmo_status := st\<rparr>) = pm_entry pm"
  "plain_pm (pm\<lparr>pmo_status := st\<rparr>) = plain_pm pm" "pm_name (pm\<lparr>pmo_status := st\<rparr>) = pm_name pm"
  by (simp_all add: pm_key_def pm_entry_def plain_pm_def pm_description_def cong: option.case_cong)

lemma granted_adds: "granted env upnp pm ip w \<Longrightarrow> adds_now env upnp pm w"
  by (auto simp: granted_def adds_now_def confirmed_def)

lemma tended_lease_kept:
  assumes "chrono_ok env" and "tended env sp ns leeway w pm next" and "plain_pm pm"
  shows "lease_kept env t leeway w pm next"
  using assms(2,3)
proof (induction rule: tended.induct)
  case (renewed rn pm ip w d v asked)
  note s = renewal_schedule [OF assms(1) renewed.hyps(1-4,6-8)]
  have "plain_pm pm" using renewed.prems by simp
  from table_after_apply [OF this, of env t "sp_upnp sp" ns w] granted_adds [OF renewed.hyps(2)] renewed.hyps(4)
  have "router_table env t v (pm_key pm) =
      Some (pm_entry pm, Some (utc_now env (w_calls (look_at_clock pm w)) + 3600 * nanos))"
    by simp
  then show ?case
    using s(1-3) renewed.hyps(5) by (auto simp: lease_kept_def lease_of_def active_status_def)
next
  case (early w pm "next" d v)
  from early.IH [OF early.prems] obtain e x where ex: "lease_of pm = Some e"
    "router_table env t w (pm_key pm) = Some (pm_entry pm, Some x)" "e \<le> x + leeway * nanos"
    by (auto simp: lease_kept_def)
  let ?now = "utc_now env (w_calls w)"
  from run_reconcile_apply_wait [OF early.hyps(2), of "sp_upnp sp" ns] early.hyps(3) ex(1)
  have d: "d = num_seconds env e ?now - 30" and v: "v = log_call UtcNow w"
    by (simp_all add: RENEWAL_BUFFER_SECS_def)
  have "?now \<le> e"
    using early.hyps(2) due_near_end [OF assms(1) ex(1), of w] by force
  from num_seconds_bounds(1) [OF assms(1) this] show ?case
    using ex unfolding v by (auto simp: lease_kept_def d router_table_log)
next
  case (meanwhile w pm "next" evs v)
  from meanwhile.IH [OF meanwhile.prems] other_key_kept [OF meanwhile.hyps(2,3), of t]
  show ?case by (simp add: lease_kept_def)
qed

text \<open>
  C7. A PortMapping whose renewals succeed never lapses at the router. Handlers run one at a time, and host
  and description are without markup. Suppose that whenever a visit asked for a renewal the router
  granted it within \<open>leeway\<close> seconds and the API server took the
  status, in less than 3560 seconds. Then, however often the object is visited besides, and whatever
  else the process does that concerns other ports (with no markup in the text of other PortMappings), the
  router has its entry, with an end of the lease in the future, at every moment up to \<open>late\<close> seconds
  after the visit that was asked for, if \<open>late + leeway < 30\<close>; and a visit from the time asked for on
  sends the router the request that renews it.
\<close>

theorem mapping_never_lapses:
  assumes "chrono_ok env" and "plain_pm pm" and "tended env sp ns leeway w pm next" and "late + leeway < 30"
  shows "(utc_now env (w_calls w) \<le> next + late * nanos \<longrightarrow>
      (\<exists>x. router_table env t w (pm_key pm) = Some (pm_entry pm, Some x) \<and> utc_now env (w_calls w) < x)) \<and>
    (next \<le> utc_now env (w_calls w) \<longrightarrow>
      (\<exists>cs. w_calls (after (reconcile_apply env (sp_upnp sp) ns pm) w) =
         w_calls w @ UtcNow # Http (add_request (sp_upnp sp) pm) # cs))"
proof -
  from tended_lease_kept [OF assms(1,3,2), of t] obtain e x where ex: "lease_of pm = Some e"
    "router_table env t w (pm_key pm) = Some (pm_entry pm, Some x)" "e \<le> x + leeway * nanos"
    "next + 30 * nanos \<le> e" "e < next + 31 * nanos"
    by (auto simp: lease_kept_def)
  have "(late + leeway) * nanos < 30 * nanos" using assms(4) by simp
  then have "next + late * nanos < x" using ex(3,4) by (simp add: algebra_simps)
  moreover have "\<exists>cs. w_calls (after (reconcile_apply env (sp_upnp sp) ns pm) w) =
      w_calls w @ UtcNow # Http (add_request (sp_upnp sp) pm) # cs" if "next \<le> utc_now env (w_calls w)"
  proof -
    have "due env pm w" using that ex(5) by (intro due_near_end [OF assms(1) ex(1)]) simp
    from reconcile_apply_asks_router [OF this, of "sp_upnp sp" ns] show ?thesis
      by (simp add: after_def look_at_clock_def ex(1))
  qed
  ultimately show ?thesis using ex(2) by auto
qed


definition sample_process :: started_process where
  "sample_process =
     \<lparr>sp_root_url = ''http://r/d'', sp_upnp = upnp_client_new ''u'', sp_renewal_url = None, sp_poll_interval = 10,
      sp_config = from_env Map.empty\<rparr>"

theorem mapping_never_lapses_witness:
  "\<exists>v pm. tended sample_env sample_process ''prod'' 5 v pm (3571 * nanos) \<and>
     (\<exists>x. router_table sample_env Map.empty v (pm_key pm) = Some (pm_entry pm, Some x) \<and> utc_now sample_env (w_calls v) < x)"
proof -
  let ?w = "world_new ''192.168.0.2''"
  let ?u = "upnp_client_new ''u''"
  define rn where "rn = renewal_run sample_env ?u ''prod'' (sample_pm None) None ?w"
  let ?pm = "sample_pm None\<lparr>pmo_status := Some (rn_status rn)\<rparr>"
  have up: "sp_upnp sample_process = ?u" by (simp add: sample_process_def)
  have granted: "granted sample_env ?u (sample_pm None) None ?w" by (simp add: granted_def no_ip_in_empty)
  have rn: "rn_now rn = nanos" "utc_now sample_env (rn_asked_at rn) = 4 * nanos" "utc_now sample_env (w_calls ?w) = 0"
    "utc_now sample_env (w_calls (rn_world rn)) = 5 * nanos"
    by (simp_all add: rn_def renewal_run_def Let_def sample_env_def world_new_def)
  have run: "run_state (reconcile_apply sample_env ?u ''prod'' (sample_pm None)) ?w = (Ok (Requeue 3567), rn_world rn)"
    using reconcile_apply_granted [OF rn_def granted] rn(1,2) by (simp add: sample_env_kube) (simp add: sample_env_def)
  have "tended sample_env sample_process ''prod'' 5 (rn_world rn) ?pm (4 * nanos + 3567 * nanos)"
    by (rule tended.renewed [where rn = rn and ip = None and w = ?w]) (simp_all add: up rn rn_def [symmetric] granted run sample_env_kube)
  then have tended: "tended sample_env sample_process ''prod'' 5 (rn_world rn) ?pm (3571 * nanos)" by simp
  from mapping_never_lapses [OF chrono_sample_env _ tended, of 20 Map.empty] sample_pm_plain tended rn(4) show ?thesis
    by (intro exI [of _ "rn_world rn"] exI [of _ ?pm]) simp
qed

text \<open>A router that refuses everything, twenty seconds before the end of a lease.\<close>

abbreviation (input) "late_pm \<equiv> sample_pm (Some (active_status None (Some (20 * nanos)) 0))"


end
