(* ===== verification/Object_Table.thy ===== *)
theory Object_Table
  imports System_Facts
begin

text \<open>
  The PortMappings of the API server, read off the calls that write and delete them and the answers
  to those, and what a visit of a watcher makes of them: the owned ones are then those the annotation
  asks for. And what no visit ever does: a proxy is stopped only by a later visit to its owner.
\<close>

section \<open>The objects of the API server\<close>

text \<open>By namespace and name, without those marked for deletion.\<close>

type_synonym object_table = "(string \<times> string) \<rightharpoonup> pm_manifest"

text \<open>
  A server-side apply with \<open>force\<close> sets what the manifest says; a deletion marks the object. Other
  calls do nothing to PortMappings but for their status.
\<close>

fun api_does :: "kube_call \<Rightarrow> object_table \<Rightarrow> object_table" where
  "api_does (ApplyPortMapping ns name manager mf) t = t((ns, name) \<mapsto> mf)"
| "api_does (DeletePortMapping ns name) t = t((ns, name) := None)"
| "api_does _ t = t"

fun objects_rev :: "env \<Rightarrow> object_table \<Rightarrow> call list \<Rightarrow> object_table" where
  "objects_rev env t [] = t"
| "objects_rev env t (Kube c # h) =
     (if kube_answer env (rev h) c = Inr () then api_does c (objects_rev env t h) else objects_rev env t h)"
| "objects_rev env t (c # h) = objects_rev env t h"

definition objects :: "env \<Rightarrow> object_table \<Rightarrow> world \<Rightarrow> object_table" where
  "objects env t w = objects_rev env t (rev (w_calls w))"

lemma objects_log [simp]:
  "objects env t (log_call c w) =
     (case c of
        Kube k \<Rightarrow> if kube_answer env (w_calls w) k = Inr () then api_does k (objects env t w) else objects env t w
      | _ \<Rightarrow> objects env t w)"
  by (cases c) (simp_all add: objects_def)

lemma objects_proxies [simp]: "objects env t (w\<lparr>w_proxies := p\<rparr>) = objects env t w"
  "objects env t (without_proxies ks w) = objects env t w"
  by (simp_all add: objects_def without_proxies_def)

section \<open>What a visit does to them\<close>

definition put :: "string \<times> string \<times> pm_manifest \<Rightarrow> object_table \<Rightarrow> object_table" where
  "put = (\<lambda>(ns, name, mf) t. t((ns, name) \<mapsto> mf))"

text \<open>A loop that completes has written what it published, each confirmed.\<close>

lemma loop_objects:
  assumes "run_state (desired_loop (start_desired env ow) (publish_desired env ow ip) ds) w = (Ok (), v)"
  shows "\<exists>new. published v = published w @ new \<and> objects env t v = fold put new (objects env t w)"
  using assms
proof (induction ds arbitrary: w)
  case Nil
  then show ?case by (auto intro: exI [of _ "[]"])
next
  case (Cons d ds)
  obtain q u where q: "run_state (start_desired env ow d) w = (q, u)" by (cases "run_state (start_desired env ow d) w")
  then have u: "published u = published w" "objects env t u = objects env t w"
    by (auto simp: start_desired_def run_on_proxies published_def)
  show ?case
  proof (cases q)
    case (Ok port)
    let ?c = "ApplyPortMapping (fo_ns ow) (desired_name ow d) ''upnp-service-controller'' (desired_manifest ow ip d port)"
    let ?u = "log_call (Kube ?c) u"
    from Cons.prems q Ok have ok: "kube_answer env (w_calls u) ?c = Inr ()"
      and rest: "run_state (desired_loop (start_desired env ow) (publish_desired env ow ip) ds) ?u = (Ok (), v)"
      by (cases "kube_answer env (w_calls u) ?c"; simp add: run_try_bind run_publish)+
    from Cons.IH [OF rest] obtain new where "published v = published ?u @ new" "objects env t v = fold put new (objects env t ?u)"
      by blast
    then show ?thesis
      using u ok by (intro exI [of _ "(fo_ns ow, desired_name ow d, desired_manifest ow ip d port) # new"]) (simp add: put_def)
  next
    case (Err e)
    with Cons.prems q have "run_state (desired_loop (start_desired env ow) (publish_desired env ow ip) ds) u = (Ok (), v)"
      by simp
    from Cons.IH [OF this] u show ?thesis by simp
  next
    case Panicked
    with Cons.prems q show ?thesis by simp
  qed
qed

lemma deletes_objects:
  assumes "\<And>h name. name \<in> set names \<Longrightarrow> kube_answer env h (DeletePortMapping ns name) = Inr ()"
  shows "objects env t (log_calls (map (delete_call ns) names) w) =
    (\<lambda>k. if fst k = ns \<and> snd k \<in> set names then None else objects env t w k)"
  using assms
proof (induction names arbitrary: w)
  case Nil
  then show ?case by (simp add: log_calls_def)
next
  case (Cons n names)
  have calls: "log_calls (map (delete_call ns) (n # names)) w = log_calls (map (delete_call ns) names) (log_call (delete_call ns n) w)"
    by (simp add: log_calls_def log_call_def)
  have "objects env t (log_call (delete_call ns n) w) = (objects env t w)((ns, n) := None)"
    using Cons.prems by (simp add: delete_call_def)
  then show ?case unfolding calls using Cons.IH [of "log_call (delete_call ns n) w"] Cons.prems by (auto simp: fun_eq_iff)
qed

lemma fold_put_other: "k \<notin> (\<lambda>(ns, name, mf). (ns, name)) ` set new \<Longrightarrow> fold put new t k = t k"
  by (induction new arbitrary: t) (auto simp: put_def)

lemma fold_put_in:
  "(ns, name) \<in> (\<lambda>(ns, name, mf). (ns, name)) ` set new \<Longrightarrow>
     \<exists>mf. (ns, name, mf) \<in> set new \<and> fold put new t (ns, name) = Some mf"
proof (induction new rule: rev_induct)
  case (snoc m new)
  obtain ns' name' mf where m: "m = (ns', name', mf)" by (cases m) auto
  show ?case
  proof (cases "(ns', name') = (ns, name)")
    case True
    then show ?thesis by (auto simp: m put_def)
  next
    case False
    with snoc.prems have "(ns, name) \<in> (\<lambda>(ns, name, mf). (ns, name)) ` set new" by (auto simp: m)
    from snoc.IH [OF this] False show ?thesis by (auto simp: m put_def)
  qed
qed simp

text \<open>The names of the PortMappings in the namespace of an object that name it as an owner.\<close>

definition owns :: "object_meta \<Rightarrow> object_table \<Rightarrow> string \<Rightarrow> bool" where
  "owns meta t name \<longleftrightarrow>
     (case t (namespace_or_default meta, name) of
        None \<Rightarrow> False
      | Some mf \<Rightarrow> uid_or_empty meta \<in> or_uid ` set (mf_owner_references mf))"

lemma forward_ports_objects:
  assumes run: "run_state (forward_ports env ow owned desired) w = (Ok (Requeue 60), w')"
    and deletes: "\<And>h name. kube_answer env h (DeletePortMapping (fo_ns ow) name) = Inr ()"
  shows "\<exists>new. published w' = published w @ new \<and>
    objects env t w' = (\<lambda>k. if fst k = fo_ns ow \<and> snd k \<in> set (stale_names ow owned desired) then None
      else fold put new (objects env t w) k)"
  using run
proof (cases rule: forward_ports_cases)
  case (done_all v)
  from loop_objects [OF done_all(1)] obtain new where
    new: "published v = published w @ new" "objects env t v = fold put new (objects env t w)" by blast
  have "published w' = published w @ new" using new(1) by (simp add: done_all(3) flip: map_map)
  moreover have "objects env t w' = (\<lambda>k. if fst k = fo_ns ow \<and> snd k \<in> set (stale_names ow owned desired) then None
      else fold put new (objects env t w) k)"
    unfolding done_all(3) deletes_objects [OF deletes] by (auto simp: fun_eq_iff new(2))
  ultimately show ?thesis by blast
next
  case (early q)
  from early(3) [of "Requeue 60"] show ?thesis by simp
qed

lemma live_key: "live_manifest ow ip w d (ns, name, mf) \<Longrightarrow> ns = fo_ns ow \<and> name = desired_name ow d"
  by (auto simp: live_manifest_def desired_name_def split: prod.splits)

text \<open>A completed visit of distinct mappings leaves each live in the table, and nothing else it named.\<close>

lemma forward_ports_establishes:
  assumes run: "run_state (forward_ports env ow owned desired) w = (Ok (Requeue 60), w')"
    and deletes: "\<forall>h name. kube_answer env h (DeletePortMapping (fo_ns ow) name) = Inr ()"
    and distinct: "distinct (map (desired_name ow) desired)"
    and proxies: "\<forall>d \<in> set desired. serves_w w' (desired_name ow d) \<noteq> None"
  shows established: "d \<in> set desired \<Longrightarrow> \<exists>mf. objects env t w' (fo_ns ow, desired_name ow d) = Some mf \<and>
      live_manifest ow (px_lan_ip (w_proxies w)) w' d (fo_ns ow, desired_name ow d, mf)"
    and swept: "name \<in> set (stale_names ow owned desired) \<Longrightarrow> objects env t w' (fo_ns ow, name) = None"
    and untouched: "ns \<noteq> fo_ns ow \<or> name \<notin> set (stale_names ow owned desired) \<and> name \<notin> desired_names ow desired \<Longrightarrow>
      objects env t w' (ns, name) = objects env t w (ns, name)"
proof -
  let ?ip = "px_lan_ip (w_proxies w)" and ?stale = "stale_names ow owned desired"
  from forward_ports_objects [OF run deletes [rule_format], of t] obtain new where new: "published w' = published w @ new"
    "objects env t w' = (\<lambda>k. if fst k = fo_ns ow \<and> snd k \<in> set ?stale then None else fold put new (objects env t w) k)"
    by blast
  from forward_ports_live [OF run distinct] new(1)
  have live: "\<forall>m \<in> set new. \<exists>d \<in> set desired. live_manifest ow ?ip w' d m"
    and all: "\<forall>d \<in> set desired. \<exists>m \<in> set new. live_manifest ow ?ip w' d m"
    using proxies by auto
  show "\<exists>mf. objects env t w' (fo_ns ow, desired_name ow d) = Some mf \<and>
      live_manifest ow ?ip w' d (fo_ns ow, desired_name ow d, mf)" if d: "d \<in> set desired"
  proof -
    from all d obtain ns name mf where m: "(ns, name, mf) \<in> set new" "live_manifest ow ?ip w' d (ns, name, mf)" by fast
    with live_key have "(fo_ns ow, desired_name ow d, mf) \<in> set new" by blast
    then have "(fo_ns ow, desired_name ow d) \<in> (\<lambda>(ns, name, mf). (ns, name)) ` set new" by force
    from fold_put_in [OF this] obtain mf' where
      mf': "(fo_ns ow, desired_name ow d, mf') \<in> set new" "fold put new (objects env t w) (fo_ns ow, desired_name ow d) = Some mf'"
      by blast
    from live mf'(1) obtain d' where d': "d' \<in> set desired" "live_manifest ow ?ip w' d' (fo_ns ow, desired_name ow d, mf')" by blast
    from live_key [OF d'(2)] d'(1) d distinct have "d' = d" by (simp add: distinct_map inj_on_def)
    with mf'(2) d'(2) show ?thesis by (simp add: new(2) desired_not_stale [OF d])
  qed
  show "objects env t w' (fo_ns ow, name) = None" if "name \<in> set ?stale" using that by (simp add: new(2))
  show "objects env t w' (ns, name) = objects env t w (ns, name)"
    if other: "ns \<noteq> fo_ns ow \<or> name \<notin> set ?stale \<and> name \<notin> desired_names ow desired"
  proof -
    have "(ns, name) \<notin> (\<lambda>(ns, name, mf). (ns, name)) ` set new"
    proof
      assume "(ns, name) \<in> (\<lambda>(ns, name, mf). (ns, name)) ` set new"
      then obtain mf where "(ns, name, mf) \<in> set new" by auto
      with live obtain d where "d \<in> set desired" "live_manifest ow ?ip w' d (ns, name, mf)" by blast
      with live_key [OF this(2)] other show False by (auto simp: desired_names_def)
    qed
    from fold_put_other [OF this] other show ?thesis by (auto simp: new(2))
  qed
qed

text \<open>
  C4. A visit makes the PortMappings of a Service those its annotation asks for, when nothing fails:
  it completes, with no other handler in between; the annotation does not ask twice for one external port and protocol; every
  desired mapping has its proxy in the table when it ends (none failed to start); the listing showed
  exactly the PortMappings owned by the Service that the API server had; and the API server confirms every
  deletion in the namespace. Then the PortMappings owned by the Service are exactly those of the desired
  mappings, each with the LAN address and the port that the table has for it, and no other PortMapping
  has changed. Without these conditions less holds: a proxy that fails to start is passed over, and
  so is a deletion that fails.
\<close>

theorem visit_establishes_annotation:
  assumes run: "run_state (reconcile_service env svc) w = (Ok (Requeue 60), w')"
    and distinct: "distinct (map (\<lambda>(e, i, p). (e, p)) (service_desired svc))"
    and items: "list_pm_answer env (w_calls w) (list_query (namespace_or_default (svc_metadata svc))) = Inr items"
    and faithful: "\<forall>name. name \<in> pm_object_name ` set (owned_of (svc_metadata svc) items) \<longleftrightarrow>
      owns (svc_metadata svc) (objects env t w) name"
    and deletes: "\<forall>h name. kube_answer env h (DeletePortMapping (namespace_or_default (svc_metadata svc)) name) = Inr ()"
    and proxies: "\<forall>d \<in> set (service_desired svc). serves_w w' (desired_name (service_owner svc) d) \<noteq> None"
  shows "(\<forall>name. owns (svc_metadata svc) (objects env t w') name \<longleftrightarrow>
      name \<in> desired_names (service_owner svc) (service_desired svc)) \<and>
    (\<forall>d \<in> set (service_desired svc). \<exists>mf.
      objects env t w' (namespace_or_default (svc_metadata svc), desired_name (service_owner svc) d) = Some mf \<and>
      live_manifest (service_owner svc) (px_lan_ip (w_proxies w)) w' d
        (namespace_or_default (svc_metadata svc), desired_name (service_owner svc) d, mf)) \<and>
    (\<forall>ns name. ns \<noteq> namespace_or_default (svc_metadata svc) \<or>
        name \<notin> desired_names (service_owner svc) (service_desired svc) \<and> \<not> owns (svc_metadata svc) (objects env t w) name \<longrightarrow>
      objects env t w' (ns, name) = objects env t w (ns, name))"
proof -
  let ?meta = "svc_metadata svc" and ?ow = "service_owner svc" and ?ds = "service_desired svc"
  let ?ns = "namespace_or_default ?meta" and ?ip = "px_lan_ip (w_proxies w)"
  have ow: "fo_ns ?ow = ?ns" "fo_uid ?ow = uid_or_empty ?meta" by (simp_all add: service_owner_def)
  from run items have fwd: "run_state (forward_ports env ?ow (owned_of ?meta items) ?ds) (listed ?meta w) = (Ok (Requeue 60), w')"
    by (cases rule: reconcile_service_forwards) auto
  have same: "objects env t (listed ?meta w) = objects env t w" by (simp add: listed_def list_query_def)
  note est = established [OF fwd _ distinct_names [OF distinct] proxies, where t = t, unfolded ow(1) listed_simps, OF deletes]
    and swp = swept [OF fwd _ distinct_names [OF distinct] proxies, where t = t, unfolded ow(1), OF deletes]
    and unt = untouched [OF fwd _ distinct_names [OF distinct] proxies, where t = t, unfolded ow(1) same, OF deletes]
  have desired: "owns ?meta (objects env t w') name" if "name \<in> desired_names ?ow ?ds" for name
  proof -
    from that obtain d where d: "d \<in> set ?ds" "name = desired_name ?ow d" by (auto simp: desired_names_def)
    from est [OF d(1)] obtain mf where mf: "objects env t w' (?ns, name) = Some mf"
      "live_manifest ?ow ?ip w' d (?ns, name, mf)" unfolding d(2) by blast
    from mf(2) have "map or_uid (mf_owner_references mf) = [uid_or_empty ?meta]"
      by (auto simp: live_manifest_def ow(2) split: prod.splits)
    then have "uid_or_empty ?meta \<in> set (map or_uid (mf_owner_references mf))" by simp
    with mf(1) show ?thesis by (simp add: owns_def)
  qed
  have others: "\<not> owns ?meta (objects env t w') name" if "name \<notin> desired_names ?ow ?ds" for name
  proof (cases "name \<in> set (stale_names ?ow (owned_of ?meta items) ?ds)")
    case True
    from swp [OF this] show ?thesis by (simp add: owns_def)
  next
    case False
    with that have "\<not> owns ?meta (objects env t w) name" by (simp add: stale_names_iff faithful)
    moreover from unt [of ?ns name] False that have "objects env t w' (?ns, name) = objects env t w (?ns, name)" by blast
    ultimately show ?thesis by (simp add: owns_def)
  qed
  have rest: "objects env t w' (ns, name) = objects env t w (ns, name)"
    if "ns \<noteq> ?ns \<or> name \<notin> desired_names ?ow ?ds \<and> \<not> owns ?meta (objects env t w) name" for ns name
    using that unt [of ns name] by (auto simp: stale_names_iff faithful)
  show ?thesis using desired others est rest by blast
qed

text \<open>The table that the sample listing shows: the one stale PortMapping.\<close>

definition old_table :: object_table where
  "old_table = [(''prod'', ''prod-web-81-tcp'') \<mapsto>
     \<lparr>mf_api_version = ''upnp.jeffmoss.github.io/v1'', mf_kind = ''PortMapping'', mf_name = ''prod-web-81-tcp'', mf_namespace = ''prod'', mf_labels = [],
      mf_owner_references = the (meta_owner_references (pmo_metadata old_pm)), mf_spec = pmo_spec old_pm\<rparr>]"

theorem visit_establishes_annotation_witness:
  "owns (sample_meta (Some ''true'')) (objects stale_env old_table
      (snd (run_state (reconcile_service stale_env (sample_service (Some ''true''))) (world_new ''192.168.0.2''))))
    = (\<lambda>name. name = ''prod-web-80-tcp'')"
proof -
  let ?w = "world_new ''192.168.0.2''" and ?svc = "sample_service (Some ''true'')"
  let ?run = "run_state (reconcile_service stale_env ?svc) ?w"
  have run: "?run = (Ok (Requeue 60), snd ?run)" using stale_env_run by (simp add: prod_eq_iff)
  have name: "desired_name (service_owner ?svc) (80, 80, Tcp) = ''prod-web-80-tcp''"
    by (simp add: desired_name_def service_owner_def pm_name_for_owner_def show_u16_def show_nat.simps
        digit_char_def char_of_eq_iff) (simp add: sample_meta_def)
  have faithful: "n \<in> pm_object_name ` set (owned_of (svc_metadata ?svc) [old_pm]) \<longleftrightarrow>
      owns (svc_metadata ?svc) (objects stale_env old_table ?w) n" for n
    by (simp add: objects_def world_new_def owns_def old_table_def) (auto simp: old_pm_def sample_meta_def uid_or_empty_def)
  have proxies: "\<forall>d \<in> set (service_desired ?svc). serves_w (snd ?run) (desired_name (service_owner ?svc) d) \<noteq> None"
    using stale_env_serves by simp
  from visit_establishes_annotation [OF run, of "[old_pm]" old_table] faithful proxies
  show ?thesis by (simp add: fun_eq_iff desired_names_def name stale_env_def sample_env_def)
qed


section \<open>Proxies outlive the objects they were started for\<close>

text \<open>
  Only a visit to a Service or Pod starts or stops a proxy. An object without finalizers is not visited
  after its deletion, and the clean-up of the PortMappings that the API server deletes with it does not
  stop their proxies, so these run on.
\<close>

fun visits_owner :: "event \<Rightarrow> bool" where
  "visits_owner (VisitService svc) = True"
| "visits_owner (VisitPod p) = True"
| "visits_owner _ = False"

interpretation proxies_address: address_frame same_proxies
  by unfold_locales (auto simp: same_proxies_def)

lemma step_keeps_proxies:
  assumes "sys_step env sp w ev v" and "\<not> visits_owner ev"
  shows "w_proxies v = w_proxies w"
proof -
  have renewal: "state_io_rel same_proxies (renewal_tick env url ttl)" for url ttl
    by (rule same_proxies.keeps_renewal) (simp add: same_proxies_def)
  from assms have "same_proxies w v"
    by (cases rule: sys_step.cases)
      (use proxies_address.keeps_poll [OF same_proxies.keeps_upnp(3)] proxies_address.keeps_notify
        same_proxies.keeps_reconcile_apply same_proxies.keeps_reconcile_cleanup same_proxies.keeps_gateway
        same_proxies.keeps_dns renewal in \<open>auto simp: state_io_rel_def after_def shutdown_def same_proxies_def\<close>)
  then show ?thesis by (simp add: same_proxies_def)
qed

lemma proxies_outlive_objects:
  assumes "sys_run env sp w evs v" and "\<forall>ev \<in> set evs. \<not> visits_owner ev"
  shows "w_proxies v = w_proxies w"
  using assms by (induction rule: sys_run.induct) (auto dest: step_keeps_proxies)

end
