(* ===== verification/End_To_End.thy ===== *)
theory End_To_End
  imports Object_Table Router_Table
begin

text \<open>
  From the annotation of a Service to the port of the router: what the watcher publishes, the PortMapping
  reconciler programs, and the proxy manager has started, put together over a run of the process.
\<close>

lemma live_manifest_task:
  assumes "live_manifest ow ip w (external_port, internal_port, proto) (ns, name, mf)" and "proxies_ok w"
  shows "\<exists>task \<in> set (unstopped (w_proxies w)). pt_port task = spec_internal_port (mf_spec mf) \<and>
    pt_protocol task = proto \<and> pt_target task = fo_backend ow @ '':'' @ show_u16 internal_port"
  by (rule served_task [of w name]) (use assms in \<open>auto simp: live_manifest_def\<close>)

text \<open>The visit of a PortMapping that has not been visited yet.\<close>

lemma first_visit_programs:
  assumes "pmo_status pm = None" and "plain_pm pm" and "confirmed env (w_calls w) (add_request upnp pm)"
  shows "router_table env t (after (reconcile_apply env upnp ns pm) w) (pm_key pm) =
    Some (pm_entry pm, Some (utc_now env (w_calls w) + 3600 * nanos))"
proof -
  have "due env pm w" "look_at_clock pm w = w"
    using assms(1) by (simp_all add: due_def lease_of_def look_at_clock_def)
  with assms table_after_apply [OF assms(2), of env t upnp ns w] show ?thesis
    by (simp add: after_def adds_now_def)
qed

text \<open>
  The path of a connection: the router has an entry, with an end of its lease, that forwards the external
  port and protocol to a port of the machine at the address, and for that port and protocol there is a task
  for the target that has not been told to stop.
\<close>

definition port_open :: "env \<Rightarrow> router_table \<Rightarrow> world \<Rightarrow> u16 \<Rightarrow> protocol \<Rightarrow> string \<Rightarrow> string \<Rightarrow> bool" where
  "port_open env t w external_port proto ip target \<longleftrightarrow>
     (\<exists>entry end. router_table env t w (external_port, protocol_to_string proto) = Some (entry, Some end) \<and>
        pe_internal_client entry = ip \<and>
        (\<exists>task \<in> set (unstopped (w_proxies w)). pt_port task = pe_internal_port entry \<and> pt_protocol task = proto \<and>
           pt_target task = target))"

text \<open>
  C3. An annotated port is opened, when nothing fails. Suppose an uninterrupted visit to a Service completes, its
  annotation does not ask twice for one external port and protocol, and a mapping it asks for has its
  proxy in the table after the visit. Then the visit has published a PortMapping for it, such that,
  whatever handlers run before the PortMapping is first visited, one at a time and no visits to
  Services or Pods among them: if the object with the published spec and no status has no opening
  angle bracket in its host and description, and the router confirms the request of its first
  visit, then after that visit the router forwards the external port and protocol to the LAN address
  of this process and to the port of a task for the cluster address of the Service and the internal
  port, which has not been told to stop.
\<close>

theorem annotation_opens_port:
  assumes reach: "process_reaches env sp w" and visit: "run_state (reconcile_service env svc) w = (Ok (Requeue 60), w1)"
    and distinct: "distinct (map (\<lambda>(e, i, p). (e, p)) (service_desired svc))"
    and d: "(external_port, internal_port, proto) \<in> set (service_desired svc)"
    and proxy: "serves_w w1 (desired_name (service_owner svc) (external_port, internal_port, proto)) \<noteq> None"
  shows "\<exists>new ns name mf. published w1 = published w @ new \<and> (ns, name, mf) \<in> set new \<and>
    name = desired_name (service_owner svc) (external_port, internal_port, proto) \<and>
    (\<forall>evs w2 pm. sys_run env sp w1 evs w2 \<and> (\<forall>ev \<in> set evs. \<not> visits_owner ev) \<and>
       pmo_spec pm = mf_spec mf \<and> pmo_status pm = None \<and> plain_pm pm \<and>
       confirmed env (w_calls w2) (add_request (sp_upnp sp) pm) \<longrightarrow>
       port_open env t (after (reconcile_apply env (sp_upnp sp) ns pm) w2) external_port proto
         (px_lan_ip (w_proxies w)) (cluster_ip_of svc @ '':'' @ show_u16 internal_port))"
proof -
  let ?ow = "service_owner svc" and ?d = "(external_port, internal_port, proto)" and ?ip = "px_lan_ip (w_proxies w)"
  from visit obtain items where "run_state (forward_ports env ?ow (owned_of (svc_metadata svc) items) (service_desired svc))
      (listed (svc_metadata svc) w) = (Ok (Requeue 60), w1)"
    by (cases rule: reconcile_service_forwards) auto
  from forward_ports_live [OF this distinct_names [OF distinct]] obtain new where
    new: "published w1 = published w @ new" "\<forall>d \<in> set (service_desired svc). serves_w w1 (desired_name ?ow d) = None \<or>
      (\<exists>m \<in> set new. live_manifest ?ow ?ip w1 d m)"
    by auto
  from bspec [OF new(2) d] proxy obtain m where m: "m \<in> set new" "live_manifest ?ow ?ip w1 ?d m" by blast
  obtain ns name mf where mf: "m = (ns, name, mf)" by (cases m)
  have "proxies_ok w1"
    using sys_proxies.keeps_step [OF visit_service [of env sp w svc]] reachable_invariants(1) [OF reach]
    by (simp add: after_def visit)
  from live_manifest_task [OF m(2) [unfolded mf] this] obtain task where
    task: "task \<in> set (unstopped (w_proxies w1))" "pt_port task = spec_internal_port (mf_spec mf)" "pt_protocol task = proto"
      "pt_target task = fo_backend ?ow @ '':'' @ show_u16 internal_port" by blast
  have name: "name = desired_name ?ow ?d" using m(2) by (simp add: mf live_manifest_def desired_name_def)
  have spec: "spec_external_port (mf_spec mf) = external_port" "spec_protocol (mf_spec mf) = proto"
    "spec_internal_host (mf_spec mf) = ?ip"
    using m(2) by (simp_all add: mf live_manifest_def)
  have reached: "port_open env t (after (reconcile_apply env (sp_upnp sp) ns pm) w2) external_port proto ?ip
      (cluster_ip_of svc @ '':'' @ show_u16 internal_port)"
    if run: "sys_run env sp w1 evs w2" "\<forall>ev \<in> set evs. \<not> visits_owner ev"
      and pm: "pmo_spec pm = mf_spec mf" "pmo_status pm = None" "plain_pm pm"
        "confirmed env (w_calls w2) (add_request (sp_upnp sp) pm)" for evs w2 pm
  proof -
    let ?v = "after (reconcile_apply env (sp_upnp sp) ns pm) w2"
    have "w_proxies ?v = w_proxies w1"
      using step_keeps_proxies [OF apply_pm] proxies_outlive_objects [OF run] by simp
    moreover have "pm_key pm = (external_port, protocol_to_string proto)" by (simp add: pm_key_def pm(1) spec)
    moreover have "pe_internal_client (pm_entry pm) = ?ip" "pe_internal_port (pm_entry pm) = spec_internal_port (mf_spec mf)"
      by (simp_all add: pm_entry_def pm(1) spec)
    moreover have "fo_backend ?ow = cluster_ip_of svc" by (simp add: service_owner_def)
    ultimately show ?thesis
      using first_visit_programs [OF pm(2-4), of t ns] task
      by (auto simp: port_open_def intro!: exI [of _ "pm_entry pm"])
  qed
  show ?thesis
    by (rule exI [of _ new], rule exI [of _ ns], rule exI [of _ name], rule exI [of _ mf])
      (use m(1) mf new(1) name reached in blast)
qed

text \<open>The process started from the environment visits the sample Service, then its PortMapping.\<close>

abbreviation (input) "web_owner \<equiv> service_owner (sample_service (Some ''true''))"

theorem annotation_opens_port_witness:
  "\<exists>sp w w1 mf. gena_start = (Ok sp, w) \<and>
     run_state (reconcile_service gena_env (sample_service (Some ''true''))) w = (Ok (Requeue 60), w1) \<and>
     published w1 = published w @ [(''prod'', desired_name web_owner (80, 80, Tcp), mf)] \<and>
     port_open gena_env Map.empty (after (reconcile_apply gena_env (sp_upnp sp) ''prod''
       ((sample_pm None)\<lparr>pmo_spec := mf_spec mf\<rparr>)) w1) 80 Tcp ''192.168.0.2'' ''10.0.0.1:80''"
proof -
  let ?svc = "sample_service (Some ''true'')" and ?mf = "desired_manifest web_owner ''192.168.0.2'' (80, 80, Tcp) 1"
  let ?pm = "(sample_pm None)\<lparr>pmo_spec := mf_spec ?mf\<rparr>"
  obtain sp w where start: "gena_start = (Ok sp, w)" "w_proxies w = new_manager ''192.168.0.2''" "\<not> w_shutting_down w"
    using gena_starts by blast
  from sample_visit [of gena_env w "''192.168.0.2''"] start obtain w1 where
    w1: "run_state (reconcile_service gena_env ?svc) w = (Ok (Requeue 60), w1)"
      "published w1 = published w @ [(''prod'', desired_name web_owner (80, 80, Tcp), ?mf)]"
      "serves_w w1 (desired_name web_owner (80, 80, Tcp)) \<noteq> None"
    by (auto simp: gena_env_def sample_env_def)
  have lan: "px_lan_ip (w_proxies w) = ''192.168.0.2''" by (simp add: start new_manager_def)
  have desired: "service_desired ?svc = [(80, 80, Tcp)]"
    by (simp add: service_desired_def annotation_def sample_service_def service_ports_of_def parse_service_annotation_def parse_k8s_protocol_def sample_meta_def)
  have backend: "cluster_ip_of ?svc = ''10.0.0.1''" "show_u16 80 = ''80''"
    by (simp_all add: sample_service_def cluster_ip_of_def show_u16_def show_nat.simps digit_char_def char_of_eq_iff)
  have plain: "plain_pm ?pm"
    by (simp add: plain_pm_def pm_description_def desired_manifest_def desired_target_def service_owner_def sample_meta_def namespace_or_default_def backend
        utf8_def is_cont_def is_ascii_def byte_def)
  have conf: "confirmed gena_env h rq" for h rq by (simp add: confirmed_def soap_result_def)
  from annotation_opens_port [OF gena_reaches [OF start(1)] w1(1), of 80 80 Tcp Map.empty] desired w1(3)
  obtain new ns name mf where new: "published w1 = published w @ new" "(ns, name, mf) \<in> set new"
    and opens: "sys_run gena_env sp w1 evs w2 \<and> (\<forall>ev \<in> set evs. \<not> visits_owner ev) \<and>
       pmo_spec pm = mf_spec mf \<and> pmo_status pm = None \<and> plain_pm pm \<and>
       confirmed gena_env (w_calls w2) (add_request (sp_upnp sp) pm) \<Longrightarrow>
       port_open gena_env Map.empty (after (reconcile_apply gena_env (sp_upnp sp) ns pm) w2) 80 Tcp
         ''192.168.0.2'' ''10.0.0.1:80''" for evs w2 pm
    by (auto simp: lan backend)
  from new w1(2) have mf: "ns = ''prod''" "mf = ?mf" by auto
  have "port_open gena_env Map.empty (after (reconcile_apply gena_env (sp_upnp sp) ''prod'' ?pm) w1) 80 Tcp
      ''192.168.0.2'' ''10.0.0.1:80''"
    using opens [of "[]" w1 ?pm] done_run plain by (simp add: mf conf sample_pm_def)
  with start(1) w1(1,2) show ?thesis by blast
qed

end
