(* ===== verification/Http_Servers.thy ===== *)
theory Http_Servers
  imports System_Facts
begin

text \<open>
  The two HTTP servers of \<open>src/main.rs\<close>: how they start, what they route, and what a request to
  them does. \<open>axum\<close> and \<open>prometheus\<close> are the parameter \<open>web\<close>, with the documented routing as the named
  hypothesis \<open>web_ok\<close>. The events of a router come with the method \<open>NOTIFY\<close>, and there is no route for it.
\<close>

section \<open>The routes\<close>

record http_in =
  hi_method :: string
  hi_path :: string
  hi_body :: string

datatype handler = HandleNotify | HandleMetrics

datatype server = NotifyServer | MetricsServer

type_synonym route = "string \<times> string \<times> handler" \<comment> \<open>path, method, handler\<close>

definition notify_app :: "route list" where
  "notify_app = [(''/notify'', ''POST'', HandleNotify)]"

definition metrics_app :: "route list" where
  "metrics_app = [(''/metrics'', ''GET'', HandleMetrics)]"

fun app_of :: "server \<Rightarrow> route list" where
  "app_of NotifyServer = notify_app"
| "app_of MetricsServer = metrics_app"

text \<open>
  What is not in the repository: the router of \<open>axum\<close>, which gives the handler or a status; its
  extractor of a \<open>String\<close> from a body, which gives the text or the status of a rejection; and the text
  encoder of \<open>prometheus\<close>.
\<close>

record web =
  web_route :: "route list \<Rightarrow> http_in \<Rightarrow> nat + handler"
  web_body :: "string \<Rightarrow> nat + string"
  web_encode :: "metrics \<Rightarrow> string + string"

text \<open>
  What \<open>axum\<close> documents of a router whose paths are distinct and have no parameters: the handler of the
  path and method; status 404 for a path without a route; status 405 for a path with routes, of which
  none has the method (but \<open>HEAD\<close>, which goes to \<open>GET\<close>). And of the extractor, that it gives the body
  as it is, or refuses it.
\<close>

definition web_ok :: "web \<Rightarrow> bool" where
  "web_ok web \<longleftrightarrow>
     (\<forall>routes rq. distinct (map fst routes) \<longrightarrow>
        (\<forall>h. (hi_path rq, hi_method rq, h) \<in> set routes \<longrightarrow> web_route web routes rq = Inr h) \<and>
        (hi_path rq \<notin> fst ` set routes \<longrightarrow> web_route web routes rq = Inl 404) \<and>
        (hi_path rq \<in> fst ` set routes \<and> hi_method rq \<noteq> ''HEAD'' \<and> (\<forall>h. (hi_path rq, hi_method rq, h) \<notin> set routes) \<longrightarrow>
           web_route web routes rq = Inl 405)) \<and>
     (\<forall>body text. web_body web body = Inr text \<longrightarrow> text = body)"

section \<open>A request\<close>

text \<open>
  The reply, a status and a body; \<open>None\<close> if the handler panics, which closes the connection without
  one. The body of the replies that are not made here is left empty.
\<close>

definition serve :: "env \<Rightarrow> web \<Rightarrow> server \<Rightarrow> http_in \<Rightarrow> (world, (nat \<times> string) option) state" where
  "serve env web srv rq =
     (case web_route web (app_of srv) rq of
        Inl status \<Rightarrow> ret (Some (status, []))
      | Inr HandleNotify \<Rightarrow>
          (case web_body web (hi_body rq) of
             Inl status \<Rightarrow> ret (Some (status, []))
           | Inr body \<Rightarrow> do {
               r \<leftarrow> handle_notify env body;
               ret (case r of Ok status \<Rightarrow> Some (status, []) | _ \<Rightarrow> None)
             })
      | Inr HandleMetrics \<Rightarrow> do {
          r \<leftarrow> handle_metrics (web_encode web);
          ret (Some r)
        })"

lemma routes_apart: "distinct (map fst (app_of srv))"
  by (cases srv) (simp_all add: notify_app_def metrics_app_def)

lemma routed:
  assumes "web_ok web"
  shows "(hi_path rq, hi_method rq, h) \<in> set (app_of srv) \<Longrightarrow> web_route web (app_of srv) rq = Inr h"
    and "hi_path rq \<notin> fst ` set (app_of srv) \<Longrightarrow> web_route web (app_of srv) rq = Inl 404"
    and "hi_path rq \<in> fst ` set (app_of srv) \<Longrightarrow> hi_method rq \<noteq> ''HEAD'' \<Longrightarrow>
      (\<And>h. (hi_path rq, hi_method rq, h) \<notin> set (app_of srv)) \<Longrightarrow> web_route web (app_of srv) rq = Inl 405"
  using assms routes_apart [of srv] unfolding web_ok_def by blast+

lemma no_notify_route: "(path, ''NOTIFY'', h) \<notin> set (app_of srv)"
  by (cases srv) (simp_all add: notify_app_def metrics_app_def)

text \<open>
  C16. The events of the router are refused. A GENA event is an HTTP request with the method \<open>NOTIFY\<close>;
  both servers answer every such request with status 405, or 404 for another path, and do nothing: only
  a \<open>POST\<close> of the same body to the path of the callback URL reaches the handler.
\<close>

theorem gena_events_refused:
  assumes "web_ok web" and "hi_method rq = ''NOTIFY''"
  shows "run_state (serve env web srv rq) w =
      (Some (if hi_path rq \<in> fst ` set (app_of srv) then 405 else 404, []), w) \<and>
    (web_body web (hi_body rq) = Inr (hi_body rq) \<longrightarrow>
      run_state (serve env web NotifyServer (rq\<lparr>hi_method := ''POST'', hi_path := ''/notify''\<rparr>)) w =
        (let (r, v) = run_state (handle_notify env (hi_body rq)) w in
           (case r of Ok status \<Rightarrow> Some (status, []) | _ \<Rightarrow> None, v)))"
proof -
  have "web_route web (app_of srv) rq = Inl (if hi_path rq \<in> fst ` set (app_of srv) then 405 else 404)"
  proof (cases "hi_path rq \<in> fst ` set (app_of srv)")
    case True
    have "web_route web (app_of srv) rq = Inl 405"
      by (rule routed(3) [OF assms(1) True]) (simp_all add: assms(2) no_notify_route)
    with True show ?thesis by simp
  next
    case False
    with routed(2) [OF assms(1) False] show ?thesis by simp
  qed
  moreover have "web_route web notify_app (rq\<lparr>hi_method := ''POST'', hi_path := ''/notify''\<rparr>) = Inr HandleNotify"
    using routed(1) [OF assms(1), of "rq\<lparr>hi_method := ''POST'', hi_path := ''/notify''\<rparr>" HandleNotify NotifyServer]
    by (simp add: notify_app_def)
  ultimately show ?thesis
    by (auto simp: serve_def split: prod.splits)
qed


text \<open>A router and an extractor as documented.\<close>

definition sample_web :: web where
  "sample_web =
     \<lparr>web_route = (\<lambda>routes rq.
        (case map_of (map (\<lambda>(path, method, h). ((path, method), h)) routes) (hi_path rq, hi_method rq) of
           Some h \<Rightarrow> Inr h
         | None \<Rightarrow> Inl (if hi_path rq \<in> fst ` set routes then 405 else 404))),
      web_body = (\<lambda>body. if valid_utf8 body then Inr body else Inl 400),
      web_encode = (\<lambda>m. Inr [])\<rparr>"

lemma sample_web_ok: "web_ok sample_web"
proof -
  have found: "web_route sample_web routes rq = Inr h"
    if "distinct (map fst routes)" "(hi_path rq, hi_method rq, h) \<in> set routes" for routes rq h
  proof -
    let ?keyed = "map (\<lambda>(path, method, h). ((path, method), h)) routes"
    have "map fst routes = map (fst \<circ> fst) ?keyed" by auto
    with that(1) have "distinct (map fst ?keyed)" by (metis distinct_map map_map)
    moreover have "((hi_path rq, hi_method rq), h) \<in> set ?keyed" using that(2) by force
    ultimately show ?thesis by (simp add: sample_web_def map_of_is_SomeI)
  qed
  have missing: "web_route sample_web routes rq = Inl (if hi_path rq \<in> fst ` set routes then 405 else 404)"
    if "\<And>h. (hi_path rq, hi_method rq, h) \<notin> set routes" for routes rq
  proof -
    have "map_of (map (\<lambda>(path, method, h). ((path, method), h)) routes) (hi_path rq, hi_method rq) = None"
      using that by (fastforce simp: map_of_eq_None_iff)
    then show ?thesis by (simp add: sample_web_def)
  qed
  have absent: "web_route sample_web routes rq = Inl 404" if "hi_path rq \<notin> fst ` set routes" for routes rq
    using that missing [of rq routes] by force
  have body: "web_body sample_web b = Inr c \<Longrightarrow> c = b" for b c
    by (simp add: sample_web_def split: if_splits)
  show ?thesis
    unfolding web_ok_def
  proof (intro conjI allI impI)
    fix routes :: "route list" and rq :: http_in and h
    assume "distinct (map fst routes)" "(hi_path rq, hi_method rq, h) \<in> set routes"
    then show "web_route sample_web routes rq = Inr h" by (rule found)
  next
    fix routes :: "route list" and rq :: http_in
    assume "hi_path rq \<in> fst ` set routes \<and> hi_method rq \<noteq> ''HEAD'' \<and> (\<forall>h. (hi_path rq, hi_method rq, h) \<notin> set routes)"
    then have here: "hi_path rq \<in> fst ` set routes" and none: "\<And>h. (hi_path rq, hi_method rq, h) \<notin> set routes" by blast+
    from missing [OF none] here show "web_route sample_web routes rq = Inl 405" by (simp only: if_True)
  qed (use absent body in \<open>blast+\<close>)
qed

theorem gena_events_refused_witness:
  "run_state (serve moved_env sample_web NotifyServer
      \<lparr>hi_method = ''NOTIFY'', hi_path = ''/notify'', hi_body = ''<NewExternalIPAddress>5.6.7.8</NewExternalIPAddress>''\<rparr>)
      (world_new ''ip'') = (Some (405, []), world_new ''ip'')"
  using gena_events_refused [OF sample_web_ok, of "\<lparr>hi_method = ''NOTIFY'', hi_path = ''/notify'',
      hi_body = ''<NewExternalIPAddress>5.6.7.8</NewExternalIPAddress>''\<rparr>" moved_env NotifyServer "world_new ''ip''"]
  by (simp add: notify_app_def)

section \<open>The start of the servers\<close>

text \<open>
  The operating system's answer to a bind of a TCP listener, given the addresses this process listens on:
  an error or a listener. The task binds both before it serves either, and a failure makes it panic.
\<close>

type_synonym tcp_bind = "string list \<Rightarrow> string \<Rightarrow> string + nat"

definition start_servers :: "tcp_bind \<Rightarrow> config \<Rightarrow> (string, server \<Rightarrow> nat) outcome" where
  "start_servers bnd cfg =
     (let notify_addr = ''0.0.0.0:'' @ show_u16 (cf_notify_port cfg);
          metrics_addr = ''0.0.0.0:'' @ show_u16 (cf_metrics_port cfg)
      in case bnd [] notify_addr of
           Inl e \<Rightarrow> Panicked
         | Inr notify_listener \<Rightarrow>
             (case bnd [notify_addr] metrics_addr of
                Inl e \<Rightarrow> Panicked
              | Inr metrics_listener \<Rightarrow>
                  Ok (\<lambda>srv. case srv of NotifyServer \<Rightarrow> notify_listener | MetricsServer \<Rightarrow> metrics_listener)))"

text \<open>A listener has its address to itself: so with equal ports neither server starts.\<close>

lemma start_servers_panics_iff:
  "start_servers bnd cfg = Panicked \<longleftrightarrow>
     (\<exists>e. bnd [] (''0.0.0.0:'' @ show_u16 (cf_notify_port cfg)) = Inl e) \<or>
     (\<exists>e. bnd [''0.0.0.0:'' @ show_u16 (cf_notify_port cfg)] (''0.0.0.0:'' @ show_u16 (cf_metrics_port cfg)) = Inl e)"
  by (auto simp: start_servers_def Let_def split: sum.splits)

lemma equal_ports_start_no_server:
  assumes "\<And>taken addr. addr \<in> set taken \<Longrightarrow> \<exists>e. bnd taken addr = Inl e" and "cf_notify_port cfg = cf_metrics_port cfg"
  shows "start_servers bnd cfg = Panicked"
  using assms by (simp add: start_servers_panics_iff)

end
