(* ===== verification/Process_Life.thy ===== *)
theory Process_Life
  imports Http_Servers Event_Systems
begin

text \<open>
  The life of the process: the tasks that \<open>main\<close> spawns and what ends them, the servers, the signals and
  the five seconds before the exit. A task of \<open>tokio\<close> that panics is gone while the process lives on.
  Seen by its shared state it is a run of \<open>sys_step\<close>, so all invariants of the process hold; and if the
  polling task is gone, the address of the router never changes again.
\<close>

section \<open>Tasks and phases\<close>

datatype task = RenewalTask | PollTask | PmTask | ServiceTask | PodTask | GatewayTask | DnsTask | ServerTask

definition spawned_controllers :: "task list" where
  "spawned_controllers = [PmTask, ServiceTask, PodTask, GatewayTask, DnsTask]"

definition spawned :: "started_process \<Rightarrow> task list" where
  "spawned sp =
     (case sp_renewal_url sp of Some url \<Rightarrow> [RenewalTask] | None \<Rightarrow> []) @ [PollTask] @ spawned_controllers @ [ServerTask]"

text \<open>Where \<open>main\<close> is: it waits for a signal, sleeps for so many more seconds, or has returned.\<close>

datatype phase = Waiting | Draining nat | Exited

record life =
  lf_world :: world
  lf_tasks :: "task set"
  lf_listening :: bool
  lf_phase :: phase

definition main_start ::
  "env \<Rightarrow> config \<Rightarrow> string option \<Rightarrow> (string \<Rightarrow> string + string) \<Rightarrow> (string, started_process \<times> life) outcome"
where
  "main_start env cfg datagram detect =
     (case run_state (startup env cfg datagram detect) (world_new ''127.0.0.1'') of
        (Ok sp, w) \<Rightarrow> Ok (sp, \<lparr>lf_world = w, lf_tasks = set (spawned sp), lf_listening = False, lf_phase = Waiting\<rparr>)
      | (Err e, w) \<Rightarrow> Err e
      | (Panicked, w) \<Rightarrow> Panicked)"

section \<open>The steps\<close>

text \<open>The task in which an event is handled; and the handler, with whether it panics.\<close>

fun task_for :: "event \<Rightarrow> task option" where
  "task_for Poll = Some PollTask"
| "task_for (ApplyPm ns pm) = Some PmTask"
| "task_for (CleanupPm pm) = Some PmTask"
| "task_for (VisitService svc) = Some ServiceTask"
| "task_for (VisitPod p) = Some PodTask"
| "task_for (VisitGateway gs) = Some GatewayTask"
| "task_for (VisitDns ep) = Some DnsTask"
| "task_for (DnsController b) = Some DnsTask"
| "task_for RenewalRound = Some RenewalTask"
| "task_for (Notified body) = None"
| "task_for Shutdown = None"

definition panicking :: "(world, ('e, 'a) outcome) state \<Rightarrow> (world, bool) state" where
  "panicking m = do { r \<leftarrow> m; ret (r = Panicked) }"

text \<open>The polling task panics before its first poll if the interval is zero.\<close>

fun handle :: "env \<Rightarrow> started_process \<Rightarrow> event \<Rightarrow> (world, bool) state" where
  "handle env sp Poll = (if polls sp then panicking (poll_tick env (sp_upnp sp)) else ret True)"
| "handle env sp (ApplyPm ns pm) = panicking (reconcile_apply env (sp_upnp sp) ns pm)"
| "handle env sp (CleanupPm pm) = panicking (reconcile_cleanup env (sp_upnp sp) pm)"
| "handle env sp (VisitService svc) = panicking (reconcile_service env svc)"
| "handle env sp (VisitPod p) = panicking (reconcile_pod env p)"
| "handle env sp (VisitGateway gs) = panicking (gateway_reconcile env (gateway_context_of sp) gs)"
| "handle env sp (VisitDns ep) = panicking (dns_reconcile env ep)"
| "handle env sp (DnsController b) = do { modify (\<lambda>w. w\<lparr>w_dns_active := b\<rparr>); ret False }"
| "handle env sp RenewalRound =
     (case sp_renewal_url sp of Some url \<Rightarrow> do { renewal_tick env url 1800; ret False } | None \<Rightarrow> ret False)"
| "handle env sp (Notified body) = panicking (handle_notify env body)"
| "handle env sp Shutdown = do { shutdown; ret False }"

text \<open>
  The signals that end the wait of \<open>main\<close>; what others do is up to the operating system.
\<close>

datatype signal = SIGINT | SIGTERM | OtherSignal

fun shutdown_signal :: "signal \<Rightarrow> bool" where
  "shutdown_signal SIGINT = True"
| "shutdown_signal SIGTERM = True"
| "shutdown_signal OtherSignal = False"

text \<open>
  \<open>survives\<close>: whether the runtime of \<open>kube\<close>, which is not in the repository, goes on after a panic of a
  reconciler.
\<close>

datatype life_event =
    Handle event
  | StartServers
  | Request server http_in
  | Signal signal
  | Second

definition outlives :: "bool \<Rightarrow> task \<Rightarrow> bool" where
  "outlives survives t \<longleftrightarrow> survives \<and> t \<in> set spawned_controllers"

definition draining_seconds :: nat where
  "draining_seconds = 5"

fun life_step ::
  "env \<Rightarrow> web \<Rightarrow> tcp_bind \<Rightarrow> bool \<Rightarrow> started_process \<Rightarrow> life_event \<Rightarrow> life \<Rightarrow> life option"
where
  "life_step env web bnd survives sp (Handle ev) l =
     (case task_for ev of
        None \<Rightarrow> None
      | Some t \<Rightarrow>
          if lf_phase l \<noteq> Exited \<and> t \<in> lf_tasks l
          then (case run_state (handle env sp ev) (lf_world l) of
                  (panicked, w) \<Rightarrow>
                    Some (l\<lparr>lf_world := w,
                      lf_tasks := (if panicked \<and> \<not> outlives survives t then lf_tasks l - {t} else lf_tasks l)\<rparr>))
          else None)"
| "life_step env web bnd survives sp StartServers l =
     (if lf_phase l \<noteq> Exited \<and> ServerTask \<in> lf_tasks l \<and> \<not> lf_listening l
      then Some (case start_servers bnd (sp_config sp) of
                   Ok listeners \<Rightarrow> l\<lparr>lf_listening := True\<rparr>
                 | _ \<Rightarrow> l\<lparr>lf_tasks := lf_tasks l - {ServerTask}\<rparr>)
      else None)"
| "life_step env web bnd survives sp (Request srv rq) l =
     (if lf_phase l \<noteq> Exited \<and> lf_listening l
      then Some (l\<lparr>lf_world := after (serve env web srv rq) (lf_world l)\<rparr>)
      else None)"
| "life_step env web bnd survives sp (Signal s) l =
     (if lf_phase l = Waiting \<and> shutdown_signal s
      then Some (l\<lparr>lf_world := after shutdown (lf_world l), lf_phase := Draining draining_seconds\<rparr>)
      else None)"
| "life_step env web bnd survives sp Second l =
     (case lf_phase l of
        Draining n \<Rightarrow> Some (l\<lparr>lf_phase := (if n \<le> 1 then Exited else Draining (n - 1))\<rparr>)
      | Waiting \<Rightarrow> Some l
      | Exited \<Rightarrow> None)"

abbreviation life_run ::
  "env \<Rightarrow> web \<Rightarrow> tcp_bind \<Rightarrow> bool \<Rightarrow> started_process \<Rightarrow> life_event list \<Rightarrow> life \<Rightarrow> life option"
where
  "life_run env web bnd survives sp \<equiv> run_events (life_step env web bnd survives sp)"

section \<open>A life is a run of the process\<close>

text \<open>What a step does to the shared state, as events of \<open>sys_step\<close>.\<close>

fun life_labels :: "started_process \<Rightarrow> web \<Rightarrow> life_event \<Rightarrow> event list" where
  "life_labels sp web (Handle ev) =
     (if ev = Poll \<and> \<not> polls sp \<or> ev = RenewalRound \<and> sp_renewal_url sp = None then [] else [ev])"
| "life_labels sp web (Request srv rq) =
     (case web_route web (app_of srv) rq of
        Inr HandleNotify \<Rightarrow> (case web_body web (hi_body rq) of Inr body \<Rightarrow> [Notified body] | Inl status \<Rightarrow> [])
      | _ \<Rightarrow> [])"
| "life_labels sp web (Signal s) = [Shutdown]"
| "life_labels sp web StartServers = []"
| "life_labels sp web Second = []"

lemma after_simps [simp]:
  "after (panicking m) w = after m w" "after (ret a) w = w" "after (modify f) w = f w"
  "after (do { any; ret b }) w = after any w"
  by (simp_all add: panicking_def after_def split: prod.splits)

lemma handle_steps:
  assumes "task_for ev \<noteq> None"
  shows "spec_run (sys_step env sp) w (life_labels sp web (Handle ev)) (after (handle env sp ev) w)"
  using assms
  by (cases ev) (auto intro: sys_step.intros split: option.splits)

lemma serve_steps:
  "spec_run (sys_step env sp) w (life_labels sp web (Request srv rq)) (after (serve env web srv rq) w)"
proof -
  have notify: "after (do { r \<leftarrow> handle_notify env body; ret (f r) }) w = after (handle_notify env body) w" for body f
    by (simp add: after_def split: prod.splits)
  have metrics: "after (do { r \<leftarrow> handle_metrics e; ret (f r) }) w = w" for e f
    by (simp add: after_def handle_metrics_def)
  show ?thesis
    by (auto simp: serve_def notify metrics intro: sys_step.intros split: sum.splits handler.splits)
qed

interpretation life: refinement_map "life_step env web bnd survives sp" "\<lambda>_. True" lf_world
  "\<lambda>ev l. life_labels sp web ev" "sys_step env sp" for env web bnd survives sp
proof unfold_locales
  fix l ev l'
  assume step: "life_step env web bnd survives sp ev l = Some l'"
  show "spec_run (sys_step env sp) (lf_world l) (life_labels sp web ev) (lf_world l')"
  proof (cases ev)
    case (Handle e)
    with step have "task_for e \<noteq> None" "lf_world l' = after (handle env sp e) (lf_world l)"
      by (auto simp: after_def split: option.splits if_splits prod.splits)
    then show ?thesis unfolding Handle using handle_steps [of e env sp "lf_world l" web] by presburger
  next
    case (Request srv rq)
    with step serve_steps [of env sp "lf_world l" web srv rq] show ?thesis by (auto split: if_splits simp del: life_labels.simps)
  qed (use step in \<open>auto intro: sys_step.intros split: if_splits outcome.splits phase.splits\<close>)
qed simp

lemma spec_run_sys_run: "spec_run (sys_step env sp) w evs v \<Longrightarrow> sys_run env sp w evs v"
  by (induction rule: spec_run.induct) (auto intro: sys_run.intros)

lemma life_is_run:
  assumes "life_run env web bnd survives sp evs l = Some l'"
  shows "\<exists>labels. sys_run env sp (lf_world l) labels (lf_world l')"
  using life.refines [OF _ assms] spec_run_sys_run by blast

text \<open>What the process has come to, from its start.\<close>

definition life_reaches :: "env \<Rightarrow> web \<Rightarrow> tcp_bind \<Rightarrow> bool \<Rightarrow> started_process \<Rightarrow> life \<Rightarrow> bool" where
  "life_reaches env web bnd survives sp l \<longleftrightarrow>
     (\<exists>cfg datagram detect l0 evs. main_start env cfg datagram detect = Ok (sp, l0) \<and>
        life_run env web bnd survives sp evs l0 = Some l)"

lemma life_reaches_process:
  assumes "life_reaches env web bnd survives sp l"
  shows "process_reaches env sp (lf_world l)"
proof -
  from assms obtain cfg datagram detect l0 evs where
    start: "main_start env cfg datagram detect = Ok (sp, l0)" and run: "life_run env web bnd survives sp evs l0 = Some l"
    by (auto simp: life_reaches_def)
  from start have "run_state (startup env cfg datagram detect) (world_new ''127.0.0.1'') = (Ok sp, lf_world l0)"
    by (auto simp: main_start_def split: prod.splits outcome.splits)
  with life_is_run [OF run] show ?thesis unfolding process_reaches_def by blast
qed

section \<open>After the signal\<close>

lemma exited_is_final: "lf_phase l = Exited \<Longrightarrow> life_step env web bnd survives sp ev l = None"
  by (cases ev) (auto split: option.splits)

lemma draining_step:
  assumes "life_step env web bnd survives sp ev l = Some l'" and "lf_phase l = Draining n"
  shows "lf_phase l' = (if ev = Second then if n \<le> 1 then Exited else Draining (n - 1) else Draining n)"
  using assms by (cases ev) (auto split: option.splits prod.splits if_splits outcome.splits)

definition seconds :: "life_event list \<Rightarrow> nat" where
  "seconds evs = length (filter (\<lambda>ev. ev = Second) evs)"

lemma draining_run:
  assumes "life_run env web bnd survives sp evs l = Some l'" and "lf_phase l = Draining n" and "0 < n"
  shows "seconds evs \<le> n \<and> lf_phase l' = (if seconds evs = n then Exited else Draining (n - seconds evs))"
  using assms
proof (induction evs arbitrary: l n)
  case (Cons ev evs)
  from Cons.prems(1) obtain u where u: "life_step env web bnd survives sp ev l = Some u"
    "life_run env web bnd survives sp evs u = Some l'" by (rule run_events_ConsE)
  show ?case
  proof (cases "ev = Second \<and> n \<le> 1")
    case True
    with draining_step [OF u(1) Cons.prems(2)] have "lf_phase u = Exited" by simp
    with u(2) exited_is_final [of u] have "evs = [] \<and> l' = u" by (cases evs) auto
    with True Cons.prems(3) \<open>lf_phase u = Exited\<close> show ?thesis by (auto simp: seconds_def)
  next
    case False
    have phase: "lf_phase u = Draining (if ev = Second then n - 1 else n)"
      using draining_step [OF u(1) Cons.prems(2)] False by auto
    have "0 < (if ev = Second then n - 1 else n)" using False Cons.prems(3) by auto
    from Cons.IH [OF u(2) phase this] Cons.prems(3) show ?thesis by (auto simp: seconds_def)
  qed
qed (simp add: seconds_def)

lemma draining_completes:
  assumes "lf_phase l = Draining n" and "0 < n"
  shows "\<exists>l'. life_run env web bnd survives sp (replicate n Second) l = Some l' \<and> lf_phase l' = Exited"
  using assms
proof (induction n arbitrary: l)
  case (Suc n)
  show ?case
  proof (cases "n = 0")
    case False
    with Suc.IH [of "l\<lparr>lf_phase := Draining n\<rparr>"] Suc.prems(1) show ?thesis by simp
  qed (use Suc.prems(1) in simp)
qed simp

text \<open>
  C31. A signal ends the process. In the five seconds that are left handlers still begin, but none of these
  writes a PortMapping; after the fifth second the process has returned, and nothing happens any more.
  The seconds always pass.
\<close>

theorem signal_ends_process:
  assumes run: "life_run env web bnd survives sp (Signal s # evs) l = Some l'"
  shows "seconds evs \<le> 5 \<and>
    lf_phase l' = (if seconds evs = 5 then Exited else Draining (5 - seconds evs)) \<and>
    published (lf_world l') = published (lf_world l) \<and>
    (lf_phase l' = Exited \<longrightarrow> life_step env web bnd survives sp ev l' = None) \<and>
    (\<exists>l''. life_run env web bnd survives sp (replicate (5 - seconds evs) Second) l' = Some l'' \<and> lf_phase l'' = Exited)"
proof -
  from run obtain u where u: "life_step env web bnd survives sp (Signal s) l = Some u"
    "life_run env web bnd survives sp evs u = Some l'" by (rule run_events_ConsE)
  then have shut: "w_shutting_down (lf_world u)" "published (lf_world u) = published (lf_world l)" "lf_phase u = Draining 5"
    by (auto simp: shutdown_def published_def draining_seconds_def split: if_splits)
  from life_is_run [OF u(2)] obtain labels where "sys_run env sp (lf_world u) labels (lf_world l')" ..
  from sys_stopped.keeps_run [OF this] shut have "published (lf_world l') = published (lf_world l)"
    by (simp add: stopped_writing_def)
  moreover have "seconds evs \<le> 5" and phase: "lf_phase l' = (if seconds evs = 5 then Exited else Draining (5 - seconds evs))"
    using draining_run [OF u(2) shut(3)] by simp_all
  moreover have "\<exists>l''. life_run env web bnd survives sp (replicate (5 - seconds evs) Second) l' = Some l'' \<and> lf_phase l'' = Exited"
    using phase \<open>seconds evs \<le> 5\<close> by (cases "seconds evs = 5") (auto intro!: draining_completes)
  ultimately show ?thesis using exited_is_final by blast
qed

section \<open>The address\<close>

text \<open>The stored address of the router, with the number of its changes.\<close>

definition address_of :: "world \<Rightarrow> string option \<times> nat" where
  "address_of w = (current_ip w, mt_wan_ip_changes (w_metrics w))"

definition same_address :: "world \<Rightarrow> world \<Rightarrow> bool" where
  "same_address w v \<longleftrightarrow> address_of v = address_of w"

interpretation same_address: world_frame same_address
  by unfold_locales (auto simp: same_address_def address_of_def current_ip_def)

interpretation address_watchers: watcher_frame same_address
  by unfold_locales (auto simp: same_address_def address_of_def current_ip_def state_io_rel_def on_proxies_def)

text \<open>Only polls and notifications change it.\<close>

fun brings_address :: "event \<Rightarrow> bool" where
  "brings_address Poll = True"
| "brings_address (Notified body) = True"
| "brings_address _ = False"

lemma step_keeps_address:
  assumes "sys_step env sp w ev v" and "\<not> brings_address ev"
  shows "address_of v = address_of w"
proof -
  have renewal: "state_io_rel same_address (renewal_tick env url ttl)" for url ttl
    by (rule same_address.keeps_renewal) (simp add: same_address_def address_of_def current_ip_def)
  from assms have "same_address w v"
    by (cases rule: sys_step.cases)
      (use same_address.keeps_reconcile_apply same_address.keeps_reconcile_cleanup same_address.keeps_gateway
        same_address.keeps_dns renewal address_watchers.keeps_watchers in
        \<open>auto simp: state_io_rel_def after_def shutdown_def same_address_def address_of_def current_ip_def\<close>)
  then show ?thesis by (simp add: same_address_def)
qed

lemma labels_keep_address:
  assumes "spec_run (sys_step env sp) w evs v" and "list_all (\<lambda>ev. \<not> brings_address ev) evs"
  shows "address_of v = address_of w"
  using assms by (induction rule: spec_run.induct) (auto dest: step_keeps_address)

text \<open>What comes in from a router that follows the standard, and from a probe or scraper of the metrics.\<close>

fun standard_traffic :: "life_event \<Rightarrow> bool" where
  "standard_traffic (Request NotifyServer rq) \<longleftrightarrow> hi_method rq = ''NOTIFY''"
| "standard_traffic (Request MetricsServer rq) \<longleftrightarrow> hi_method rq = ''GET''"
| "standard_traffic _ \<longleftrightarrow> True"

lemma standard_traffic_not_handled:
  assumes "web_ok web" and "standard_traffic (Request srv rq)"
  shows "web_route web (app_of srv) rq \<noteq> Inr HandleNotify"
proof -
  have none: "(hi_path rq, hi_method rq, HandleNotify) \<notin> set (app_of srv)"
    using assms(2) by (cases srv) (auto simp: notify_app_def metrics_app_def)
  show ?thesis
  proof (cases "\<exists>h. (hi_path rq, hi_method rq, h) \<in> set (app_of srv)")
    case True
    then obtain h where h: "(hi_path rq, hi_method rq, h) \<in> set (app_of srv)" ..
    then have "h \<noteq> HandleNotify" using none by auto
    with routed(1) [OF assms(1) h] show ?thesis by simp
  next
    case False
    then have out: "\<And>h. (hi_path rq, hi_method rq, h) \<notin> set (app_of srv)" by blast
    have "hi_method rq \<noteq> ''HEAD''" using assms(2) by (cases srv) auto
    with routed(2,3) [OF assms(1), of rq srv] out show ?thesis by fastforce
  qed
qed

lemma without_poller_step:
  assumes "web_ok web" and "standard_traffic ev" and "PollTask \<notin> lf_tasks l"
    and step: "life_step env web bnd survives sp ev l = Some l'"
  shows "PollTask \<notin> lf_tasks l' \<and> address_of (lf_world l') = address_of (lf_world l)"
proof
  show "PollTask \<notin> lf_tasks l'"
    using assms(3) step by (cases ev) (auto split: option.splits prod.splits if_splits outcome.splits phase.splits)
  have "list_all (\<lambda>ev. \<not> brings_address ev) (life_labels sp web ev)"
  proof (cases ev)
    case (Handle e)
    with step assms(3) show ?thesis by (cases e) (auto split: if_splits)
  next
    case (Request srv rq)
    with standard_traffic_not_handled [OF assms(1), of srv rq] assms(2) show ?thesis
      by (auto split: sum.splits handler.splits)
  qed simp_all
  with labels_keep_address [OF life.simulates [OF _ step]] show "address_of (lf_world l') = address_of (lf_world l)"
    by blast
qed

lemma without_poller_run:
  assumes "web_ok web" and "list_all standard_traffic evs" and "PollTask \<notin> lf_tasks l"
    and "life_run env web bnd survives sp evs l = Some l'"
  shows "address_of (lf_world l') = address_of (lf_world l)"
  using assms(2-)
proof (induction evs arbitrary: l)
  case (Cons ev evs)
  from Cons.prems(3) obtain u where u: "life_step env web bnd survives sp ev l = Some u"
    "life_run env web bnd survives sp evs u = Some l'" by (rule run_events_ConsE)
  from without_poller_step [OF assms(1) _ Cons.prems(2) u(1)] Cons.prems(1)
  have "PollTask \<notin> lf_tasks u" "address_of (lf_world u) = address_of (lf_world l)" by simp_all
  with Cons.IH [OF _ this(1) u(2)] Cons.prems(1) show ?case by simp
qed simp

text \<open>
  C15. One malformed answer ends the tracking of the address. If a poll gets an answer on which the
  extraction panics, or the polling interval is zero, the polling task is gone; and since events of the
  router never reach their handler, the stored address stays what it is for the rest of the process,
  whatever the router says from then on; provided it announces with the method \<open>NOTIFY\<close>, as GENA
  has it, and the HTTP library routes as it documents.
\<close>

theorem address_frozen_after_panic:
  assumes web: "web_ok web" and traffic: "\<forall>ev \<in> set evs. standard_traffic ev"
    and panic: "sp_poll_interval sp = 0 \<or>
      and_then (soap_result (http_answer env (w_calls (lf_world l)) (ip_request (sp_upnp sp)))) parse_external_ip = Panicked"
    and run: "life_run env web bnd survives sp (Handle Poll # evs) l = Some l'"
  shows "current_ip (lf_world l') = current_ip (lf_world l)"
proof -
  from run obtain u where u: "life_step env web bnd survives sp (Handle Poll) l = Some u"
    "life_run env web bnd survives sp evs u = Some l'" by (rule run_events_ConsE)
  have "\<exists>h. run_state (handle env sp Poll) (lf_world l) = (True, (lf_world l)\<lparr>w_calls := h\<rparr>)"
  proof (cases "polls sp")
    case True
    with panic have "run_state (get_external_ip env (sp_upnp sp)) (lf_world l) =
        (Panicked, log_call (Http (ip_request (sp_upnp sp))) (lf_world l))"
      unfolding wp_eq_run [symmetric] by (simp add: wp_simps polls_def)
    with True show ?thesis by (auto simp: panicking_def poll_tick_def log_call_def)
  next
    case False
    then show ?thesis by (auto intro: exI [of _ "w_calls (lf_world l)"])
  qed
  with u(1) have "PollTask \<notin> lf_tasks u" "current_ip (lf_world u) = current_ip (lf_world l)"
    by (auto simp: outlives_def spawned_controllers_def current_ip_def split: if_splits)
  with without_poller_run [OF web _ this(1) u(2)] traffic show ?thesis by (simp add: list_all_iff address_of_def)
qed

section \<open>Witnesses\<close>

definition sample_started :: started_process where
  "sample_started =
     \<lparr>sp_root_url = ''http://r/d'', sp_upnp = upnp_client_new ''http://r/ctl'', sp_renewal_url = None,
      sp_poll_interval = 600, sp_config = from_env Map.empty\<rparr>"

definition sample_life :: life where
  "sample_life =
     \<lparr>lf_world = world_new ''192.168.0.2'', lf_tasks = set (spawned sample_started), lf_listening = True, lf_phase = Waiting\<rparr>"

lemma sample_life_simps [simp]:
  "lf_world sample_life = world_new ''192.168.0.2''" "lf_listening sample_life" "lf_phase sample_life = Waiting"
  "PollTask \<in> lf_tasks sample_life" "ServiceTask \<in> lf_tasks sample_life" "polls sample_started"
  by (simp_all add: sample_life_def sample_started_def spawned_def spawned_controllers_def polls_def)

text \<open>A Service is visited a second after the signal.\<close>

theorem signal_ends_process_witness:
  "\<exists>l'. life_run sample_env sample_web (\<lambda>taken addr. Inr 1) True sample_started
      (Signal SIGTERM # Second # Handle (VisitService (sample_service (Some ''true''))) # replicate 4 Second) sample_life = Some l' \<and>
     lf_phase l' = Exited \<and> published (lf_world l') = []"
proof -
  let ?run = "life_run sample_env sample_web (\<lambda>taken addr. Inr 1) True sample_started"
  let ?evs = "Second # Handle (VisitService (sample_service (Some ''true''))) # replicate 4 Second"
  have "?run (Signal SIGTERM # ?evs) sample_life \<noteq> None"
    by (simp add: draining_seconds_def outlives_def spawned_controllers_def eval_nat_numeral split: prod.splits)
  then obtain l' where run: "?run (Signal SIGTERM # ?evs) sample_life = Some l'" by blast
  have "seconds ?evs = 5" by (simp add: seconds_def)
  moreover have "published (world_new ''192.168.0.2'') = []" by (simp add: published_def world_new_def)
  ultimately show ?thesis using signal_ends_process [OF run] run by auto
qed

text \<open>A router whose answer has the closing tag first, and then announces an address.\<close>

definition torn_env :: env where
  "torn_env = sample_env\<lparr>
     http_answer := (\<lambda>h rq. Inr \<lparr>rs_success = True, rs_status = ''200 OK'', rs_header = (\<lambda>_. None),
        rs_text = Inr ''</NewExternalIPAddress><NewExternalIPAddress>''\<rparr>)\<rparr>"

definition sample_event :: life_event where
  "sample_event = Request NotifyServer
     \<lparr>hi_method = ''NOTIFY'', hi_path = ''/notify'', hi_body = ''<NewExternalIPAddress>5.6.7.8</NewExternalIPAddress>''\<rparr>"

theorem address_frozen_after_panic_witness:
  "\<exists>l'. life_run torn_env sample_web (\<lambda>taken addr. Inr 1) True sample_started [Handle Poll, sample_event, Second] sample_life = Some l' \<and>
     current_ip (lf_world l') = None"
proof -
  let ?run = "life_run torn_env sample_web (\<lambda>taken addr. Inr 1) True sample_started"
  have torn: "and_then (soap_result (http_answer torn_env h rq)) parse_external_ip = Panicked" for h rq
    by (simp add: torn_env_def soap_result_def parse_external_ip_def extract_xml_value_def open_tag_def close_tag_def
        str_slice_def)
  have "?run [Handle Poll, sample_event, Second] sample_life \<noteq> None"
    by (simp add: sample_event_def outlives_def spawned_controllers_def split: prod.splits)
  then obtain l' where run: "?run [Handle Poll, sample_event, Second] sample_life = Some l'" by blast
  have "current_ip (world_new ''192.168.0.2'') = None" by (simp add: current_ip_def world_new_def eventing_state_new_def)
  with address_frozen_after_panic [OF sample_web_ok _ disjI2 [OF torn] run] run show ?thesis
    by (simp add: sample_event_def)
qed

end
