(* ===== verification/Visit_Calls.thy ===== *)
theory Visit_Calls
  imports Process_Life Object_Table
begin

text \<open>
  Visits to Services and Pods that overlap. Between two points where \<open>reconcile_service\<close> or \<open>reconcile_pod\<close>
  waits (for the API server, or for the lock of the proxies) other tasks run; here each such section is a
  step, any number of visits are under way, though never two to one object, and their steps interleave with
  each other and with all other events of the process. Run without interruption they are the reconcilers.
\<close>

section \<open>Visits under way\<close>

datatype visited = VisitedService service | VisitedPod pod

fun visited_meta :: "visited \<Rightarrow> object_meta" where
  "visited_meta (VisitedService svc) = svc_metadata svc"
| "visited_meta (VisitedPod p) = pod_metadata p"

fun reconcile_visited :: "env \<Rightarrow> visited \<Rightarrow> (world, (reconcile_error, action) outcome) state" where
  "reconcile_visited env (VisitedService svc) = reconcile_service env svc"
| "reconcile_visited env (VisitedPod p) = reconcile_pod env p"

text \<open>What a visit decides once it has the list: to return, or what to forward for which owner.\<close>

fun forward_plan :: "visited \<Rightarrow> string \<Rightarrow> action + forward_owner \<times> desired list" where
  "forward_plan (VisitedService svc) annotation_value =
     (let cluster_ip = cluster_ip_of svc
      in if cluster_ip = '''' \<or> cluster_ip = ''None'' then Inl AwaitChange
         else
           let desired = parse_service_annotation annotation_value (service_ports_of svc)
           in if desired = [] then Inl AwaitChange else Inr (service_owner svc, desired))"
| "forward_plan (VisitedPod p) annotation_value =
     (case Option.bind (pod_status_ip p) id of
        None \<Rightarrow> Inl (Requeue 5)
      | Some pod_ip \<Rightarrow>
          let desired = parse_pod_annotation annotation_value (container_ports_of p)
          in if desired = [] then Inl AwaitChange else Inr (pod_owner p pod_ip, desired))"

text \<open>Where a visit is, with its local variables.\<close>

datatype visit =
    Entering visited                                  \<comment> \<open>before the check of the shutdown flag\<close>
  | Owning visited                                    \<comment> \<open>lists what the object owns\<close>
  | Stopping string "port_mapping list" "port_mapping list"
  | Deleting string "port_mapping list"
  | Starting forward_owner string "port_mapping list" "desired list" "desired list"
  | Publishing forward_owner string "port_mapping list" "desired list" desired u16 "desired list"
  | Pruning forward_owner "string list" "port_mapping list"
  | Dropping forward_owner "string list" port_mapping "port_mapping list"
  | Returned "(reconcile_error, action) outcome"

fun visit_section :: "env \<Rightarrow> visit \<Rightarrow> (world, visit) state" where
  "visit_section env (Entering v) = do {
     shutting_down \<leftarrow> gets w_shutting_down;
     ret (if shutting_down then Returned (Ok AwaitChange) else Owning v)
   }"
| "visit_section env (Owning v) = do {
     let ns = namespace_or_default (visited_meta v);
     let uid = uid_or_empty (visited_meta v);
     r \<leftarrow> list_owned_port_mappings env ns uid;
     lan_ip \<leftarrow> gets (\<lambda>w. px_lan_ip (w_proxies w));
     ret (case r of
            Ok owned \<Rightarrow>
              (case annotation (visited_meta v) PORT_FORWARD_ANNOTATION of
                 None \<Rightarrow> Stopping ns owned owned
               | Some annotation_value \<Rightarrow>
                   (case forward_plan v annotation_value of
                      Inl a \<Rightarrow> Returned (Ok a)
                    | Inr (ow, desired) \<Rightarrow> Starting ow lan_ip owned desired desired))
          | Err e \<Rightarrow> Returned (Err e)
          | Panicked \<Rightarrow> Returned Panicked)
   }"
| "visit_section env (Stopping ns [] owned) = ret (Deleting ns owned)"
| "visit_section env (Stopping ns (pm # pms) owned) = do { stop_owned pm; ret (Stopping ns pms owned) }"
| "visit_section env (Deleting ns []) = ret (Returned (Ok AwaitChange))"
| "visit_section env (Deleting ns (pm # pms)) = do { delete_owned env ns pm; ret (Deleting ns pms) }"
| "visit_section env (Starting ow lan_ip owned desired []) =
     ret (Pruning ow (map (desired_name ow) desired) owned)"
| "visit_section env (Starting ow lan_ip owned desired (d # ds)) = do {
     r \<leftarrow> start_desired env ow d;
     ret (case r of
            Ok port \<Rightarrow> Publishing ow lan_ip owned desired d port ds
          | Err e \<Rightarrow> Starting ow lan_ip owned desired ds
          | Panicked \<Rightarrow> Returned Panicked)
   }"
| "visit_section env (Publishing ow lan_ip owned desired d port ds) = do {
     r \<leftarrow> publish_desired env ow lan_ip d port;
     ret (case r of
            Ok u \<Rightarrow> Starting ow lan_ip owned desired ds
          | Err e \<Rightarrow> Returned (Err e)
          | Panicked \<Rightarrow> Returned Panicked)
   }"
| "visit_section env (Pruning ow names []) = ret (Returned (Ok (Requeue 60)))"
| "visit_section env (Pruning ow names (pm # pms)) =
     (if pm_object_name pm \<in> set names then ret (Pruning ow names pms)
      else do { stop_owned pm; ret (Dropping ow names pm pms) })"
| "visit_section env (Dropping ow names pm pms) = do {
     delete_owned env (fo_ns ow) pm;
     ret (Pruning ow names pms)
   }"
| "visit_section env (Returned r) = ret (Returned r)"

lemma run_owning:
  "run_state (visit_section env (Owning v)) w =
    (case list_pm_answer env (w_calls w) (list_query (namespace_or_default (visited_meta v))) of
       Inl e \<Rightarrow> Returned (Err (KubeError e))
     | Inr items \<Rightarrow>
         (case annotation (visited_meta v) PORT_FORWARD_ANNOTATION of
            None \<Rightarrow> Stopping (namespace_or_default (visited_meta v)) (owned_of (visited_meta v) items)
              (owned_of (visited_meta v) items)
          | Some annotation_value \<Rightarrow>
              (case forward_plan v annotation_value of
                 Inl a \<Rightarrow> Returned (Ok a)
               | Inr (ow, desired) \<Rightarrow>
                   Starting ow (px_lan_ip (w_proxies w)) (owned_of (visited_meta v) items) desired desired)),
     listed (visited_meta v) w)"
proof -
  have lan: "px_lan_ip (w_proxies (log_call c w)) = px_lan_ip (w_proxies w)" for c by simp
  show ?thesis by (simp add: Let_def run_list_owned listed_def lan split: sum.split option.split flip: owned_of_def)
qed

declare visit_section.simps(2) [simp del]

section \<open>A visit by itself\<close>

primrec finish_visit :: "env \<Rightarrow> nat \<Rightarrow> visit \<times> world \<Rightarrow> visit \<times> world" where
  "finish_visit env 0 s = s"
| "finish_visit env (Suc n) s = finish_visit env n (run_state (visit_section env (fst s)) (snd s))"

text \<open>What a visit comes to: what it returns, and the state.\<close>

definition visit_ends :: "env \<Rightarrow> visit \<times> world \<Rightarrow> (reconcile_error, action) outcome \<times> world \<Rightarrow> bool" where
  "visit_ends env s q \<longleftrightarrow> (\<exists>n. finish_visit env n s = (Returned (fst q), snd q))"

lemma visit_ends_step:
  "visit_ends env (run_state (visit_section env c) w) q \<Longrightarrow> visit_ends env (c, w) q"
  by (auto simp: visit_ends_def intro: exI [of _ "Suc _"])

lemma visit_ends_returned [simp]: "visit_ends env (Returned r, w) (r, w)"
  by (auto simp: visit_ends_def intro: exI [of _ 0])

lemma deleting_ends:
  "visit_ends env (Deleting ns pms, w)
     (run_state (do { cleanup_owned_port_mappings env ns pms; ret (Ok AwaitChange) }) w)"
  unfolding cleanup_owned_port_mappings_def
proof (induction pms arbitrary: w)
  case (Cons pm pms)
  show ?case by (rule visit_ends_step) (use Cons.IH in simp)
qed (rule visit_ends_step, simp)

lemma stopping_ends:
  "visit_ends env (Stopping ns pms owned, w)
     (run_state (do { for_each stop_owned pms; cleanup_owned_port_mappings env ns owned; ret (Ok AwaitChange) }) w)"
proof (induction pms arbitrary: w)
  case Nil
  show ?case by (rule visit_ends_step) (use deleting_ends in simp)
next
  case (Cons pm pms)
  show ?case by (rule visit_ends_step) (use Cons.IH in simp)
qed

lemma pruning_ends:
  "visit_ends env (Pruning ow names pms, w)
     (run_state (do { for_each (delete_stale env (fo_ns ow) names) pms; ret (Ok (Requeue 60)) }) w)"
proof (induction pms arbitrary: w)
  case (Cons pm pms)
  show ?case
  proof (cases "pm_object_name pm \<in> set names")
    case True
    then have "delete_stale env (fo_ns ow) names pm = ret ()" by (simp add: delete_stale_def)
    then show ?thesis by (intro visit_ends_step) (use Cons.IH True in simp)
  next
    case False
    then have "delete_stale env (fo_ns ow) names pm = do { stop_owned pm; delete_owned env (fo_ns ow) pm }"
      by (simp add: delete_stale_def)
    with False show ?thesis
      by (intro visit_ends_step, simp, intro visit_ends_step) (use Cons.IH in simp)
  qed
qed (rule visit_ends_step, simp)

lemma starting_ends:
  "visit_ends env (Starting ow lan_ip owned desired ds, w)
     (run_state (try_bind (desired_loop (start_desired env ow) (publish_desired env ow lan_ip) ds) (\<lambda>_. do {
        for_each (delete_stale env (fo_ns ow) (map (desired_name ow) desired)) owned;
        ret (Ok (Requeue 60)) })) w)"
proof (induction ds arbitrary: w)
  case Nil
  show ?case by (rule visit_ends_step) (use pruning_ends in \<open>simp add: run_try_bind\<close>)
next
  case (Cons d ds)
  obtain r v where start: "run_state (start_desired env ow d) w = (r, v)" by (cases "run_state (start_desired env ow d) w")
  show ?case
  proof (cases r)
    case (Ok port)
    obtain q u where publish: "run_state (publish_desired env ow lan_ip d port) v = (q, u)"
      by (cases "run_state (publish_desired env ow lan_ip d port) v")
    show ?thesis
      by (rule visit_ends_step, simp add: start Ok, rule visit_ends_step)
        (use Cons.IH [of u] in \<open>cases q; simp add: start Ok publish run_try_bind\<close>)
  next
    case (Err e)
    show ?thesis by (rule visit_ends_step) (use Cons.IH [of v] in \<open>simp add: start Err run_try_bind\<close>)
  next
    case Panicked
    show ?thesis by (rule visit_ends_step) (simp add: start Panicked run_try_bind)
  qed
qed

lemma reconcile_visited_plan:
  "reconcile_visited env v = reconcile_annotated env (visited_meta v) (\<lambda>annotation_value owned.
     case forward_plan v annotation_value of
       Inl a \<Rightarrow> ret (Ok a)
     | Inr (ow, desired) \<Rightarrow> forward_ports env ow owned desired)"
  by (cases v) (auto simp: reconcile_service_def reconcile_pod_def Let_def fun_eq_iff
      intro!: arg_cong [where f = "reconcile_annotated env _"] split: option.split)

text \<open>A visit that is not interrupted is the reconciler: it returns the same, in the same state.\<close>

lemma uninterrupted_visit_is_reconcile:
  "visit_ends env (Entering v, w) (run_state (reconcile_visited env v) w)"
proof (cases "w_shutting_down w")
  case True
  show ?thesis by (rule visit_ends_step) (simp add: True reconcile_visited_plan reconcile_annotated_def)
next
  case False
  let ?ns = "namespace_or_default (visited_meta v)" and ?u = "listed (visited_meta v) w"
  have run: "run_state (reconcile_visited env v) w =
      (case list_pm_answer env (w_calls w) (list_query ?ns) of
         Inl e \<Rightarrow> (Err (KubeError e), ?u)
       | Inr items \<Rightarrow> run_state (case annotation (visited_meta v) PORT_FORWARD_ANNOTATION of
            None \<Rightarrow> do { for_each stop_owned (owned_of (visited_meta v) items);
              cleanup_owned_port_mappings env ?ns (owned_of (visited_meta v) items); ret (Ok AwaitChange) }
          | Some annotation_value \<Rightarrow> (case forward_plan v annotation_value of
              Inl a \<Rightarrow> ret (Ok a)
            | Inr (ow, desired) \<Rightarrow> forward_ports env ow (owned_of (visited_meta v) items) desired)) ?u)"
    by (simp add: False reconcile_visited_plan reconcile_annotated_def Let_def run_try_bind run_list_owned listed_def
        split: sum.split flip: owned_of_def)
  show ?thesis
    unfolding run
    by (rule visit_ends_step, simp add: False, rule visit_ends_step)
      (use stopping_ends starting_ends in \<open>auto simp: run_owning listed_def forward_ports_def Let_def
        split: sum.split option.split\<close>)
qed

section \<open>Visits side by side\<close>

text \<open>
  The runtime visits an object again only when the visit under way has returned; visits to different objects
  overlap.
\<close>

fun same_object :: "visited \<Rightarrow> visited \<Rightarrow> bool" where
  "same_object (VisitedService s) (VisitedService t) \<longleftrightarrow>
     namespace_or_default (svc_metadata s) = namespace_or_default (svc_metadata t) \<and>
     meta_name (svc_metadata s) = meta_name (svc_metadata t)"
| "same_object (VisitedPod p) (VisitedPod q) \<longleftrightarrow>
     namespace_or_default (pod_metadata p) = namespace_or_default (pod_metadata q) \<and>
     meta_name (pod_metadata p) = meta_name (pod_metadata q)"
| "same_object _ _ \<longleftrightarrow> False"

fun has_returned :: "visit \<Rightarrow> bool" where
  "has_returned (Returned r) = True"
| "has_returned _ = False"

record visit_pool =
  vp_world :: world
  vp_visits :: "(visited \<times> visit) list"

datatype visit_event =
    Enter visited
  | Proceed nat                 \<comment> \<open>the next section of a visit\<close>
  | Elsewhere event             \<comment> \<open>a handler of another task\<close>

inductive visit_step :: "env \<Rightarrow> started_process \<Rightarrow> visit_pool \<Rightarrow> visit_event \<Rightarrow> visit_pool \<Rightarrow> bool" for env sp where
  enters: "\<forall>(u, c) \<in> set (vp_visits p). same_object u v \<longrightarrow> has_returned c \<Longrightarrow>
    visit_step env sp p (Enter v) (p\<lparr>vp_visits := vp_visits p @ [(v, Entering v)]\<rparr>)"
| proceeds: "i < length (vp_visits p) \<Longrightarrow> vp_visits p ! i = (u, c) \<Longrightarrow>
    run_state (visit_section env c) (vp_world p) = (c', w') \<Longrightarrow>
    visit_step env sp p (Proceed i) \<lparr>vp_world = w', vp_visits = (vp_visits p)[i := (u, c')]\<rparr>"
| elsewhere: "sys_step env sp (vp_world p) ev w' \<Longrightarrow> \<not> visits_owner ev \<Longrightarrow>
    visit_step env sp p (Elsewhere ev) (p\<lparr>vp_world := w'\<rparr>)"

inductive_cases visit_stepE: "visit_step env sp p ev q"

section \<open>The shutdown\<close>

text \<open>How many PortMappings a visit that has passed the check of the flag can still write.\<close>

fun writes_left :: "visit \<Rightarrow> nat" where
  "writes_left (Owning v) =
     (case annotation (visited_meta v) PORT_FORWARD_ANNOTATION of
        None \<Rightarrow> 0
      | Some annotation_value \<Rightarrow>
          (case forward_plan v annotation_value of Inl a \<Rightarrow> 0 | Inr (ow, desired) \<Rightarrow> length desired))"
| "writes_left (Starting ow lan_ip owned desired ds) = length ds"
| "writes_left (Publishing ow lan_ip owned desired d port ds) = Suc (length ds)"
| "writes_left _ = 0"

definition pool_writes_left :: "visit_pool \<Rightarrow> nat" where
  "pool_writes_left p = (\<Sum>(u, c) \<leftarrow> vp_visits p. writes_left c)"

lemma start_desired_published:
  "run_state (start_desired env ow d) w = (r, w') \<Longrightarrow>
   published w' = published w \<and> w_shutting_down w' = w_shutting_down w"
  by (auto simp: start_desired_def run_on_proxies published_def)

lemma without_proxies_flag: "w_shutting_down (without_proxies names w) = w_shutting_down w"
  by (simp add: without_proxies_def)

lemma other_sections_write:
  assumes "run_state (visit_section env c) w = (c', w')" and "w_shutting_down w" and "\<And>v. c \<noteq> Owning v"
  shows "w_shutting_down w' \<and> length (published w') + writes_left c' \<le> length (published w) + writes_left c"
  using assms
  by (cases "(env, c)" rule: visit_section.cases)
    (auto simp: run_publish delete_call_def without_proxies_flag split: prod.splits outcome.splits if_splits
      dest: start_desired_published)

lemma section_writes:
  assumes "run_state (visit_section env c) w = (c', w')" and "w_shutting_down w"
  shows "w_shutting_down w' \<and> length (published w') + writes_left c' \<le> length (published w) + writes_left c"
proof (cases "\<exists>v. c = Owning v")
  case True
  then obtain v where "c = Owning v" ..
  with assms show ?thesis
    by (auto simp: run_owning listed_def list_query_def split: sum.splits option.splits)
qed (use other_sections_write [OF assms] in blast)

lemma sum_list_update_le:
  fixes f :: "'a \<Rightarrow> nat"
  assumes "i < length xs" and "m + f y \<le> n + f (xs ! i)"
  shows "m + sum_list (map f (xs[i := y])) \<le> n + sum_list (map f xs)"
proof -
  have "sum_list (map f xs) = sum_list (map f (take i xs)) + f (xs ! i) + sum_list (map f (drop (Suc i) xs))"
    using arg_cong [OF id_take_nth_drop [OF assms(1)], of "\<lambda>xs. sum_list (map f xs)"] by simp
  then show ?thesis using assms by (simp add: upd_conv_take_nth_drop)
qed

lemma step_writes:
  assumes "visit_step env sp p ev q" and "w_shutting_down (vp_world p)"
  shows "w_shutting_down (vp_world q) \<and>
    length (published (vp_world q)) + pool_writes_left q \<le> length (published (vp_world p)) + pool_writes_left p"
  using assms(1)
proof cases
  case (proceeds i u c c' w')
  note sect = section_writes [OF proceeds(5) assms(2)]
  then have "length (published w') + (case (u, c') of (u, c) \<Rightarrow> writes_left c) \<le>
      length (published (vp_world p)) + (case vp_visits p ! i of (u, c) \<Rightarrow> writes_left c)"
    by (simp add: proceeds)
  from sum_list_update_le [OF proceeds(3) this] sect show ?thesis by (simp add: pool_writes_left_def proceeds(2))
next
  case (elsewhere ev' w')
  then have "sys_run env sp (vp_world p) [ev'] w'" by (auto intro: sys_run.intros)
  from nothing_written_after_shutdown [OF this assms(2)] show ?thesis by (simp add: elsewhere pool_writes_left_def)
qed (use assms(2) in \<open>simp add: pool_writes_left_def\<close>)

text \<open>
  C14. The flag of the shutdown is looked at once in a visit, at its beginning, so visits under way when it is
  raised go on writing PortMappings. However they overlap, with each other and with all else, at most as many
  are written as those visits still had ahead of them; and a visit that begins later writes none.
\<close>

theorem shutdown_bounds_writes:
  assumes "spec_run (visit_step env sp) p evs q" and "w_shutting_down (vp_world p)"
  shows "w_shutting_down (vp_world q) \<and>
    length (published (vp_world q)) + pool_writes_left q \<le> length (published (vp_world p)) + pool_writes_left p"
  using assms
proof (induction rule: spec_run.induct)
  case (spec_step p ev u evs q)
  from step_writes [OF spec_step.hyps(1) spec_step.prems] spec_step.IH show ?case by (meson le_trans)
qed simp

section \<open>Live proxies\<close>

text \<open>The names of the PortMappings that belong to an object, and what a visit to it works on.\<close>

definition visit_names :: "visited \<Rightarrow> string set" where
  "visit_names v =
     (\<lambda>(external_port, proto). pm_name_for_owner (namespace_or_default (visited_meta v)) (meta_name (visited_meta v))
        external_port proto) ` UNIV"

lemma visit_namesI:
  "pm_name_for_owner (namespace_or_default (visited_meta v)) (meta_name (visited_meta v)) e p \<in> visit_names v"
  unfolding visit_names_def by (rule image_eqI [of _ _ "(e, p)"]) simp_all

fun works_for :: "visited \<Rightarrow> visit \<Rightarrow> bool" where
  "works_for u (Entering v) \<longleftrightarrow> v = u"
| "works_for u (Owning v) \<longleftrightarrow> v = u"
| "works_for u (Stopping ns pms owned) \<longleftrightarrow> pm_object_name ` set pms \<subseteq> visit_names u"
| "works_for u (Starting ow lan_ip owned desired ds) \<longleftrightarrow>
     desired_name ow ` set ds \<subseteq> visit_names u \<and> pm_object_name ` set owned \<subseteq> visit_names u"
| "works_for u (Publishing ow lan_ip owned desired d port ds) \<longleftrightarrow>
     desired_name ow ` set (d # ds) \<subseteq> visit_names u \<and> pm_object_name ` set owned \<subseteq> visit_names u"
| "works_for u (Pruning ow names pms) \<longleftrightarrow> pm_object_name ` set pms \<subseteq> visit_names u"
| "works_for u (Dropping ow names pm pms) \<longleftrightarrow> pm_object_name ` set pms \<subseteq> visit_names u"
| "works_for u _ \<longleftrightarrow> True"

text \<open>What is about to be published is the port of a proxy that runs for the backend.\<close>

fun publishes_live :: "world \<Rightarrow> visit \<Rightarrow> bool" where
  "publishes_live w (Publishing ow lan_ip owned desired d port ds) \<longleftrightarrow>
     serves_w w (desired_name ow d) = Some (desired_target ow d, desired_protocol d, port)"
| "publishes_live w _ \<longleftrightarrow> True"

lemma plan_names: "forward_plan v a = Inr (ow, desired) \<Longrightarrow> desired_name ow d \<in> visit_names v"
  using visit_namesI [of v]
  by (cases v; cases d)
    (auto simp: desired_name_def service_owner_def pod_owner_def Let_def split: if_splits option.splits)

lemma start_effect:
  assumes "run_state (start_desired env ow d) w = (r, w')"
  shows "k \<noteq> desired_name ow d \<Longrightarrow> serves_w w' k = serves_w w k"
    and "r = Ok port \<Longrightarrow> serves_w w' (desired_name ow d) = Some (desired_target ow d, desired_protocol d, port)"
    and "proxies_ok w \<Longrightarrow> proxies_ok w'"
  using pxw.ensure_frame pxw.ensure_Ok pxw.ensure_inv assms by (auto simp: start_desired_eq)

lemma stop_effect: "proxies_ok w \<Longrightarrow> proxies_ok (without_proxies names w)"
  by (simp add: proxies_ok_def without_proxies_def proxy_inv_fold_remove)

definition section_ok :: "visited \<Rightarrow> world \<Rightarrow> visit \<Rightarrow> world \<Rightarrow> bool" where
  "section_ok u w c w' \<longleftrightarrow> works_for u c \<and> publishes_live w' c \<and> (proxies_ok w \<longrightarrow> proxies_ok w') \<and>
     (\<forall>k. k \<notin> visit_names u \<longrightarrow> serves_w w' k = serves_w w k)"

lemma starting_ok:
  assumes "run_state (visit_section env (Starting ow lan_ip owned desired (d # ds))) w = (c, w')"
    and "works_for u (Starting ow lan_ip owned desired (d # ds))"
  shows "section_ok u w c w'"
proof -
  obtain r v where start: "run_state (start_desired env ow d) w = (r, v)" by (cases "run_state (start_desired env ow d) w")
  have "k \<notin> visit_names u \<Longrightarrow> serves_w v k = serves_w w k" for k
    using start_effect(1) [OF start, of k] assms(2) by auto
  then show ?thesis
    using assms start_effect(2,3) [OF start] by (cases r) (auto simp: start section_ok_def)
qed

lemma publishing_ok:
  assumes "run_state (visit_section env (Publishing ow lan_ip owned desired d port ds)) w = (c, w')"
    and "works_for u (Publishing ow lan_ip owned desired d port ds)"
  shows "section_ok u w c w'"
  using assms by (auto simp: run_publish section_ok_def proxies_ok_def split: outcome.splits)

lemma owning_ok:
  assumes "run_state (visit_section env (Owning v)) w = (c, w')" and "v = u"
    and "\<And>items. list_pm_answer env (w_calls w) (list_query (namespace_or_default (visited_meta u))) = Inr items \<Longrightarrow>
      pm_object_name ` set (owned_of (visited_meta u) items) \<subseteq> visit_names u"
  shows "section_ok u w c w'"
  using assms plan_names
  by (auto simp: run_owning section_ok_def proxies_ok_def split: sum.splits option.splits)

lemma section_keeps:
  assumes "run_state (visit_section env c) w = (c', w')" and "works_for u c" and "proxies_ok w"
    and "\<And>items. list_pm_answer env (w_calls w) (list_query (namespace_or_default (visited_meta u))) = Inr items \<Longrightarrow>
      pm_object_name ` set (owned_of (visited_meta u) items) \<subseteq> visit_names u"
  shows "section_ok u w c' w'"
proof (cases c)
  case (Owning v)
  with assms show ?thesis by (intro owning_ok) auto
next
  case (Starting ow lan_ip owned desired ds)
  show ?thesis
  proof (cases ds)
    case (Cons d rest)
    show ?thesis by (rule starting_ok) (use assms Starting Cons in simp_all)
  qed (use assms Starting in \<open>auto simp: section_ok_def\<close>)
next
  case (Publishing ow lan_ip owned desired d port ds)
  with assms show ?thesis by (intro publishing_ok) auto
next
  case (Stopping ns pms owned)
  with assms show ?thesis by (cases pms) (auto simp: section_ok_def stop_effect)
next
  case (Deleting ns pms)
  with assms show ?thesis by (cases pms) (auto simp: section_ok_def proxies_ok_def)
next
  case (Pruning ow names pms)
  with assms show ?thesis by (cases pms) (auto simp: section_ok_def stop_effect split: if_splits)
qed (use assms in \<open>auto simp: section_ok_def proxies_ok_def\<close>)

lemma returned_stays: "run_state (visit_section env c) w = (c', w') \<Longrightarrow> has_returned c \<Longrightarrow> c' = c \<and> w' = w"
  by (cases c) simp_all

lemma same_object_sym: "same_object u v \<Longrightarrow> same_object v u"
  by (cases u; cases v) auto

text \<open>
  The visits of some objects: each works for its own, what it is about to publish is live, and of two visits to
  one object one has returned.
\<close>

definition pool_ok :: "visited set \<Rightarrow> visit_pool \<Rightarrow> bool" where
  "pool_ok objs p \<longleftrightarrow> proxies_ok (vp_world p) \<and>
     (\<forall>i < length (vp_visits p). case vp_visits p ! i of (u, c) \<Rightarrow>
        u \<in> objs \<and> works_for u c \<and> publishes_live (vp_world p) c \<and>
        (\<forall>j < length (vp_visits p). case vp_visits p ! j of (u', c') \<Rightarrow>
           i \<noteq> j \<and> same_object u u' \<longrightarrow> has_returned c \<or> has_returned c'))"

text \<open>Objects with PortMappings of their own, also in the answers of the API server.\<close>

definition apart :: "env \<Rightarrow> visited set \<Rightarrow> bool" where
  "apart env objs \<longleftrightarrow>
     (\<forall>u \<in> objs. \<forall>v \<in> objs. same_object u v \<or> visit_names u \<inter> visit_names v = {}) \<and>
     (\<forall>u \<in> objs. \<forall>h items. list_pm_answer env h (list_query (namespace_or_default (visited_meta u))) = Inr items \<longrightarrow>
        pm_object_name ` set (owned_of (visited_meta u) items) \<subseteq> visit_names u)"

lemma live_elsewhere:
  assumes "publishes_live w c" and "works_for v c" and "visit_names u \<inter> visit_names v = {}"
    and "\<forall>k. k \<notin> visit_names u \<longrightarrow> serves_w w' k = serves_w w k"
  shows "publishes_live w' c"
proof (cases c)
  case (Publishing ow lan_ip owned desired d port ds)
  with assms(2,3) have "desired_name ow d \<notin> visit_names u" by auto
  with assms(1,4) Publishing show ?thesis by simp
qed (use assms in simp_all)

lemma pool_member:
  assumes "pool_ok objs p" and "j < length (vp_visits p)" and "vp_visits p ! j = (v, d)"
  shows "v \<in> objs" "works_for v d" "publishes_live (vp_world p) d"
  using assms by (auto simp: pool_ok_def split: prod.splits)

lemma pool_pair:
  assumes "pool_ok objs p" and "j < length (vp_visits p)" and "vp_visits p ! j = (v, d)"
    and "k < length (vp_visits p)" and "vp_visits p ! k = (v', d')" and "j \<noteq> k" and "same_object v v'"
  shows "has_returned d \<or> has_returned d'"
  using assms by (fastforce simp: pool_ok_def split: prod.splits)

lemma pool_proceeds:
  assumes "pool_ok objs p" and "apart env objs" and "i < length (vp_visits p)" and "vp_visits p ! i = (u, c)"
    and "run_state (visit_section env c) (vp_world p) = (c', w')"
  shows "pool_ok objs \<lparr>vp_world = w', vp_visits = (vp_visits p)[i := (u, c')]\<rparr>"
proof (cases "has_returned c")
  case True
  with returned_stays [OF assms(5)] assms(1,3,4) show ?thesis by (simp add: pool_ok_def flip: assms(4))
next
  case False
  let ?xs = "vp_visits p"
  note mine = pool_member [OF assms(1,3,4)] and member = pool_member [OF assms(1)] and pair = pool_pair [OF assms(1)]
  have ok: "proxies_ok (vp_world p)" using assms(1) by (simp add: pool_ok_def)
  have sect: "section_ok u (vp_world p) c' w'"
    by (rule section_keeps [OF assms(5) mine(2) ok]) (use assms(2) mine(1) in \<open>auto simp: apart_def\<close>)
  note unfinished = False
  have live: "publishes_live w' d" if j: "j < length ?xs" "?xs ! j = (v, d)" "i \<noteq> j" for j v d
  proof (cases "same_object u v")
    case True
    with pair [OF assms(3,4) j] unfinished show ?thesis by (cases d) simp_all
  next
    case False
    then have "visit_names u \<inter> visit_names v = {}"
      using assms(2) mine(1) member(1) [OF j(1,2)] by (auto simp: apart_def)
    from live_elsewhere [OF member(3,2) [OF j(1,2)] this] sect j show ?thesis by (simp add: section_ok_def)
  qed
  have gone: "has_returned d" if j: "j < length ?xs" "?xs ! j = (v, d)" "i \<noteq> j" "same_object u v \<or> same_object v u" for j v d
    using pair [OF assms(3,4) j(1-3)] same_object_sym j(4) unfinished by blast
  show ?thesis
    unfolding pool_ok_def
    using sect ok mine live member pair gone assms(3,4) unfinished
    by (auto simp: nth_list_update section_ok_def split: prod.splits)
qed

lemma pool_enters:
  assumes "pool_ok objs p" and "v \<in> objs" and "\<forall>(u, c) \<in> set (vp_visits p). same_object u v \<longrightarrow> has_returned c"
  shows "pool_ok objs (p\<lparr>vp_visits := vp_visits p @ [(v, Entering v)]\<rparr>)"
proof -
  have gone: "has_returned d" if "j < length (vp_visits p)" "vp_visits p ! j = (u, d)" "same_object u v \<or> same_object v u" for j u d
    using assms(3) that nth_mem [OF that(1)] same_object_sym by fastforce
  have "proxies_ok (vp_world p)" using assms(1) by (simp add: pool_ok_def)
  then show ?thesis
    unfolding pool_ok_def using pool_member [OF assms(1)] pool_pair [OF assms(1)] assms(2) gone
    by (auto simp: nth_append less_Suc_eq split: prod.splits)
qed

lemma pool_elsewhere:
  assumes "pool_ok objs p" and "sys_step env sp (vp_world p) ev w" and "\<not> visits_owner ev"
  shows "pool_ok objs (p\<lparr>vp_world := w\<rparr>)"
proof -
  have same: "w_proxies w = w_proxies (vp_world p)" by (rule step_keeps_proxies [OF assms(2,3)])
  then have "publishes_live w c = publishes_live (vp_world p) c" for c by (cases c) (simp_all add: serves_w_def)
  with assms(1) same show ?thesis by (simp add: pool_ok_def proxies_ok_def)
qed

lemma pool_run:
  assumes "spec_run (visit_step env sp) p evs q" and "pool_ok objs p" and "apart env objs"
    and "{v. Enter v \<in> set evs} \<subseteq> objs"
  shows "pool_ok objs q"
  using assms(1,2,4)
proof (induction rule: spec_run.induct)
  case (spec_step p ev u evs q)
  from spec_step.hyps(1) have "pool_ok objs u"
    by cases (use spec_step.prems assms(3) in \<open>auto intro: pool_enters pool_proceeds pool_elsewhere\<close>)
  with spec_step.IH spec_step.prems(2) show ?case by auto
qed

text \<open>
  C13. However visits to Services and Pods overlap, with each other, with the shutdown and with everything else
  in the process: whenever a visit is about to write a PortMapping, the port in it is that of a task for
  the backend and port that the annotation asks for and its protocol, which has not been told to stop, if the
  names of the PortMappings of different objects are different.
\<close>

theorem overlapping_visits_publish_live:
  assumes "spec_run (visit_step env sp) \<lparr>vp_world = w, vp_visits = []\<rparr> evs p" and "proxies_ok w"
    and "apart env {v. Enter v \<in> set evs}"
    and "(u, Publishing ow lan_ip owned desired d port ds) \<in> set (vp_visits p)"
  shows "\<exists>task \<in> set (unstopped (w_proxies (vp_world p))). pt_port task = port \<and>
    pt_protocol task = desired_protocol d \<and> pt_target task = desired_target ow d"
proof -
  let ?objs = "{v. Enter v \<in> set evs}"
  from pool_run [OF assms(1) _ assms(3)] assms(2) have ok: "pool_ok ?objs p" by (simp add: pool_ok_def)
  from assms(4) obtain i where i: "i < length (vp_visits p)"
    "vp_visits p ! i = (u, Publishing ow lan_ip owned desired d port ds)"
    by (auto simp: in_set_conv_nth)
  from ok i(1) have "case vp_visits p ! i of (u, c) \<Rightarrow> publishes_live (vp_world p) c"
    by (auto simp: pool_ok_def split: prod.splits)
  then have "serves_w (vp_world p) (desired_name ow d) = Some (desired_target ow d, desired_protocol d, port)"
    by (simp add: i(2))
  moreover have "proxies_ok (vp_world p)" using ok by (simp add: pool_ok_def)
  ultimately show ?thesis by (blast dest: served_task)
qed

text \<open>
  The names are different for objects of one namespace and kind; a Service and a Pod of one name share theirs, as
  do owners of different namespaces whose names joined by a hyphen are equal.
\<close>

lemma names_of_namespace_apart:
  assumes "namespace_or_default (visited_meta u) = namespace_or_default (visited_meta v)"
    and "meta_name (visited_meta u) \<noteq> meta_name (visited_meta v)"
  shows "visit_names u \<inter> visit_names v = {}"
  using assms by (auto simp: visit_names_def pm_name_injective)

lemma service_and_pod_share_names:
  assumes "svc_metadata svc = pod_metadata p"
  shows "desired_name (service_owner svc) d = desired_name (pod_owner p ip) d"
  by (simp add: desired_name_def service_owner_def pod_owner_def assms)

section \<open>Samples\<close>

abbreviation (input) "web_service \<equiv> sample_service (Some ''true'')"
abbreviation (input) "web_ports \<equiv> [(80, 80, Tcp)] :: desired list"

definition db_service :: service where
  "db_service = web_service\<lparr>svc_metadata := (sample_meta (Some ''true''))\<lparr>meta_name := ''db''\<rparr>\<rparr>"

lemma web_plan: "forward_plan (VisitedService web_service) ''true'' = Inr (service_owner web_service, web_ports)"
proof -
  have "parse_service_annotation ''true'' (service_ports_of web_service) = web_ports" "cluster_ip_of web_service = ''10.0.0.1''"
    by (simp_all add: sample_service_def service_ports_of_def parse_service_annotation_def parse_k8s_protocol_def cluster_ip_of_def)
  then show ?thesis by simp
qed

lemma web_sections:
  assumes "w_proxies w = new_manager ip"
  shows "\<exists>v. run_state (visit_section sample_env (Owning (VisitedService web_service))) w =
      (Starting (service_owner web_service) ip [] web_ports web_ports, listed (sample_meta (Some ''true'')) w) \<and>
    run_state (visit_section sample_env (Starting (service_owner web_service) ip [] web_ports web_ports))
      (listed (sample_meta (Some ''true'')) w) =
      (Publishing (service_owner web_service) ip [] web_ports (80, 80, Tcp) 1 [], v) \<and>
    published v = published w"
proof -
  have lan: "px_lan_ip (new_manager ip) = ip" by (simp add: new_manager_def)
  have note_it: "annotation (sample_meta (Some ''true'')) PORT_FORWARD_ANNOTATION = Some ''true''"
    by (simp add: annotation_def sample_meta_def)
  have "run_state (start_desired sample_env (service_owner web_service) (80, 80, Tcp)) (listed (sample_meta (Some ''true'')) w) =
      (Ok 1, (listed (sample_meta (Some ''true'')) w)\<lparr>w_proxies := started (desired_name (service_owner web_service) (80, 80, Tcp))
        (desired_target (service_owner web_service) (80, 80, Tcp)) (desired_protocol (80, 80, Tcp)) 1 (count_bind (new_manager ip))\<rparr>)"
    by (rule start_sample) (simp_all add: assms sample_env_def)
  then show ?thesis
    using assms by (simp add: run_owning web_plan note_it lan owned_of_def sample_env_lists published_def listed_def list_query_def
        del: forward_plan.simps)
qed

lemma first_proceeds:
  assumes "run_state (visit_section env c) w = (c', w')"
  shows "visit_step env sp \<lparr>vp_world = w, vp_visits = (u, c) # cs\<rparr> (Proceed 0) \<lparr>vp_world = w', vp_visits = (u, c') # cs\<rparr>"
  using visit_step.proceeds [of 0 "\<lparr>vp_world = w, vp_visits = (u, c) # cs\<rparr>" u c] assms by simp

lemma last_enters:
  assumes "\<forall>(u, c) \<in> set cs. same_object u v \<longrightarrow> has_returned c"
  shows "visit_step env sp \<lparr>vp_world = w, vp_visits = cs\<rparr> (Enter v) \<lparr>vp_world = w, vp_visits = cs @ [(v, Entering v)]\<rparr>"
  using visit_step.enters [of "\<lparr>vp_world = w, vp_visits = cs\<rparr>" v] assms by simp

theorem shutdown_bounds_writes_witness:
  "\<exists>q. spec_run (visit_step sample_env sample_started)
       \<lparr>vp_world = world_new ''192.168.0.2''\<lparr>w_shutting_down := True\<rparr>,
        vp_visits = [(VisitedService web_service, Owning (VisitedService web_service))]\<rparr>
       [Proceed 0, Proceed 0, Proceed 0] q \<and>
     length (published (vp_world q)) = 1 \<and> length (published (vp_world q)) + pool_writes_left q \<le> 1"
proof -
  let ?S = "VisitedService web_service" and ?ow = "service_owner web_service"
  let ?w = "world_new ''192.168.0.2''\<lparr>w_shutting_down := True\<rparr>" and ?u = "listed (sample_meta (Some ''true''))"
  let ?p = "\<lparr>vp_world = ?w, vp_visits = [(?S, Owning ?S)]\<rparr>"
  have "w_proxies ?w = new_manager ''192.168.0.2''" by (simp add: world_new_def)
  from web_sections [OF this] obtain v where
    s: "run_state (visit_section sample_env (Owning ?S)) ?w = (Starting ?ow ''192.168.0.2'' [] web_ports web_ports, ?u ?w)"
      "run_state (visit_section sample_env (Starting ?ow ''192.168.0.2'' [] web_ports web_ports)) (?u ?w) =
        (Publishing ?ow ''192.168.0.2'' [] web_ports (80, 80, Tcp) 1 [], v)" "published v = published ?w" by blast
  obtain c z where z: "run_state (visit_section sample_env (Publishing ?ow ''192.168.0.2'' [] web_ports (80, 80, Tcp) 1 [])) v = (c, z)"
    by (cases "run_state (visit_section sample_env (Publishing ?ow ''192.168.0.2'' [] web_ports (80, 80, Tcp) 1 [])) v")
  have written: "length (published z) = 1" using z s(3) by (auto simp: run_publish published_def world_new_def)
  let ?q = "\<lparr>vp_world = z, vp_visits = [(?S, c)]\<rparr>"
  have "spec_run (visit_step sample_env sample_started) ?p [Proceed 0, Proceed 0, Proceed 0] ?q"
    by (rule spec_step, rule first_proceeds, rule s(1), rule spec_step, rule first_proceeds, rule s(2),
        rule spec_step, rule first_proceeds, rule z, rule spec_nil)
  moreover from shutdown_bounds_writes [OF this]
  have "length (published (vp_world ?q)) + pool_writes_left ?q \<le> length (published ?w) + pool_writes_left ?p" by simp
  moreover have "published ?w = []" "pool_writes_left ?p = 1"
    by (simp_all add: published_def world_new_def pool_writes_left_def web_plan annotation_def sample_meta_def del: forward_plan.simps)
  ultimately show ?thesis using written by (intro exI [of _ ?q]) simp
qed

theorem overlapping_visits_publish_live_witness:
  "\<exists>p. spec_run (visit_step sample_env sample_started) \<lparr>vp_world = world_new ''192.168.0.2'', vp_visits = []\<rparr>
       [Enter (VisitedService web_service), Enter (VisitedService db_service), Proceed 0, Proceed 0, Proceed 0] p \<and>
     (\<exists>task \<in> set (unstopped (w_proxies (vp_world p))). pt_port task = 1 \<and> pt_protocol task = Tcp \<and>
        pt_target task = desired_target (service_owner web_service) (80, 80, Tcp))"
proof -
  let ?S = "VisitedService web_service" and ?D = "(VisitedService db_service, Entering (VisitedService db_service))"
  let ?ow = "service_owner web_service" and ?w = "world_new ''192.168.0.2''"
  let ?u = "listed (sample_meta (Some ''true'')) ?w"
  let ?evs = "[Enter ?S, Enter (VisitedService db_service), Proceed 0, Proceed 0, Proceed 0]"
  have "w_proxies ?w = new_manager ''192.168.0.2''" by (simp add: world_new_def)
  from web_sections [OF this] obtain v where
    s: "run_state (visit_section sample_env (Owning ?S)) ?w = (Starting ?ow ''192.168.0.2'' [] web_ports web_ports, ?u)"
      "run_state (visit_section sample_env (Starting ?ow ''192.168.0.2'' [] web_ports web_ports)) ?u =
        (Publishing ?ow ''192.168.0.2'' [] web_ports (80, 80, Tcp) 1 [], v)" by blast
  have enter: "run_state (visit_section sample_env (Entering ?S)) ?w = (Owning ?S, ?w)" by (simp add: world_new_def)
  let ?p = "\<lparr>vp_world = v, vp_visits = [(?S, Publishing ?ow ''192.168.0.2'' [] web_ports (80, 80, Tcp) 1 []), ?D]\<rparr>"
  have other: "visit_step sample_env sample_started \<lparr>vp_world = ?w, vp_visits = [(?S, Entering ?S)]\<rparr>
      (Enter (VisitedService db_service)) \<lparr>vp_world = ?w, vp_visits = [(?S, Entering ?S), ?D]\<rparr>"
    using last_enters [of "[(?S, Entering ?S)]" "VisitedService db_service"] by (simp add: db_service_def sample_meta_def)
  have first: "visit_step sample_env sample_started \<lparr>vp_world = ?w, vp_visits = []\<rparr> (Enter ?S)
      \<lparr>vp_world = ?w, vp_visits = [(?S, Entering ?S)]\<rparr>"
    using last_enters [of "[]" ?S] by simp
  have run: "spec_run (visit_step sample_env sample_started) \<lparr>vp_world = ?w, vp_visits = []\<rparr> ?evs ?p"
    by (rule spec_step, rule first, rule spec_step, rule other, rule spec_step, rule first_proceeds, rule enter,
        rule spec_step, rule first_proceeds, rule s(1), rule spec_step, rule first_proceeds, rule s(2), rule spec_nil)
  have "visit_names ?S \<inter> visit_names (VisitedService db_service) = {}"
    by (rule names_of_namespace_apart) (simp_all add: db_service_def sample_meta_def namespace_or_default_def)
  then have "apart sample_env {v. Enter v \<in> set ?evs}"
    by (auto simp: apart_def sample_env_lists owned_of_def)
  from overlapping_visits_publish_live [OF run _ this, of ?S ?ow "''192.168.0.2''" "[]" web_ports "(80, 80, Tcp)" 1 "[]"] run
  show ?thesis by (intro exI [of _ ?p]) (simp add: proxies_ok_def world_new_def desired_protocol_def)
qed

end
