(* ===== verification/Json_Form.thy ===== *)
theory Json_Form
  imports World
begin

text \<open>
  The resources as JSON: how the structs of \<open>src/crds\<close> and of \<open>dns_endpoint_ctrl.rs\<close> are written and read
  under their \<open>serde\<close> attributes, and the bodies that the controllers build with \<open>json!\<close>. What \<open>serde\<close> and
  \<open>chrono\<close> compute (names under \<open>rename_all\<close>, the text of a point in time) is the parameter \<open>serde_lib\<close>.
\<close>

section \<open>JSON\<close>

datatype json =
    JNull
  | JBool bool
  | JNumber int                       \<comment> \<open>the numbers of the resources are integers\<close>
  | JString string
  | JArray "json list"
  | JObject "(string \<times> json) list"

definition json_get :: "string \<Rightarrow> json \<Rightarrow> json option" where
  "json_get k j = (case j of JObject fs \<Rightarrow> map_of fs k | _ \<Rightarrow> None)"

lemma json_get_object [simp]: "json_get k (JObject fs) = map_of fs k"
  by (simp add: json_get_def)

section \<open>What is used of serde and chrono\<close>

record serde_lib =
  camel_case :: "string \<Rightarrow> string"                 \<comment> \<open>\<open>rename_all = "camelCase"\<close> on the name of a field\<close>
  upper_case :: "string \<Rightarrow> string"                 \<comment> \<open>\<open>rename_all = "UPPERCASE"\<close> on the name of a variant\<close>
  show_datetime :: "datetime \<Rightarrow> string"
  read_datetime :: "string \<Rightarrow> datetime option"

definition lower_letter :: "char \<Rightarrow> bool" where
  "lower_letter c \<longleftrightarrow> 97 \<le> byte c \<and> byte c \<le> 122"

definition ascii_upper :: "char \<Rightarrow> char" where
  "ascii_upper c = (if lower_letter c then char_of (byte c - 32) else c)"

fun capitalised :: "string \<Rightarrow> string" where
  "capitalised [] = []"
| "capitalised (c # cs) = ascii_upper c # cs"

text \<open>
  The documented behaviour: a field named by words in small letters that are joined by underscores loses the
  underscores, and the words after the first get a capital; the letters of a variant become capitals; and
  the text of a point in time is read as that point.
\<close>

definition serde_ok :: "serde_lib \<Rightarrow> bool" where
  "serde_ok lib \<longleftrightarrow>
     (\<forall>w ws. (\<forall>v \<in> set (w # ws). v \<noteq> [] \<and> list_all lower_letter v) \<longrightarrow>
        camel_case lib (join_char (CHR ''_'') (w # ws)) = w @ concat (map capitalised ws)) \<and>
     (\<forall>v. upper_case lib v = map ascii_upper v) \<and>
     (\<forall>t. read_datetime lib (show_datetime lib t) = Some t)"

section \<open>Fields\<close>

text \<open>
  A field of a struct: one that must be there, one with \<open>#[serde(default)]\<close>, and one of an \<open>Option\<close>, which
  may also be null or not there. Other fields of the object are passed over. (\<open>serde\<close> also takes an array for a
  struct and an object for a variant; the schemas of the resources admit neither.)
\<close>

definition required :: "(json \<Rightarrow> 'a option) \<Rightarrow> string \<Rightarrow> json \<Rightarrow> 'a option" where
  "required dec k j = Option.bind (json_get k j) dec"

definition defaulted :: "'a \<Rightarrow> (json \<Rightarrow> 'a option) \<Rightarrow> string \<Rightarrow> json \<Rightarrow> 'a option" where
  "defaulted d dec k j = (case json_get k j of None \<Rightarrow> Some d | Some v \<Rightarrow> dec v)"

definition optional :: "(json \<Rightarrow> 'a option) \<Rightarrow> string \<Rightarrow> json \<Rightarrow> 'a option option" where
  "optional dec k j =
     (case json_get k j of None \<Rightarrow> Some None | Some v \<Rightarrow> if v = JNull then Some None else map_option Some (dec v))"

text \<open>\<open>skip_serializing_if = "Option::is_none"\<close>, and an \<open>Option\<close> without it.\<close>

definition skip_none :: "string \<Rightarrow> ('a \<Rightarrow> json) \<Rightarrow> 'a option \<Rightarrow> (string \<times> json) list" where
  "skip_none k enc v = (case v of None \<Rightarrow> [] | Some x \<Rightarrow> [(k, enc x)])"

definition null_or :: "('a \<Rightarrow> json) \<Rightarrow> 'a option \<Rightarrow> json" where
  "null_or enc v = (case v of None \<Rightarrow> JNull | Some x \<Rightarrow> enc x)"

definition read_string :: "json \<Rightarrow> string option" where
  "read_string j = (case j of JString s \<Rightarrow> Some s | _ \<Rightarrow> None)"

definition read_bool :: "json \<Rightarrow> bool option" where
  "read_bool j = (case j of JBool b \<Rightarrow> Some b | _ \<Rightarrow> None)"

definition read_u16 :: "json \<Rightarrow> u16 option" where
  "read_u16 j = (case j of JNumber n \<Rightarrow> if 0 \<le> n \<and> n < 2 ^ 16 then Some (word_of_int n) else None | _ \<Rightarrow> None)"

definition is_i64 :: "int \<Rightarrow> bool" where
  "is_i64 n \<longleftrightarrow> - (2 ^ 63) \<le> n \<and> n < 2 ^ 63"

definition read_i64 :: "json \<Rightarrow> int option" where
  "read_i64 j = (case j of JNumber n \<Rightarrow> if is_i64 n then Some n else None | _ \<Rightarrow> None)"

fun read_all :: "(json \<Rightarrow> 'a option) \<Rightarrow> json list \<Rightarrow> 'a list option" where
  "read_all dec [] = Some []"
| "read_all dec (j # js) = Option.bind (dec j) (\<lambda>x. map_option ((#) x) (read_all dec js))"

definition read_array :: "(json \<Rightarrow> 'a option) \<Rightarrow> json \<Rightarrow> 'a list option" where
  "read_array dec j = (case j of JArray js \<Rightarrow> read_all dec js | _ \<Rightarrow> None)"

definition write_array :: "('a \<Rightarrow> json) \<Rightarrow> 'a list \<Rightarrow> json" where
  "write_array enc xs = JArray (map enc xs)"

definition datetime_json :: "serde_lib \<Rightarrow> datetime \<Rightarrow> json" where
  "datetime_json lib t = JString (show_datetime lib t)"

definition read_time :: "serde_lib \<Rightarrow> json \<Rightarrow> datetime option" where
  "read_time lib j = Option.bind (read_string j) (read_datetime lib)"

section \<open>PortMapping\<close>

definition protocol_json :: "serde_lib \<Rightarrow> protocol \<Rightarrow> json" where
  "protocol_json lib p = JString (upper_case lib (case p of Tcp \<Rightarrow> ''Tcp'' | Udp \<Rightarrow> ''Udp''))"

definition protocol_of_json :: "serde_lib \<Rightarrow> json \<Rightarrow> protocol option" where
  "protocol_of_json lib j =
     (if j = JString (upper_case lib ''Tcp'') then Some Tcp
      else if j = JString (upper_case lib ''Udp'') then Some Udp else None)"

definition spec_json :: "serde_lib \<Rightarrow> port_mapping_spec \<Rightarrow> json" where
  "spec_json lib s = JObject
     ([(camel_case lib ''external_port'', JNumber (uint (spec_external_port s))),
       (camel_case lib ''internal_host'', JString (spec_internal_host s)),
       (camel_case lib ''internal_port'', JNumber (uint (spec_internal_port s))),
       (camel_case lib ''protocol'', protocol_json lib (spec_protocol s))] @
      skip_none (camel_case lib ''description'') JString (spec_description s))"

definition spec_of_json :: "serde_lib \<Rightarrow> json \<Rightarrow> port_mapping_spec option" where
  "spec_of_json lib j =
     Option.bind (required read_u16 (camel_case lib ''external_port'') j) (\<lambda>external_port.
     Option.bind (required read_string (camel_case lib ''internal_host'') j) (\<lambda>internal_host.
     Option.bind (required read_u16 (camel_case lib ''internal_port'') j) (\<lambda>internal_port.
     Option.bind (required (protocol_of_json lib) (camel_case lib ''protocol'') j) (\<lambda>proto.
     Option.bind (optional read_string (camel_case lib ''description'') j) (\<lambda>description.
       Some \<lparr>spec_external_port = external_port, spec_internal_host = internal_host,
         spec_internal_port = internal_port, spec_protocol = proto, spec_description = description\<rparr>)))))"

definition condition_json :: "serde_lib \<Rightarrow> condition \<Rightarrow> json" where
  "condition_json lib c = JObject
     ([(camel_case lib ''type'', JString (cond_type c)), (camel_case lib ''status'', JString (cond_status c)),
       (camel_case lib ''reason'', JString (cond_reason c))] @
      skip_none (camel_case lib ''message'') JString (cond_message c) @
      skip_none (camel_case lib ''last_transition_time'') (datetime_json lib) (cond_last_transition_time c))"

definition condition_of_json :: "serde_lib \<Rightarrow> json \<Rightarrow> condition option" where
  "condition_of_json lib j =
     Option.bind (required read_string (camel_case lib ''type'') j) (\<lambda>type.
     Option.bind (required read_string (camel_case lib ''status'') j) (\<lambda>status.
     Option.bind (required read_string (camel_case lib ''reason'') j) (\<lambda>reason.
     Option.bind (optional read_string (camel_case lib ''message'') j) (\<lambda>message.
     Option.bind (optional (read_time lib) (camel_case lib ''last_transition_time'') j) (\<lambda>time.
       Some \<lparr>cond_type = type, cond_status = status, cond_reason = reason, cond_message = message,
         cond_last_transition_time = time\<rparr>)))))"

text \<open>\<open>conditions\<close> has \<open>skip_serializing_if = "Vec::is_empty"\<close>.\<close>

definition status_json :: "serde_lib \<Rightarrow> port_mapping_status \<Rightarrow> json" where
  "status_json lib st = JObject
     ([(camel_case lib ''active'', JBool (pms_active st))] @
      skip_none ''externalIP'' JString (pms_external_ip st) @
      skip_none (camel_case lib ''lease_expiry'') (datetime_json lib) (pms_lease_expiry st) @
      skip_none (camel_case lib ''last_renewal'') (datetime_json lib) (pms_last_renewal st) @
      (if pms_conditions st = [] then []
       else [(camel_case lib ''conditions'', write_array (condition_json lib) (pms_conditions st))]))"

definition status_of_json :: "serde_lib \<Rightarrow> json \<Rightarrow> port_mapping_status option" where
  "status_of_json lib j =
     Option.bind (defaulted False read_bool (camel_case lib ''active'') j) (\<lambda>active.
     Option.bind (optional read_string ''externalIP'' j) (\<lambda>external_ip.
     Option.bind (optional (read_time lib) (camel_case lib ''lease_expiry'') j) (\<lambda>expiry.
     Option.bind (optional (read_time lib) (camel_case lib ''last_renewal'') j) (\<lambda>renewal.
     Option.bind (defaulted [] (read_array (condition_of_json lib)) (camel_case lib ''conditions'') j) (\<lambda>conditions.
       Some \<lparr>pms_active = active, pms_external_ip = external_ip, pms_lease_expiry = expiry,
         pms_last_renewal = renewal, pms_conditions = conditions\<rparr>)))))"

text \<open>The object that \<open>derive(CustomResource)\<close> makes; its metadata is read by \<open>k8s-openapi\<close>, a parameter.\<close>

definition pm_of_json :: "(json \<Rightarrow> object_meta option) \<Rightarrow> serde_lib \<Rightarrow> json \<Rightarrow> port_mapping option" where
  "pm_of_json read_meta lib j =
     Option.bind (required read_meta ''metadata'' j) (\<lambda>meta.
     Option.bind (required (spec_of_json lib) ''spec'' j) (\<lambda>spec.
     Option.bind (optional (status_of_json lib) ''status'' j) (\<lambda>status.
       Some \<lparr>pmo_metadata = meta, pmo_spec = spec, pmo_status = status\<rparr>)))"

section \<open>GatewayStatus\<close>

definition gateway_json :: "serde_lib \<Rightarrow> gateway_status_status \<Rightarrow> json" where
  "gateway_json lib st = JObject
     (skip_none ''externalIP'' JString (gws_external_ip st) @
      skip_none ''gatewayURL'' JString (gws_gateway_url st) @
      skip_none ''subscriptionID'' JString (gws_subscription_id st) @
      skip_none (camel_case lib ''subscription_expiry'') (datetime_json lib) (gws_subscription_expiry st) @
      skip_none (camel_case lib ''last_seen'') (datetime_json lib) (gws_last_seen st) @
      skip_none ''lanIP'' JString (gws_lan_ip st) @
      [(camel_case lib ''ready'', JBool (gws_ready st))])"

definition gateway_of_json :: "serde_lib \<Rightarrow> json \<Rightarrow> gateway_status_status option" where
  "gateway_of_json lib j =
     Option.bind (optional read_string ''externalIP'' j) (\<lambda>external_ip.
     Option.bind (optional read_string ''gatewayURL'' j) (\<lambda>gateway_url.
     Option.bind (optional read_string ''subscriptionID'' j) (\<lambda>subscription_id.
     Option.bind (optional (read_time lib) (camel_case lib ''subscription_expiry'') j) (\<lambda>expiry.
     Option.bind (optional (read_time lib) (camel_case lib ''last_seen'') j) (\<lambda>last_seen.
     Option.bind (optional read_string ''lanIP'' j) (\<lambda>lan_ip.
     Option.bind (defaulted False read_bool (camel_case lib ''ready'') j) (\<lambda>ready.
       Some \<lparr>gws_external_ip = external_ip, gws_gateway_url = gateway_url, gws_subscription_id = subscription_id,
         gws_subscription_expiry = expiry, gws_last_seen = last_seen, gws_lan_ip = lan_ip, gws_ready = ready\<rparr>)))))))"

section \<open>DNSEndpoint\<close>

definition endpoint_json :: "serde_lib \<Rightarrow> endpoint \<Rightarrow> json" where
  "endpoint_json lib e = JObject
     [(camel_case lib ''dns_name'', JString (ep_dns_name e)),
      (camel_case lib ''record_type'', JString (ep_record_type e)),
      (camel_case lib ''record_ttl'', null_or JNumber (ep_record_ttl e)),
      (camel_case lib ''targets'', write_array JString (ep_targets e))]"

definition endpoint_of_json :: "serde_lib \<Rightarrow> json \<Rightarrow> endpoint option" where
  "endpoint_of_json lib j =
     Option.bind (defaulted '''' read_string (camel_case lib ''dns_name'') j) (\<lambda>dns_name.
     Option.bind (defaulted '''' read_string (camel_case lib ''record_type'') j) (\<lambda>record_type.
     Option.bind (optional read_i64 (camel_case lib ''record_ttl'') j) (\<lambda>record_ttl.
     Option.bind (defaulted [] (read_array read_string) (camel_case lib ''targets'') j) (\<lambda>targets.
       Some \<lparr>ep_dns_name = dns_name, ep_record_type = record_type, ep_record_ttl = record_ttl, ep_targets = targets\<rparr>))))"

definition dns_spec_json :: "serde_lib \<Rightarrow> endpoint list \<Rightarrow> json" where
  "dns_spec_json lib es = JObject [(camel_case lib ''endpoints'', write_array (endpoint_json lib) es)]"

definition dns_spec_of_json :: "serde_lib \<Rightarrow> json \<Rightarrow> endpoint list option" where
  "dns_spec_of_json lib j = defaulted [] (read_array (endpoint_of_json lib)) (camel_case lib ''endpoints'') j"

section \<open>The bodies of the requests\<close>

definition owner_reference_json :: "owner_reference \<Rightarrow> json" where
  "owner_reference_json r = JObject
     [(''apiVersion'', JString (or_api_version r)), (''kind'', JString (or_kind r)), (''name'', JString (or_name r)),
      (''uid'', JString (or_uid r)), (''controller'', JBool (or_controller r)),
      (''blockOwnerDeletion'', JBool (or_block_owner_deletion r))]"

definition manifest_json :: "pm_manifest \<Rightarrow> json" where
  "manifest_json mf = JObject
     [(''apiVersion'', JString (mf_api_version mf)), (''kind'', JString (mf_kind mf)),
      (''metadata'', JObject
        [(''name'', JString (mf_name mf)), (''namespace'', JString (mf_namespace mf)),
         (''labels'', JObject (map (\<lambda>(k, v). (k, JString v)) (mf_labels mf))),
         (''ownerReferences'', write_array owner_reference_json (mf_owner_references mf))]),
      (''spec'', JObject
        [(''externalPort'', JNumber (uint (spec_external_port (mf_spec mf)))),
         (''internalHost'', JString (spec_internal_host (mf_spec mf))),
         (''internalPort'', JNumber (uint (spec_internal_port (mf_spec mf)))),
         (''protocol'', JString (protocol_to_string (spec_protocol (mf_spec mf)))),
         (''description'', null_or JString (spec_description (mf_spec mf)))])]"

definition pm_status_patch :: "serde_lib \<Rightarrow> port_mapping_status \<Rightarrow> json" where
  "pm_status_patch lib status = JObject
     [(''apiVersion'', JString ''upnp-controller.io/v1alpha1''), (''kind'', JString ''PortMapping''),
      (''status'', status_json lib status)]"

definition gateway_status_patch :: "serde_lib \<Rightarrow> gateway_status_status \<Rightarrow> json" where
  "gateway_status_patch lib status = JObject
     [(''apiVersion'', JString ''upnp-controller.io/v1alpha1''), (''kind'', JString ''GatewayStatus''),
      (''status'', gateway_json lib status)]"

definition dns_merge_patch :: "serde_lib \<Rightarrow> endpoint list \<Rightarrow> json" where
  "dns_merge_patch lib patched_spec = JObject [(''spec'', dns_spec_json lib patched_spec)]"

end
