(* ===== verification/Json_Facts.thy ===== *)
theory Json_Facts
  imports Json_Form Dns_Endpoint Watchers_Facts "HOL-Library.AList"
begin

text \<open>
  What is written in JSON is read back: the codecs of the fields and of the structs as interpretations of one
  locale, the PortMappings of the watchers, and the merge patch of the DNSEndpoints.
\<close>

section \<open>Codecs\<close>

text \<open>A writer and a reader; a written value is read back and is not null.\<close>

locale json_codec =
  fixes enc :: "'a \<Rightarrow> json" and dec :: "json \<Rightarrow> 'a option" and ok :: "'a \<Rightarrow> bool"
  assumes read_back: "ok x \<Longrightarrow> dec (enc x) = Some x" and not_null: "enc x \<noteq> JNull"
begin

lemma read_array: "list_all ok xs \<Longrightarrow> read_array dec (write_array enc xs) = Some xs"
proof -
  assume "list_all ok xs"
  then have "read_all dec (map enc xs) = Some xs" by (induction xs) (simp_all add: read_back)
  then show ?thesis by (simp add: read_array_def write_array_def)
qed

lemma array_codec: "json_codec (write_array enc) (read_array dec) (list_all ok)"
  by unfold_locales (simp_all add: read_array, simp add: write_array_def)

end

interpretation jstring: json_codec JString read_string "\<lambda>_. True"
  by unfold_locales (simp_all add: read_string_def)

interpretation jbool: json_codec JBool read_bool "\<lambda>_. True"
  by unfold_locales (simp_all add: read_bool_def)

interpretation ju16: json_codec "\<lambda>n. JNumber (uint n)" read_u16 "\<lambda>_. True"
  using uint_bounded [where 'a = 16] by unfold_locales (simp_all add: read_u16_def)

interpretation ji64: json_codec JNumber read_i64 is_i64
  by unfold_locales (simp_all add: read_i64_def)

interpretation jtime: json_codec "datetime_json lib" "read_time lib" "\<lambda>_. serde_ok lib" for lib
  by unfold_locales (auto simp: datetime_json_def read_time_def read_string_def serde_ok_def)

interpretation jstrings: json_codec "write_array JString" "read_array read_string" "list_all (\<lambda>_. True)"
  by (rule jstring.array_codec)

section \<open>The names of the fields\<close>

lemmas letter_eval = lower_letter_def ascii_upper_def byte_def char_of_eq_iff

lemma upper_tcp_udp:
  assumes "serde_ok lib"
  shows "upper_case lib ''Tcp'' = ''TCP''" "upper_case lib ''Udp'' = ''UDP''"
proof -
  have "upper_case lib v = map ascii_upper v" for v using assms by (simp add: serde_ok_def)
  then show "upper_case lib ''Tcp'' = ''TCP''" "upper_case lib ''Udp'' = ''UDP''" by (simp_all add: letter_eval)
qed

lemma camel_words:
  assumes "serde_ok lib" and "list_all (\<lambda>v. v \<noteq> [] \<and> list_all lower_letter v) (w # ws)"
  shows "camel_case lib (join_char (CHR ''_'') (w # ws)) = w @ concat (map capitalised ws)"
  using assms unfolding serde_ok_def list_all_iff [of _ "w # ws"] by blast

lemma camel_names:
  assumes "serde_ok lib"
  shows "camel_case lib ''external_port'' = ''externalPort''"
    "camel_case lib ''internal_host'' = ''internalHost''" "camel_case lib ''internal_port'' = ''internalPort''"
    "camel_case lib ''lease_expiry'' = ''leaseExpiry''" "camel_case lib ''last_renewal'' = ''lastRenewal''"
    "camel_case lib ''subscription_expiry'' = ''subscriptionExpiry''"
    "camel_case lib ''last_seen'' = ''lastSeen''" "camel_case lib ''dns_name'' = ''dnsName''"
    "camel_case lib ''record_type'' = ''recordType''" "camel_case lib ''record_ttl'' = ''recordTtl''"
    "camel_case lib ''last_transition_time'' = ''lastTransitionTime''"
    "camel_case lib ''protocol'' = ''protocol''" "camel_case lib ''description'' = ''description''"
    "camel_case lib ''type'' = ''type''" "camel_case lib ''status'' = ''status''"
    "camel_case lib ''reason'' = ''reason''" "camel_case lib ''message'' = ''message''"
    "camel_case lib ''active'' = ''active''" "camel_case lib ''conditions'' = ''conditions''"
    "camel_case lib ''ready'' = ''ready''" "camel_case lib ''targets'' = ''targets''"
    "camel_case lib ''endpoints'' = ''endpoints''"
proof -
  note camel = camel_words [OF assms]
  show "camel_case lib ''external_port'' = ''externalPort''"
    "camel_case lib ''internal_host'' = ''internalHost''" "camel_case lib ''internal_port'' = ''internalPort''"
    "camel_case lib ''lease_expiry'' = ''leaseExpiry''" "camel_case lib ''last_renewal'' = ''lastRenewal''"
    "camel_case lib ''subscription_expiry'' = ''subscriptionExpiry''"
    "camel_case lib ''last_seen'' = ''lastSeen''" "camel_case lib ''dns_name'' = ''dnsName''"
    "camel_case lib ''record_type'' = ''recordType''" "camel_case lib ''record_ttl'' = ''recordTtl''"
    "camel_case lib ''last_transition_time'' = ''lastTransitionTime''"
    "camel_case lib ''protocol'' = ''protocol''" "camel_case lib ''description'' = ''description''"
    "camel_case lib ''type'' = ''type''" "camel_case lib ''status'' = ''status''"
    "camel_case lib ''reason'' = ''reason''" "camel_case lib ''message'' = ''message''"
    "camel_case lib ''active'' = ''active''" "camel_case lib ''conditions'' = ''conditions''"
    "camel_case lib ''ready'' = ''ready''" "camel_case lib ''targets'' = ''targets''"
    "camel_case lib ''endpoints'' = ''endpoints''"
    using
    camel [of "''external''" "[''port'']"] camel [of "''internal''" "[''host'']"]
    camel [of "''internal''" "[''port'']"] camel [of "''lease''" "[''expiry'']"]
    camel [of "''last''" "[''renewal'']"] camel [of "''subscription''" "[''expiry'']"]
    camel [of "''last''" "[''seen'']"] camel [of "''dns''" "[''name'']"] camel [of "''record''" "[''type'']"]
    camel [of "''record''" "[''ttl'']"] camel [of "''last''" "[''transition'', ''time'']"]
    camel [of "''protocol''" "[]"] camel [of "''description''" "[]"] camel [of "''type''" "[]"]
    camel [of "''status''" "[]"] camel [of "''reason''" "[]"] camel [of "''message''" "[]"]
    camel [of "''active''" "[]"] camel [of "''conditions''" "[]"] camel [of "''ready''" "[]"]
    camel [of "''targets''" "[]"] camel [of "''endpoints''" "[]"]
    by (simp_all add: letter_eval)
qed

section \<open>The structs\<close>

lemmas field_defs = required_def defaulted_def optional_def skip_none_def null_or_def

lemmas read_simps = jstring.read_back jbool.read_back ju16.read_back ji64.read_back jtime.read_back jstrings.read_back
  jstring.not_null jbool.not_null ju16.not_null ji64.not_null jtime.not_null jstrings.not_null

interpretation jprotocol: json_codec "protocol_json lib" "protocol_of_json lib" "\<lambda>_. serde_ok lib" for lib
  by unfold_locales (auto simp: protocol_json_def protocol_of_json_def upper_tcp_udp split: protocol.split)

interpretation jspec: json_codec "spec_json lib" "spec_of_json lib" "\<lambda>_. serde_ok lib" for lib
proof unfold_locales
  fix s :: port_mapping_spec assume "serde_ok lib"
  then show "spec_of_json lib (spec_json lib s) = Some s"
    by (cases "spec_description s")
      (simp_all add: spec_of_json_def spec_json_def camel_names field_defs read_simps jprotocol.read_back)
qed (simp add: spec_json_def)

interpretation jcondition: json_codec "condition_json lib" "condition_of_json lib" "\<lambda>_. serde_ok lib" for lib
proof unfold_locales
  fix c :: condition assume "serde_ok lib"
  then show "condition_of_json lib (condition_json lib c) = Some c"
    by (cases "cond_message c"; cases "cond_last_transition_time c")
      (simp_all add: condition_of_json_def condition_json_def camel_names field_defs read_simps)
qed (simp add: condition_json_def)

interpretation jconditions: json_codec "write_array (condition_json lib)" "read_array (condition_of_json lib)"
    "list_all (\<lambda>_. serde_ok lib)" for lib
  by (rule jcondition.array_codec)

interpretation jstatus: json_codec "status_json lib" "status_of_json lib" "\<lambda>_. serde_ok lib" for lib
proof unfold_locales
  fix st :: port_mapping_status assume "serde_ok lib"
  then show "status_of_json lib (status_json lib st) = Some st"
    by (cases "pms_external_ip st"; cases "pms_lease_expiry st"; cases "pms_last_renewal st"; cases "pms_conditions st")
      (simp_all add: status_of_json_def status_json_def camel_names field_defs read_simps jconditions.read_back list_all_iff)
qed (simp add: status_json_def)

interpretation jgateway: json_codec "gateway_json lib" "gateway_of_json lib" "\<lambda>_. serde_ok lib" for lib
proof unfold_locales
  fix st :: gateway_status_status assume "serde_ok lib"
  then show "gateway_of_json lib (gateway_json lib st) = Some st"
    by (cases "gws_external_ip st"; cases "gws_gateway_url st"; cases "gws_subscription_id st";
        cases "gws_subscription_expiry st"; cases "gws_last_seen st"; cases "gws_lan_ip st")
      (simp_all add: gateway_of_json_def gateway_json_def camel_names field_defs read_simps)
qed (simp add: gateway_json_def)

definition endpoint_ok :: "serde_lib \<Rightarrow> endpoint \<Rightarrow> bool" where
  "endpoint_ok lib e \<longleftrightarrow> serde_ok lib \<and> pred_option is_i64 (ep_record_ttl e)"

interpretation jendpoint: json_codec "endpoint_json lib" "endpoint_of_json lib" "endpoint_ok lib" for lib
proof unfold_locales
  fix e :: endpoint assume "endpoint_ok lib e"
  then show "endpoint_of_json lib (endpoint_json lib e) = Some e"
    by (cases "ep_record_ttl e")
      (simp_all add: endpoint_ok_def endpoint_of_json_def endpoint_json_def camel_names field_defs read_simps list_all_iff)
qed (simp add: endpoint_json_def)

interpretation jendpoints: json_codec "write_array (endpoint_json lib)" "read_array (endpoint_of_json lib)"
    "list_all (endpoint_ok lib)" for lib
  by (rule jendpoint.array_codec)

lemma read_spec_endpoints:
  assumes "serde_ok lib" and "json_get ''endpoints'' j = Some (write_array (endpoint_json lib) es)"
    and "list_all (endpoint_ok lib) es"
  shows "dns_spec_of_json lib j = Some es"
  using assms by (simp add: dns_spec_of_json_def camel_names defaulted_def jendpoints.read_back)

lemma endpoint_read_ok:
  assumes "serde_ok lib" and "endpoint_of_json lib j = Some e"
  shows "endpoint_ok lib e"
proof -
  have "is_i64 n" if "read_i64 v = Some n" for v n
    using that by (auto simp: read_i64_def split: json.splits if_splits)
  then have "pred_option is_i64 t" if "optional read_i64 k j = Some t" for k t
    using that by (auto simp: optional_def split: option.splits if_splits)
  with assms show ?thesis by (auto simp: endpoint_of_json_def endpoint_ok_def bind_eq_Some_conv)
qed

lemma read_all_members:
  assumes "read_all dec js = Some xs" and "\<And>j x. dec j = Some x \<Longrightarrow> ok x"
  shows "list_all ok xs"
  using assms(1) by (induction js arbitrary: xs) (auto simp: bind_eq_Some_conv intro: assms(2))

lemma spec_read_ok:
  assumes "serde_ok lib" and "dns_spec_of_json lib j = Some es"
  shows "list_all (endpoint_ok lib) es"
  using assms(2) read_all_members [of "endpoint_of_json lib" _ _ "endpoint_ok lib", OF _ endpoint_read_ok [OF assms(1)]]
  by (auto simp: dns_spec_of_json_def defaulted_def read_array_def split: option.splits json.splits)

section \<open>PortMappings of the watchers\<close>

text \<open>
  C20. The body that a watcher applies and the status that the reconciler writes are written by hand with
  \<open>json!\<close> or by \<open>derive(Serialize)\<close>, and read by \<open>derive(Deserialize)\<close>. An object of the API server with
  the \<open>spec\<close> of a manifest and a status that was written, or none, is read, whatever other fields it
  has, as the PortMapping with the spec and the status that the controllers meant.
\<close>

theorem manifest_read_as_written:
  assumes "serde_ok lib" and "required read_meta ''metadata'' obj = Some meta"
    and "json_get ''spec'' obj = json_get ''spec'' (manifest_json mf)"
    and "json_get ''status'' obj = Option.bind status (\<lambda>st. json_get ''status'' (pm_status_patch lib st))"
  shows "pm_of_json read_meta lib obj = Some \<lparr>pmo_metadata = meta, pmo_spec = mf_spec mf, pmo_status = status\<rparr>"
proof -
  have "required (spec_of_json lib) ''spec'' obj = Some (mf_spec mf)"
    using assms(1,3) by (cases "spec_description (mf_spec mf)"; cases "spec_protocol (mf_spec mf)")
      (simp_all add: manifest_json_def spec_of_json_def protocol_of_json_def upper_tcp_udp camel_names field_defs read_simps)
  moreover have "optional (status_of_json lib) ''status'' obj = Some status"
    using assms(1,4) by (cases status) (simp_all add: pm_status_patch_def optional_def jstatus.read_back jstatus.not_null)
  ultimately show ?thesis using assms(2) by (simp add: pm_of_json_def)
qed

section \<open>The merge patch of a DNSEndpoint\<close>

text \<open>
  JSON merge patch (RFC 7386), which the API server does for \<open>Patch::Merge\<close>: a patch that is not an object
  replaces; of an object each field is merged into the field of the target, or removed by null.
\<close>

definition merge_ok :: "(json \<Rightarrow> json \<Rightarrow> json) \<Rightarrow> bool" where
  "merge_ok merge \<longleftrightarrow>
     (\<forall>t p. (\<forall>fs. p \<noteq> JObject fs) \<longrightarrow> merge t p = p) \<and>
     (\<forall>t fs k. distinct (map fst fs) \<longrightarrow> json_get k (merge t (JObject fs)) =
        (case map_of fs k of
           None \<Rightarrow> json_get k t
         | Some v \<Rightarrow> if v = JNull then None
                     else Some (merge (case json_get k t of None \<Rightarrow> JNull | Some u \<Rightarrow> u) v)))"

lemma merge_array: "merge_ok merge \<Longrightarrow> merge t (JArray js) = JArray js"
  by (simp add: merge_ok_def)

lemma merge_field:
  assumes "merge_ok merge" and "v \<noteq> JNull"
  shows "json_get k (merge t (JObject [(k, v)])) = Some (merge (case json_get k t of None \<Rightarrow> JNull | Some u \<Rightarrow> u) v)"
    and "k' \<noteq> k \<Longrightarrow> json_get k' (merge t (JObject [(k, v)])) = json_get k' t"
  using assms by (simp_all add: merge_ok_def)

text \<open>
  C21. The patch of a DNSEndpoint, seen at the object of the API server: it is read back as the spec that was
  meant, so the controller is content with it, and outside of \<open>spec.endpoints\<close> nothing changes. But the array of the
  records is replaced as a whole, and with it every field that the struct does not have is lost, in records of
  every type: the \<open>recordTTL\<close> of external-dns too, since the name of the field \<open>record_ttl\<close> is \<open>recordTtl\<close>.
\<close>

theorem dns_patch_replaces_records:
  assumes "serde_ok lib" and "merge_ok merge" and "required (dns_spec_of_json lib) ''spec'' obj = Some spec"
  shows "let patched = merge obj (dns_merge_patch lib (build_patched_spec spec ip)) in
    required (dns_spec_of_json lib) ''spec'' patched = Some (build_patched_spec spec ip) \<and>
    (\<forall>k. k \<noteq> ''spec'' \<longrightarrow> json_get k patched = json_get k obj) \<and>
    (\<exists>s s' records. json_get ''spec'' obj = Some s \<and> json_get ''spec'' patched = Some s' \<and>
       (\<forall>k. k \<noteq> ''endpoints'' \<longrightarrow> json_get k s' = json_get k s) \<and>
       json_get ''endpoints'' s' = Some (JArray records) \<and> length records = length spec \<and>
       (\<forall>r \<in> set records. \<forall>k. json_get k r \<noteq> None \<longleftrightarrow> k \<in> {''dnsName'', ''recordType'', ''recordTtl'', ''targets''}))"
proof -
  let ?new = "build_patched_spec spec ip"
  let ?array = "write_array (endpoint_json lib) ?new" and ?patched = "merge obj (dns_merge_patch lib ?new)"
  obtain s where s: "json_get ''spec'' obj = Some s" "dns_spec_of_json lib s = Some spec"
    using assms(3) by (auto simp: required_def bind_eq_Some_conv)
  let ?s = "merge s (JObject [(''endpoints'', ?array)])"
  have patch: "dns_merge_patch lib ?new = JObject [(''spec'', JObject [(''endpoints'', ?array)])]"
    by (simp add: dns_merge_patch_def dns_spec_json_def camel_names assms(1))
  have spec: "json_get ''spec'' ?patched = Some ?s" and other: "k \<noteq> ''spec'' \<Longrightarrow> json_get k ?patched = json_get k obj" for k
    by (simp_all add: patch merge_field [OF assms(2)] s)
  have array: "json_get ''endpoints'' ?s = Some ?array"
    by (simp add: merge_field(1) [OF assms(2) jendpoints.not_null]) (simp add: write_array_def merge_array [OF assms(2)])
  have kept: "k \<noteq> ''endpoints'' \<Longrightarrow> json_get k ?s = json_get k s" for k
    by (rule merge_field(2) [OF assms(2) jendpoints.not_null])
  have "list_all (endpoint_ok lib) ?new"
    using spec_read_ok [OF assms(1) s(2)] by (auto simp: build_patched_spec_def list_all_iff endpoint_ok_def)
  with array have read: "required (dns_spec_of_json lib) ''spec'' ?patched = Some ?new"
    by (simp add: required_def spec read_spec_endpoints [OF assms(1)])
  have records: "\<forall>r \<in> set (map (endpoint_json lib) ?new). \<forall>k. json_get k r \<noteq> None \<longleftrightarrow>
      k \<in> {''dnsName'', ''recordType'', ''recordTtl'', ''targets''}"
    by (auto simp: endpoint_json_def camel_names assms(1))
  have array': "json_get ''endpoints'' ?s = Some (JArray (map (endpoint_json lib) ?new))"
    using array by (simp add: write_array_def)
  have len: "length (map (endpoint_json lib) ?new) = length spec" by (simp add: build_patched_spec_def)
  show ?thesis
    unfolding Let_def
    by (rule conjI, rule read, rule conjI, (intro allI impI, rule other, assumption), rule exI [of _ s], rule exI [of _ ?s],
        rule exI [of _ "map (endpoint_json lib) ?new"], intro conjI allI impI)
      (rule spec s(1) kept array' records len | assumption)+
qed

section \<open>Samples\<close>

text \<open>The merge of RFC 7386, field by field.\<close>

fun merge_patch :: "json \<Rightarrow> json \<Rightarrow> json"
  and merge_fields :: "(string \<times> json) list \<Rightarrow> (string \<times> json) list \<Rightarrow> (string \<times> json) list" where
  "merge_patch t (JObject ps) = JObject (merge_fields (case t of JObject ts \<Rightarrow> ts | _ \<Rightarrow> []) ps)"
| "merge_patch t p = p"
| "merge_fields ts [] = ts"
| "merge_fields ts ((k, v) # ps) = merge_fields
     (if v = JNull then AList.delete k ts
      else AList.update k (merge_patch (case map_of ts k of None \<Rightarrow> JNull | Some u \<Rightarrow> u) v) ts) ps"

lemma merge_fields_lookup:
  "distinct (map fst ps) \<Longrightarrow> map_of (merge_fields ts ps) k =
    (case map_of ps k of None \<Rightarrow> map_of ts k
     | Some v \<Rightarrow> if v = JNull then None else Some (merge_patch (case map_of ts k of None \<Rightarrow> JNull | Some u \<Rightarrow> u) v))"
proof (induction ps arbitrary: ts)
  case (Cons p ps)
  obtain k' v where p: "p = (k', v)" by (cases p)
  have "k' = k \<Longrightarrow> map_of ps k = None" using Cons.prems by (simp add: p map_of_eq_None_iff)
  with Cons show ?case
    by (cases "k' = k") (simp_all add: p delete_conv' update_conv' split: option.split)
qed simp

lemma merge_patch_ok: "merge_ok merge_patch"
proof -
  have "merge_patch t p = p" if "\<forall>fs. p \<noteq> JObject fs" for t p
    using that by (cases p) simp_all
  moreover have "json_get k (merge_patch t (JObject fs)) = (case map_of fs k of None \<Rightarrow> json_get k t
      | Some v \<Rightarrow> if v = JNull then None else Some (merge_patch (case json_get k t of None \<Rightarrow> JNull | Some u \<Rightarrow> u) v))"
    if "distinct (map fst fs)" for t fs k
    using that by (cases t) (simp_all add: merge_fields_lookup json_get_def split: option.split)
  ultimately show ?thesis unfolding merge_ok_def by blast
qed

text \<open>Names as \<open>serde\<close> makes them, and points in time as a decimal number.\<close>

definition sample_camel :: "string \<Rightarrow> string" where
  "sample_camel s = (case split_char (CHR ''_'') s of [] \<Rightarrow> [] | w # ws \<Rightarrow> w @ concat (map capitalised ws))"

definition sample_show :: "datetime \<Rightarrow> string" where
  "sample_show t = (if t < 0 then CHR ''-'' # show_nat (nat (- t)) else show_nat (nat t))"

fun unbounded_value :: "nat \<Rightarrow> string \<Rightarrow> nat option" where
  "unbounded_value acc [] = Some acc"
| "unbounded_value acc (c # s) = Option.bind (digit_val c) (\<lambda>d. unbounded_value (acc * 10 + d) s)"

definition sample_read :: "string \<Rightarrow> datetime option" where
  "sample_read s = (case s of [] \<Rightarrow> None
     | c # r \<Rightarrow> if c = CHR ''-'' then map_option (\<lambda>n. - int n) (unbounded_value 0 r)
               else map_option int (unbounded_value 0 s))"

definition sample_lib :: serde_lib where
  "sample_lib = \<lparr>camel_case = sample_camel, upper_case = map ascii_upper, show_datetime = sample_show,
     read_datetime = sample_read\<rparr>"

lemma unbounded_append:
  "unbounded_value acc (a @ b) = Option.bind (unbounded_value acc a) (\<lambda>v. unbounded_value v b)"
  by (induction a arbitrary: acc) (auto split: Option.bind_splits)

lemma unbounded_show: "unbounded_value 0 (show_nat n) = Some n"
proof (induction n rule: show_nat.induct)
  case (1 n)
  then show ?case by (cases "n < 10") (simp_all add: show_nat.simps [of n] unbounded_append)
qed

lemma sample_read_show: "sample_read (sample_show t) = Some t"
proof -
  obtain c r where digits: "show_nat (nat t) = c # r" using show_nat_nonempty by (metis neq_Nil_conv)
  then have "digit_val c \<noteq> None" using unbounded_show [of "nat t"] by (auto simp: bind_eq_Some_conv)
  then have "c \<noteq> CHR ''-''" by (auto simp: digit_val_def byte_def split: if_splits)
  moreover have "unbounded_value 0 (c # r) = Some (nat t)" using unbounded_show [of "nat t"] digits by simp
  ultimately show ?thesis
    using digits unbounded_show by (simp add: sample_read_def sample_show_def del: unbounded_value.simps)
qed

lemma sample_lib_ok: "serde_ok sample_lib"
proof -
  have "sample_camel (join_char (CHR ''_'') (w # ws)) = w @ concat (map capitalised ws)"
    if "\<forall>v \<in> set (w # ws). v \<noteq> [] \<and> list_all lower_letter v" for w ws
  proof -
    have "\<not> lower_letter (CHR ''_'')" by (simp add: lower_letter_def byte_def)
    with that have "\<forall>v \<in> set (w # ws). CHR ''_'' \<notin> set v" by (fastforce simp: list_all_iff)
    then show ?thesis by (simp add: sample_camel_def split_join)
  qed
  then show ?thesis by (simp add: serde_ok_def sample_lib_def sample_read_show)
qed

text \<open>A PortMapping of a watcher, with a field of the API server and a status.\<close>

definition sample_manifest :: pm_manifest where
  "sample_manifest = desired_manifest
     \<lparr>fo_kind = ''Service'', fo_ns = ''prod'', fo_name = ''web'', fo_uid = ''u1'', fo_backend = ''10.0.0.1''\<rparr>
     ''192.168.0.2'' (8443, 443, Tcp) 30001"

definition sample_object :: json where
  "sample_object = JObject
     [(''apiVersion'', JString ''upnp-controller.io/v1alpha1''), (''kind'', JString ''PortMapping''),
      (''metadata'', JObject [(''name'', JString ''prod-web-8443-tcp''), (''generation'', JNumber 1)]),
      (''spec'', the (json_get ''spec'' (manifest_json sample_manifest))),
      (''status'', status_json sample_lib port_mapping_status_default)]"

theorem manifest_read_as_written_witness:
  "pm_of_json (\<lambda>_. Some (sample_meta None)) sample_lib sample_object = Some \<lparr>pmo_metadata = sample_meta None,
     pmo_spec = \<lparr>spec_external_port = 8443, spec_internal_host = ''192.168.0.2'', spec_internal_port = 30001,
       spec_protocol = Tcp, spec_description = spec_description (mf_spec sample_manifest)\<rparr>,
     pmo_status = Some port_mapping_status_default\<rparr>"
proof -
  have "mf_spec sample_manifest = \<lparr>spec_external_port = 8443, spec_internal_host = ''192.168.0.2'',
      spec_internal_port = 30001, spec_protocol = Tcp, spec_description = spec_description (mf_spec sample_manifest)\<rparr>"
    by (simp add: sample_manifest_def desired_manifest_def desired_protocol_def)
  moreover have "json_get ''spec'' sample_object = json_get ''spec'' (manifest_json sample_manifest)"
    "json_get ''status'' sample_object = Option.bind (Some port_mapping_status_default)
       (\<lambda>st. json_get ''status'' (pm_status_patch sample_lib st))"
    "required (\<lambda>_. Some (sample_meta None)) ''metadata'' sample_object = Some (sample_meta None)"
    by (simp_all add: sample_object_def manifest_json_def pm_status_patch_def required_def)
  ultimately show ?thesis
    using manifest_read_as_written [OF sample_lib_ok, of "\<lambda>_. Some (sample_meta None)" sample_object] by metis
qed

text \<open>The DNSEndpoint of \<open>docs/crds.md\<close>.\<close>

definition docs_endpoint :: json where
  "docs_endpoint = JObject
     [(''kind'', JString ''DNSEndpoint''),
      (''spec'', JObject [(''endpoints'', JArray [JObject
        [(''dnsName'', JString ''home.example.com''), (''recordType'', JString ''A''), (''recordTTL'', JNumber 60),
         (''targets'', JArray [])]])])]"

theorem dns_patch_replaces_records_witness:
  "\<exists>s records. json_get ''spec'' (merge_patch docs_endpoint (dns_merge_patch sample_lib (build_patched_spec
       [\<lparr>ep_dns_name = ''home.example.com'', ep_record_type = ''A'', ep_record_ttl = None, ep_targets = []\<rparr>] ''1.2.3.4'')))
       = Some s \<and> json_get ''endpoints'' s = Some (JArray records) \<and> length records = 1 \<and>
     (\<forall>r \<in> set records. json_get ''recordTTL'' r = None)"
proof -
  have "required (dns_spec_of_json sample_lib) ''spec'' docs_endpoint =
      Some [\<lparr>ep_dns_name = ''home.example.com'', ep_record_type = ''A'', ep_record_ttl = None, ep_targets = []\<rparr>]"
    by (simp add: docs_endpoint_def dns_spec_of_json_def endpoint_of_json_def camel_names [OF sample_lib_ok] field_defs
        read_simps read_array_def)
  from dns_patch_replaces_records [OF sample_lib_ok merge_patch_ok this, of "''1.2.3.4''", unfolded Let_def]
  obtain s records where s: "json_get ''spec'' (merge_patch docs_endpoint (dns_merge_patch sample_lib (build_patched_spec
       [\<lparr>ep_dns_name = ''home.example.com'', ep_record_type = ''A'', ep_record_ttl = None, ep_targets = []\<rparr>] ''1.2.3.4'')))
       = Some s" "json_get ''endpoints'' s = Some (JArray records)" "length records = 1"
    and fields: "\<forall>r \<in> set records. \<forall>k. json_get k r \<noteq> None \<longleftrightarrow>
      k \<in> {''dnsName'', ''recordType'', ''recordTtl'', ''targets''}"
    by (elim conjE exE) simp
  have "json_get ''recordTTL'' r = None" if "r \<in> set records" for r
    using spec [OF bspec [OF fields that], of "''recordTTL''"] by simp
  with s show ?thesis by blast
qed

end
