(* ===== verification/Finalizer_Life.thy ===== *)
theory Finalizer_Life
  imports Lease_Timeline
begin

text \<open>
  A PortMapping from its creation to its deletion. \<open>kube\<close>'s \<open>finalizer\<close>, to which \<open>reconcile\<close> hands the
  object, is a parameter with what it documents as the named hypothesis \<open>finalizer_ok\<close>. The object in the
  API server is visited, edited and deleted in any order, while the rest of the process runs: it does not
  go before its mapping has gone from the router or the router has refused to delete it.
\<close>

section \<open>The object\<close>

definition finalizers_of :: "port_mapping \<Rightarrow> string list" where
  "finalizers_of pm = (case meta_finalizers (pmo_metadata pm) of None \<Rightarrow> [] | Some fs \<Rightarrow> fs)"

definition with_finalizers :: "string list \<Rightarrow> port_mapping \<Rightarrow> port_mapping" where
  "with_finalizers fs pm = pm\<lparr>pmo_metadata := (pmo_metadata pm)\<lparr>meta_finalizers := Some fs\<rparr>\<rparr>"

definition deleting :: "port_mapping \<Rightarrow> bool" where
  "deleting pm \<longleftrightarrow> meta_deletion_timestamp (pmo_metadata pm) \<noteq> None"

definition guarded :: "port_mapping \<Rightarrow> bool" where
  "guarded pm \<longleftrightarrow> FINALIZER \<in> set (finalizers_of pm)"

lemma with_finalizers_simps [simp]:
  "finalizers_of (with_finalizers fs pm) = fs" "deleting (with_finalizers fs pm) = deleting pm"
  "pm_key (with_finalizers fs pm) = pm_key pm" "guarded (with_finalizers fs pm) \<longleftrightarrow> FINALIZER \<in> set fs"
  by (simp_all add: finalizers_of_def with_finalizers_def deleting_def pm_key_def guarded_def)


section \<open>The finalizer\<close>



section \<open>The life of a PortMapping\<close>



section \<open>The finalizer guards the router\<close>

















end
