(* ===== verification/Address_Calls.thy ===== *)
theory Address_Calls
  imports Process_Life
begin

text \<open>
  Polls, notifications and visits to DNSEndpoints that overlap. Between two points where a handler waits
  (for the router, the API server or a lock) other tasks run; here each such section is a step, any
  number of calls are under way, and their steps interleave with each other and with all other events of
  the process. Run without interruption they are \<open>poll_tick\<close>, \<open>handle_notify\<close> and \<open>dns_reconcile\<close>.
\<close>

section \<open>Calls under way\<close>

datatype source = Polled | Announced

text \<open>Where a call is, with its local variables.\<close>

datatype address_call =
    Asking upnp_client              \<comment> \<open>a tick of the polling loop\<close>
  | Announcing string               \<comment> \<open>a notification with this body\<close>
  | Visiting dns_endpoint           \<comment> \<open>a visit of the DNSEndpoint controller\<close>
  | Storing source string           \<comment> \<open>has an address, and waits for the write lock\<close>
  | Noting string bool              \<comment> \<open>before \<open>last_notify\<close>\<close>
  | Seeing string bool              \<comment> \<open>before \<open>gateway_last_seen\<close>\<close>
  | Checking string bool            \<comment> \<open>before the flag of the DNSEndpoint controller\<close>
  | Listing string
  | Patching string "dns_endpoint list"
  | Finished
  | Panicking

fun begins :: "address_call \<Rightarrow> bool" where
  "begins (Asking upnp) = True"
| "begins (Announcing body) = True"
| "begins (Visiting ep) = True"
| "begins _ = False"

fun ends :: "address_call \<Rightarrow> bool" where
  "ends Finished = True"
| "ends Panicking = True"
| "ends _ = False"

fun address_section :: "env \<Rightarrow> address_call \<Rightarrow> (world, address_call) state" where
  "address_section env (Asking upnp) = do {
     r \<leftarrow> get_external_ip env upnp;
     ret (case r of Ok ip \<Rightarrow> Storing Polled ip | Err e \<Rightarrow> Finished | Panicked \<Rightarrow> Panicking)
   }"
| "address_section env (Announcing body) =
     ret (case parse_notify_body body of
            Ok (Some ip) \<Rightarrow> Storing Announced ip | Panicked \<Rightarrow> Panicking | _ \<Rightarrow> Finished)"
| "address_section env (Visiting ep) =
     (if \<not> is_managed ep then ret Finished
      else do {
        wan_ip \<leftarrow> gets (\<lambda>w. es_current_external_ip (w_eventing w));
        ret (case wan_ip of
               None \<Rightarrow> Finished
             | Some wan_ip \<Rightarrow> if \<not> targets_correct (dns_spec ep) wan_ip then Patching wan_ip [ep] else Finished)
      })"
| "address_section env (Storing src ip) = do {
     changed \<leftarrow> store_external_ip ip;
     ret (case src of Polled \<Rightarrow> Seeing ip changed | Announced \<Rightarrow> Noting ip changed)
   }"
| "address_section env (Noting ip changed) = do {
     now \<leftarrow> read_instant env;
     upd_eventing (\<lambda>e. e\<lparr>es_last_notify := Some now\<rparr>);
     ret (Seeing ip changed)
   }"
| "address_section env (Seeing ip changed) = do { set_last_seen env; ret (Checking ip changed) }"
| "address_section env (Checking ip changed) = do {
     active \<leftarrow> gets w_dns_active;
     ret (if changed \<and> active then Listing ip else Finished)
   }"
| "address_section env (Listing ip) = do {
     listed \<leftarrow> kube_list_dns env ListDnsEndpoints;
     ret (case listed of Ok endpoints \<Rightarrow> Patching ip (filter is_managed endpoints) | _ \<Rightarrow> Finished)
   }"
| "address_section env (Patching ip []) = ret Finished"
| "address_section env (Patching ip (ep # eps)) = do { patch_targets env ep ip; ret (Patching ip eps) }"
| "address_section env Finished = ret Finished"
| "address_section env Panicking = ret Panicking"

record address_pool =
  ap_world :: world
  ap_calls :: "address_call list"

datatype address_event =
    Begin address_call
  | Section nat                 \<comment> \<open>the next section of a call\<close>
  | Other event                 \<comment> \<open>a handler of another task\<close>

fun address_step :: "env \<Rightarrow> started_process \<Rightarrow> address_event \<Rightarrow> address_pool \<Rightarrow> address_pool option" where
  "address_step env sp (Begin c) p = (if begins c then Some (p\<lparr>ap_calls := ap_calls p @ [c]\<rparr>) else None)"
| "address_step env sp (Section i) p =
     (if i < length (ap_calls p) \<and> \<not> ends (ap_calls p ! i)
      then (case run_state (address_section env (ap_calls p ! i)) (ap_world p) of
              (c, w) \<Rightarrow> Some \<lparr>ap_world = w, ap_calls = (ap_calls p)[i := c]\<rparr>)
      else None)"
| "address_step env sp (Other ev) p =
     (if brings_address ev then None else Some (p\<lparr>ap_world := after (handle env sp ev) (ap_world p)\<rparr>))"

abbreviation address_run :: "env \<Rightarrow> started_process \<Rightarrow> address_event list \<Rightarrow> address_pool \<Rightarrow> address_pool option" where
  "address_run env sp \<equiv> run_events (address_step env sp)"

section \<open>A call by itself\<close>

primrec finish_sections :: "env \<Rightarrow> nat \<Rightarrow> address_call \<times> world \<Rightarrow> address_call \<times> world" where
  "finish_sections env 0 s = s"
| "finish_sections env (Suc n) s = finish_sections env n (run_state (address_section env (fst s)) (snd s))"

text \<open>What a call comes to: it ends, in this state.\<close>

definition comes_to :: "env \<Rightarrow> address_call \<times> world \<Rightarrow> address_call \<Rightarrow> world \<Rightarrow> bool" where
  "comes_to env s c w \<longleftrightarrow> ends c \<and> (\<exists>n. finish_sections env n s = (c, w))"

lemma comes_to_step:
  "comes_to env (run_state (address_section env c) w) d v \<Longrightarrow> comes_to env (c, w) d v"
  by (auto simp: comes_to_def intro: exI [of _ "Suc _"])

lemma comes_to_end: "ends c \<Longrightarrow> comes_to env (c, w) c w"
  by (auto simp: comes_to_def intro: exI [of _ 0])

lemma patching_comes_to:
  "comes_to env (Patching ip eps, w) Finished (w\<lparr>w_calls := w_calls w @ map (dns_patch ip) eps\<rparr>)"
proof (induction eps arbitrary: w)
  case Nil
  show ?case by (rule comes_to_step) (simp add: comes_to_end)
next
  case (Cons ep eps)
  from Cons.IH [of "log_call (dns_patch ip ep) w"] show ?case
    by (intro comes_to_step) (simp add: log_call_def)
qed

lemma listing_comes_to:
  "comes_to env (Listing ip, w) Finished (after (update_all_managed env ip) w)"
proof (rule comes_to_step, cases "list_dns_answer env (w_calls w) ListDnsEndpoints")
  case (Inl e)
  then show "comes_to env (run_state (address_section env (Listing ip)) w) Finished (after (update_all_managed env ip) w)"
    by (simp add: after_def kube_list_dns_def run_update_all_managed dns_push_def log_call_def comes_to_end)
next
  case (Inr eps)
  then show "comes_to env (run_state (address_section env (Listing ip)) w) Finished (after (update_all_managed env ip) w)"
    using patching_comes_to [of env ip "filter is_managed eps" "log_call (Kube ListDnsEndpoints) w"]
    by (simp add: after_def kube_list_dns_def run_update_all_managed dns_push_def log_call_def)
qed

lemma seeing_comes_to:
  "comes_to env (Seeing ip changed, w) Finished (after (push_to_dns env changed ip) (after (set_last_seen env) w))"
  by (rule comes_to_step, simp, rule comes_to_step)
    (use listing_comes_to in \<open>auto simp: after_def push_to_dns_def seen_def comes_to_end split: if_splits\<close>)

lemma storing_comes_to:
  "comes_to env (Storing Polled ip, w) Finished
     (after (do { changed \<leftarrow> store_external_ip ip; set_last_seen env; push_to_dns env changed ip }) w)"
  by (rule comes_to_step) (use seeing_comes_to in \<open>simp add: after_def\<close>)

lemma noting_comes_to:
  "comes_to env (Storing Announced ip, w) Finished
     (after (do { changed \<leftarrow> store_external_ip ip; now \<leftarrow> read_instant env;
        upd_eventing (\<lambda>e. e\<lparr>es_last_notify := Some now\<rparr>); set_last_seen env; push_to_dns env changed ip }) w)"
  by (rule comes_to_step, simp, rule comes_to_step)
    (use seeing_comes_to [of env ip "current_ip w \<noteq> Some ip" "(log_call InstantNow (address_stored ip w))\<lparr>w_eventing :=
        (w_eventing (address_stored ip w))\<lparr>es_last_notify := Some (instant_now env (w_calls (address_stored ip w)))\<rparr>\<rparr>"]
      in \<open>simp add: after_def read_instant_def upd_eventing_def\<close>)

text \<open>
  A call that is not interrupted is the handler of the theory \<open>Main_Loop\<close> or \<open>Dns_Endpoint\<close>: it ends, in the
  same state, and in a panic exactly if the handler panics.
\<close>

lemma uninterrupted_poll:
  "comes_to env (Asking upnp, w) (if fst (run_state (poll_tick env upnp) w) = Panicked then Panicking else Finished)
     (after (poll_tick env upnp) w)"
proof (rule comes_to_step)
  obtain r u where get: "run_state (get_external_ip env upnp) w = (r, u)" by (cases "run_state (get_external_ip env upnp) w")
  show "comes_to env (run_state (address_section env (Asking upnp)) w)
     (if fst (run_state (poll_tick env upnp) w) = Panicked then Panicking else Finished) (after (poll_tick env upnp) w)"
  proof (cases r)
    case (Ok ip)
    with get storing_comes_to [of env ip u] show ?thesis
      by (auto simp: poll_tick_def after_def split: prod.splits)
  qed (simp_all add: get poll_tick_def after_def comes_to_end)
qed

lemma uninterrupted_notification:
  "comes_to env (Announcing body, w) (if fst (run_state (handle_notify env body) w) = Panicked then Panicking else Finished)
     (after (handle_notify env body) w)"
proof (rule comes_to_step)
  show "comes_to env (run_state (address_section env (Announcing body)) w)
     (if fst (run_state (handle_notify env body) w) = Panicked then Panicking else Finished) (after (handle_notify env body) w)"
  proof (cases "\<exists>ip. parse_notify_body body = Ok (Some ip)")
    case True
    then obtain ip where "parse_notify_body body = Ok (Some ip)" ..
    with noting_comes_to [of env ip w] show ?thesis
      by (auto simp: handle_notify_def after_def split: prod.splits)
  next
    case False
    then show ?thesis
      by (auto simp: handle_notify_def after_def comes_to_end split: outcome.splits option.splits)
  qed
qed

lemma uninterrupted_visit:
  "comes_to env (Visiting ep, w) Finished (after (dns_reconcile env ep) w)"
  by (rule comes_to_step)
    (use patching_comes_to [of env _ "[ep]" w] in
      \<open>auto simp: dns_reconcile_def after_def comes_to_end log_call_def split: option.splits\<close>)

section \<open>The stored address in all interleavings\<close>

text \<open>The addresses that a step stores, and what storing one does to the address and the counter.\<close>

fun stores :: "address_event \<Rightarrow> address_pool \<Rightarrow> string list" where
  "stores (Section i) p =
     (if i < length (ap_calls p) then (case ap_calls p ! i of Storing src ip \<Rightarrow> [ip] | _ \<Rightarrow> []) else [])"
| "stores _ p = []"

definition store_step :: "string option \<times> nat \<Rightarrow> string \<Rightarrow> string option \<times> nat \<Rightarrow> bool" where
  "store_step = (\<lambda>(current, changes) ip s. s = (Some ip, if current = Some ip then changes else Suc changes))"

lemma section_address:
  assumes "run_state (address_section env c) w = (d, v)"
  shows "spec_run store_step (address_of w) (case c of Storing src ip \<Rightarrow> [ip] | _ \<Rightarrow> []) (address_of v)"
proof -
  have kept: "same_address w v" if "state_io_rel same_address (address_section env c)"
    using state_io_relD [OF that assms] .
  show ?thesis
  proof (cases "\<exists>src ip. c = Storing src ip")
    case True
    with assms show ?thesis
      by (auto simp: store_step_def address_of_def address_stored_def current_ip_def)
  next
    case False
    have "state_io_rel same_address (upd_eventing (\<lambda>e. e\<lparr>es_last_notify := Some t\<rparr>))" for t
      by (simp add: state_io_rel_def upd_eventing_def same_address_def address_of_def current_ip_def)
    with False have "state_io_rel same_address (address_section env c)"
      by (cases "(env, c)" rule: address_section.cases)
        (auto simp: patch_targets_def set_last_seen_def Let_def intro!: same_address.keeps same_address.keeps_upnp)
    with kept False show ?thesis by (auto simp: same_address_def split: address_call.splits)
  qed
qed

lemma other_address:
  assumes "\<not> brings_address ev"
  shows "address_of (after (handle env sp ev) w) = address_of w"
proof (cases "ev = Shutdown")
  case True
  then show ?thesis by (simp add: shutdown_def address_of_def current_ip_def)
next
  case False
  with assms have "task_for ev \<noteq> None" by (cases ev) auto
  from labels_keep_address [OF handle_steps [OF this]] assms show ?thesis by simp
qed

interpretation addresses: refinement_map "address_step env sp" "\<lambda>_. True" "\<lambda>p. address_of (ap_world p)" stores store_step for env sp
proof unfold_locales
  fix p ev p'
  assume step: "address_step env sp ev p = Some p'"
  show "spec_run store_step (address_of (ap_world p)) (stores ev p) (address_of (ap_world p'))"
  proof (cases ev)
    case (Section i)
    with step obtain c v where "i < length (ap_calls p)" "run_state (address_section env (ap_calls p ! i)) (ap_world p) = (c, v)"
      "p' = \<lparr>ap_world = v, ap_calls = (ap_calls p)[i := c]\<rparr>"
      by (auto split: if_splits prod.splits)
    with Section section_address [of env "ap_calls p ! i" "ap_world p" c v] show ?thesis by simp
  qed (use step in \<open>auto simp: other_address split: if_splits\<close>)
qed simp

fun changes :: "string option \<Rightarrow> string list \<Rightarrow> nat" where
  "changes current [] = 0"
| "changes current (ip # ips) = (if current = Some ip then 0 else 1) + changes (Some ip) ips"

lemma store_run:
  "spec_run store_step s ips t \<Longrightarrow>
     t = (if ips = [] then fst s else Some (last ips), snd s + changes (fst s) ips)"
proof (induction ips arbitrary: s)
  case (Cons ip ips)
  from Cons.prems obtain u where "store_step s ip u" "spec_run store_step u ips t" by auto
  with Cons.IH [of u] show ?case by (auto simp: store_step_def split: prod.splits if_splits)
qed simp

text \<open>The address that a call is going to push.\<close>

fun pushing :: "address_call \<Rightarrow> string option" where
  "pushing (Noting ip changed) = Some ip"
| "pushing (Seeing ip changed) = Some ip"
| "pushing (Checking ip changed) = Some ip"
| "pushing (Listing ip) = Some ip"
| "pushing (Patching ip eps) = Some ip"
| "pushing _ = None"

definition pushes_stored :: "string set \<Rightarrow> address_pool \<Rightarrow> bool" where
  "pushes_stored S p \<longleftrightarrow>
     set_option (current_ip (ap_world p)) \<subseteq> S \<and> (\<forall>c \<in> set (ap_calls p). set_option (pushing c) \<subseteq> S)"

lemma section_pushes:
  assumes "run_state (address_section env c) w = (d, v)"
  shows "set_option (pushing d) \<subseteq> set_option (pushing c) \<union> set_option (current_ip w) \<union>
    set (case c of Storing src ip \<Rightarrow> [ip] | _ \<Rightarrow> [])"
  using assms
  by (cases "(env, c)" rule: address_section.cases)
    (auto simp: current_ip_def split: prod.splits outcome.splits option.splits if_splits source.splits)

lemma step_pushes:
  assumes "address_step env sp ev p = Some p'" and known: "pushes_stored S p"
  shows "pushes_stored (S \<union> set (stores ev p)) p'"
proof (cases ev)
  case (Begin c)
  with assms show ?thesis by (cases c) (auto simp: pushes_stored_def)
next
  case (Section i)
  with assms(1) obtain c v where step: "i < length (ap_calls p)"
    "run_state (address_section env (ap_calls p ! i)) (ap_world p) = (c, v)"
    "p' = \<lparr>ap_world = v, ap_calls = (ap_calls p)[i := c]\<rparr>"
    by (auto split: if_splits prod.splits)
  have "set_option (pushing (ap_calls p ! i)) \<subseteq> S" "set_option (current_ip (ap_world p)) \<subseteq> S"
    using known step(1) by (simp_all add: pushes_stored_def)
  moreover have "set (stores ev p) = set (case ap_calls p ! i of Storing src ip \<Rightarrow> [ip] | _ \<Rightarrow> [])"
    by (simp add: Section step(1))
  ultimately have "set_option (pushing c) \<subseteq> S \<union> set (stores ev p)"
    using section_pushes [OF step(2)] by blast
  moreover have "set_option (current_ip v) \<subseteq> S \<union> set (stores ev p)"
    using section_address [OF step(2)] known
    by (auto simp: Section step(1) address_of_def store_step_def pushes_stored_def split: address_call.splits)
  moreover have "set_option (pushing d) \<subseteq> S" if "d \<in> set (ap_calls p)" for d
    using known that by (simp add: pushes_stored_def)
  moreover have "set ((ap_calls p)[i := c]) \<subseteq> insert c (set (ap_calls p))" by (rule set_update_subset_insert)
  ultimately show ?thesis unfolding pushes_stored_def step(3) by (simp del: stores.simps) blast
next
  case (Other e)
  with assms other_address [of e env sp "ap_world p"] show ?thesis
    by (auto simp: pushes_stored_def address_of_def split: if_splits)
qed

lemma run_pushes:
  assumes "address_run env sp evs p = Some p'" and "pushes_stored S p"
  shows "pushes_stored (S \<union> set (run_labels (address_step env sp) stores evs p)) p'"
  using assms
proof (induction evs arbitrary: p S)
  case (Cons ev evs)
  from Cons.prems(1) obtain u where u: "address_step env sp ev p = Some u" "address_run env sp evs u = Some p'"
    by (rule run_events_ConsE)
  from Cons.IH [OF u(2) step_pushes [OF u(1) Cons.prems(2)]] u(1) show ?case by (simp add: Un_assoc)
qed simp

definition idle :: "world \<Rightarrow> address_pool" where
  "idle w = \<lparr>ap_world = w, ap_calls = []\<rparr>"

text \<open>
  C17. However polls, notifications and visits overlap with each other and with the rest of the process,
  the address is a register: it holds the one stored last, a change is counted exactly where a stored
  address differs from the one before, none twice and none lost, and what is pushed to the DNSEndpoints
  is always an address that was stored.
\<close>

theorem overlapping_addresses_counted:
  assumes "address_run env sp evs (idle w) = Some p"
    and "ips = run_labels (address_step env sp) stores evs (idle w)"
  shows "current_ip (ap_world p) = (if ips = [] then current_ip w else Some (last ips)) \<and>
    mt_wan_ip_changes (w_metrics (ap_world p)) = mt_wan_ip_changes (w_metrics w) + changes (current_ip w) ips \<and>
    (\<forall>c \<in> set (ap_calls p). \<forall>ip. pushing c = Some ip \<longrightarrow> ip \<in> set ips \<or> current_ip w = Some ip)"
proof -
  have "pushes_stored (set_option (current_ip w)) (idle w)" by (simp add: pushes_stored_def idle_def)
  from run_pushes [OF assms(1) this] store_run [OF addresses.refines [OF TrueI assms(1)]] show ?thesis
    by (auto simp: assms(2) address_of_def idle_def pushes_stored_def)
qed

section \<open>Overtaking\<close>

text \<open>A poll asks the router; while its answer waits for the lock, a notification stores a newer address.\<close>

definition late_poll :: "upnp_client \<Rightarrow> string \<Rightarrow> address_event list" where
  "late_poll upnp body =
     [Begin (Asking upnp), Section 0, Begin (Announcing body), Section 1, Section 1, Section 0]"

text \<open>
  C39. An answer that the router gave before it announced a new address can be stored after it: the old
  address then replaces the new one, counts as a change, and is pushed to the DNSEndpoints.
\<close>

theorem late_poll_restores_old_address:
  assumes answer: "and_then (soap_result (http_answer env (w_calls w) (ip_request upnp))) parse_external_ip = Ok old"
    and body: "parse_notify_body body = Ok (Some new)" and "old \<noteq> new" and "current_ip w = Some old"
  shows "\<exists>p. address_run env sp (late_poll upnp body) (idle w) = Some p \<and>
    current_ip (ap_world p) = Some old \<and> ap_calls p = [Seeing old True, Noting new True] \<and>
    mt_wan_ip_changes (w_metrics (ap_world p)) = mt_wan_ip_changes (w_metrics w) + 2"
proof -
  have get: "run_state (get_external_ip env upnp) w = (Ok old, log_call (Http (ip_request upnp)) w)"
    unfolding wp_eq_run [symmetric] by (simp add: wp_simps answer)
  show ?thesis
    using assms(3,4) by (simp add: late_poll_def idle_def get body address_stored_def current_ip_def)
qed

text \<open>Two notifications, of which the first stores first and pushes last.\<close>

definition crossed :: "string \<Rightarrow> string \<Rightarrow> address_event list" where
  "crossed first second =
     [Begin (Announcing first), Begin (Announcing second), Section 0, Section 0, Section 1, Section 1] @
     replicate 5 (Section 1) @ replicate 5 (Section 0)"

text \<open>
  C40. Pushes can overtake each other: the older of two addresses is then the last to be written to a
  DNSEndpoint, while the newer one is stored. But a patch makes the runtime visit the object, and that
  visit writes the stored address.
\<close>

theorem crossed_pushes_are_repaired:
  assumes "parse_notify_body first = Ok (Some a)" and "parse_notify_body second = Ok (Some b)"
    and "a \<noteq> b" and "current_ip w \<noteq> Some a" and "w_dns_active w"
    and lists: "\<forall>h. list_dns_answer env h ListDnsEndpoints = Inr [ep]" and managed: "is_managed ep"
    and wrong: "\<not> targets_correct (build_patched_spec (dns_spec ep) a) b"
  shows "\<exists>p. address_run env sp (crossed first second) (idle w) = Some p \<and> current_ip (ap_world p) = Some b \<and>
    last (w_calls (ap_world p)) = dns_patch a ep \<and>
    w_calls (after (dns_reconcile env (ep\<lparr>dns_spec := build_patched_spec (dns_spec ep) a\<rparr>)) (ap_world p)) =
      w_calls (ap_world p) @ [dns_patch b (ep\<lparr>dns_spec := build_patched_spec (dns_spec ep) a\<rparr>)]"
proof -
  let ?ep = "ep\<lparr>dns_spec := build_patched_spec (dns_spec ep) a\<rparr>"
  have "is_managed ?ep" using managed by (simp add: is_managed_def)
  then have visit: "w_calls (after (dns_reconcile env ?ep) v) = w_calls v @ [dns_patch b ?ep]" if "current_ip v = Some b" for v
    using that wrong by (simp add: after_def dns_reconcile_def current_ip_def)
  have "\<exists>p. address_run env sp (crossed first second) (idle w) = Some p \<and> current_ip (ap_world p) = Some b \<and>
    last (w_calls (ap_world p)) = dns_patch a ep"
    using assms(1-5) lists managed
    by (simp add: crossed_def idle_def eval_nat_numeral address_stored_def current_ip_def seen_def read_instant_def
        upd_eventing_def kube_list_dns_def)
  then show ?thesis using visit by blast
qed

section \<open>Witnesses\<close>

definition announced :: "string \<Rightarrow> string" where
  "announced ip = ''<NewExternalIPAddress>'' @ ip @ ''</NewExternalIPAddress>''"

lemma announced_samples [simp]:
  "parse_notify_body (announced ''1.2.3.4'') = Ok (Some ''1.2.3.4'')"
  "parse_notify_body (announced ''5.6.7.9'') = Ok (Some ''5.6.7.9'')"
proof -
  have "trim ''1.2.3.4'' = ''1.2.3.4''" "trim ''5.6.7.9'' = ''5.6.7.9''"
    by (rule trim_visible; simp add: visible_def byte_def)+
  then show "parse_notify_body (announced ''1.2.3.4'') = Ok (Some ''1.2.3.4'')"
    "parse_notify_body (announced ''5.6.7.9'') = Ok (Some ''5.6.7.9'')"
    by (simp_all add: announced_def parse_notify_body_def notify_tag_def open_tag_def close_tag_def str_slice_def
      is_char_boundary_def is_cont_def byte_def)
qed

text \<open>The router still answers \<open>5.6.7.8\<close>, which is stored, and then announces \<open>5.6.7.9\<close>.\<close>

definition settled :: world where
  "settled = (world_new ''ip'')\<lparr>w_dns_active := True, w_eventing := eventing_state_new\<lparr>es_current_external_ip := Some ''5.6.7.8''\<rparr>\<rparr>"

lemma settled_simps [simp]: "current_ip settled = Some ''5.6.7.8''" "w_dns_active settled" "mt_wan_ip_changes (w_metrics settled) = 0"
  by (simp_all add: settled_def current_ip_def world_new_def metrics_new_def)

lemma moved_env_answers:
  "and_then (soap_result (http_answer moved_env h rq)) parse_external_ip = Ok ''5.6.7.8''"
  "list_dns_answer moved_env h c = Inr [sample_dns ''1.2.3.4'']"
  using moved_answer by (simp_all add: moved_env_def soap_result_def)

theorem late_poll_restores_old_address_witness:
  "\<exists>p. address_run moved_env sample_started (late_poll (upnp_client_new ''u'') (announced ''5.6.7.9'')) (idle settled) = Some p \<and>
     current_ip (ap_world p) = Some ''5.6.7.8'' \<and> mt_wan_ip_changes (w_metrics (ap_world p)) = 2"
  using late_poll_restores_old_address [OF moved_env_answers(1) announced_samples(2), of settled sample_started "upnp_client_new ''u''"]
  by auto

lemma moved_env_asked:
  "run_state (get_external_ip moved_env upnp) w = (Ok ''5.6.7.8'', log_call (Http (ip_request upnp)) w)"
  unfolding wp_eq_run [symmetric] by (simp add: wp_simps moved_env_answers)

theorem overlapping_addresses_counted_witness:
  "\<exists>p. address_run moved_env sample_started (late_poll (upnp_client_new ''u'') (announced ''5.6.7.9'')) (idle settled) = Some p \<and>
     current_ip (ap_world p) = Some ''5.6.7.8'' \<and>
     mt_wan_ip_changes (w_metrics (ap_world p)) = changes (Some ''5.6.7.8'') [''5.6.7.9'', ''5.6.7.8'']"
proof -
  let ?evs = "late_poll (upnp_client_new ''u'') (announced ''5.6.7.9'')"
  have labels: "[''5.6.7.9'', ''5.6.7.8''] = run_labels (address_step moved_env sample_started) stores ?evs (idle settled)"
    and "address_run moved_env sample_started ?evs (idle settled) \<noteq> None"
    by (simp_all add: late_poll_def idle_def moved_env_asked)
  then obtain p where run: "address_run moved_env sample_started ?evs (idle settled) = Some p" by blast
  from overlapping_addresses_counted [OF run labels] run show ?thesis by simp
qed

theorem crossed_pushes_are_repaired_witness:
  "\<exists>p. address_run moved_env sample_started (crossed (announced ''1.2.3.4'') (announced ''5.6.7.9'')) (idle settled) = Some p \<and>
     current_ip (ap_world p) = Some ''5.6.7.9'' \<and> last (w_calls (ap_world p)) = dns_patch ''1.2.3.4'' (sample_dns ''1.2.3.4'')"
proof -
  have "is_managed (sample_dns t)" for t by (simp add: is_managed_def annotation_def sample_dns_def)
  moreover have "\<not> targets_correct (build_patched_spec (dns_spec (sample_dns ''1.2.3.4'')) ''1.2.3.4'') ''5.6.7.9''"
    by (simp add: targets_correct_def build_patched_spec_def sample_dns_def)
  ultimately show ?thesis
    using crossed_pushes_are_repaired [OF announced_samples, of settled moved_env "sample_dns ''1.2.3.4''" sample_started]
    by (auto simp: moved_env_answers)
qed

end
