(* ===== verification/Dns_Run.thy ===== *)
theory Dns_Run
  imports Dns_Endpoint Event_Systems
begin

text \<open>
  The task of the DNSEndpoint controller, \<open>run\<close> and \<open>wait_for_crd\<close> of
  \<open>src/controllers/dns_endpoint_ctrl.rs\<close>: it waits for the CRD, raises the flag \<open>active\<close> that the
  poll and the NOTIFY handler look at, runs the controller, and lowers the flag when that ends. The
  items of \<open>kube\<close>'s watch stream, the answer to the \<open>get\<close> and the end of the controller are events.
\<close>

section \<open>Waiting for the CRD\<close>

definition CRD_NAME :: string where
  "CRD_NAME = ''dnsendpoints.externaldns.k8s.io''"

text \<open>\<open>watcher::Event\<close>, with \<open>metadata.name\<close> of the CRD where there is one.\<close>

datatype watch_event =
    WatchApply "string option"
  | WatchDelete "string option"
  | WatchInit
  | WatchInitApply "string option"
  | WatchInitDone

text \<open>What \<open>stream.try_next().await\<close> gives: \<open>Ok(Some(_))\<close>, \<open>Err(_)\<close> or \<open>Ok(None)\<close>.\<close>

datatype stream_item = StreamEvent watch_event | StreamError | StreamEnd

text \<open>The items on which the loop of \<open>wait_for_crd\<close> returns, or is left.\<close>

fun ends_wait :: "stream_item \<Rightarrow> bool" where
  "ends_wait (StreamEvent (WatchApply name)) \<longleftrightarrow> name = Some CRD_NAME"
| "ends_wait (StreamEvent _) \<longleftrightarrow> False"
| "ends_wait StreamError \<longleftrightarrow> True"
| "ends_wait StreamEnd \<longleftrightarrow> True"

text \<open>Whether \<open>wait_for_crd\<close> has returned, after the \<open>get\<close> and the items so far.\<close>

definition wait_for_crd :: "bool \<Rightarrow> stream_item list \<Rightarrow> bool" where
  "wait_for_crd get_ok items \<longleftrightarrow> get_ok \<or> list_ex ends_wait items"

section \<open>The loop\<close>

datatype dns_phase = GettingCrd | WatchingCrd | Controlling

record dns_task =
  dt_phase :: dns_phase
  dt_active :: bool

definition dns_task_new :: dns_task where
  "dns_task_new = \<lparr>dt_phase = GettingCrd, dt_active = False\<rparr>"

datatype dns_event =
    CrdGot bool                  \<comment> \<open>\<open>crd_api.get(CRD_NAME).await.is_ok()\<close>\<close>
  | CrdItem stream_item
  | ControllerEnded

definition controlling :: dns_task where
  "controlling = \<lparr>dt_phase = Controlling, dt_active = True\<rparr>"

fun dns_run :: "dns_event \<Rightarrow> dns_task \<Rightarrow> dns_task option" where
  "dns_run (CrdGot ok) t =
     (if dt_phase t = GettingCrd then Some (if ok then controlling else t\<lparr>dt_phase := WatchingCrd\<rparr>) else None)"
| "dns_run (CrdItem item) t =
     (if dt_phase t = WatchingCrd then Some (if ends_wait item then controlling else t) else None)"
| "dns_run ControllerEnded t = (if dt_phase t = Controlling then Some dns_task_new else None)"

text \<open>The flag is up exactly while the controller runs.\<close>

interpretation dns_flag: step_invariant dns_run "\<lambda>t. dt_active t \<longleftrightarrow> dt_phase t = Controlling"
proof
  show "dt_active u \<longleftrightarrow> dt_phase u = Controlling"
    if "dt_active t \<longleftrightarrow> dt_phase t = Controlling" "dns_run e t = Some u" for t e u
    using that by (cases e) (auto simp: controlling_def dns_task_new_def split: if_splits)
qed

lemma dns_flag_is_controller:
  "run_events dns_run evs dns_task_new = Some t \<Longrightarrow> dt_active t \<longleftrightarrow> dt_phase t = Controlling"
  using dns_flag.inv_run [of dns_task_new evs t] by (simp add: dns_task_new_def)

text \<open>Items that do not end the wait leave the task waiting; the first that does starts the controller.\<close>

lemma dns_waits:
  "dt_phase t = WatchingCrd \<Longrightarrow> \<not> list_ex ends_wait items \<Longrightarrow> run_events dns_run (map CrdItem items) t = Some t"
  by (induction items) auto

lemma dns_starts:
  assumes "dt_phase t = WatchingCrd" and "\<not> list_ex ends_wait items" and "ends_wait item"
  shows "run_events dns_run (map CrdItem (items @ [item])) t = Some controlling"
  using assms by (simp add: run_events_snoc dns_waits)

text \<open>
  The flag that lets a new address be pushed to the DNSEndpoints is up exactly while the controller
  runs, and the controller starts exactly when \<open>wait_for_crd\<close> returns: at once if the CRD was there
  to get, and otherwise at the first item that is an \<open>Apply\<close> of the CRD or an error or the end of the
  stream. So an error of the watch starts it without the CRD, and a CRD that is created before the
  watch has listed, and hence is announced by \<open>InitApply\<close>, does not start it.
\<close>

lemma dns_controller_starts_iff:
  assumes "\<not> list_ex ends_wait items"
  shows "(run_events dns_run [CrdGot True] dns_task_new = Some controlling) \<and>
    (\<exists>t. run_events dns_run (CrdGot False # map CrdItem items) dns_task_new = Some t \<and> \<not> dt_active t) \<and>
    (\<exists>t. run_events dns_run (CrdGot False # map CrdItem (items @ [item])) dns_task_new = Some t \<and>
       (dt_active t \<longleftrightarrow> item \<in> {StreamEvent (WatchApply (Some CRD_NAME)), StreamError, StreamEnd}))"
proof -
  let ?t = "dns_task_new\<lparr>dt_phase := WatchingCrd\<rparr>"
  have start: "dt_phase ?t = WatchingCrd" "\<not> dt_active ?t" by (simp_all add: dns_task_new_def)
  have got: "run_events dns_run (CrdGot False # evs) dns_task_new = run_events dns_run evs ?t" for evs
    by (simp add: dns_task_new_def)
  have last: "run_events dns_run (map CrdItem (items @ [item])) ?t = Some (if ends_wait item then controlling else ?t)"
    using dns_starts [OF start(1) assms, of item] dns_waits [OF start(1), of "items @ [item]"] assms by simp
  have "ends_wait item \<longleftrightarrow> item \<in> {StreamEvent (WatchApply (Some CRD_NAME)), StreamError, StreamEnd}"
    by (cases item rule: ends_wait.cases) auto
  moreover have "run_events dns_run [CrdGot True] dns_task_new = Some controlling"
    by (simp add: dns_task_new_def)
  ultimately show ?thesis
    unfolding got last using dns_waits [OF start(1) assms] start(2) by (auto simp: controlling_def)
qed

lemma dns_controller_starts_iff_witness:
  "\<exists>t. run_events dns_run (CrdGot False # map CrdItem ([StreamEvent (WatchInitApply (Some CRD_NAME))] @ [StreamError])) dns_task_new = Some t \<and>
     dt_active t"
  using dns_controller_starts_iff [of "[StreamEvent (WatchInitApply (Some CRD_NAME))]" StreamError] by auto

end
