(* ===== verification/Node_Annotation.thy ===== *)
theory Node_Annotation
  imports World
begin

text \<open>
  The node annotation of \<open>src/node.rs\<close>: two functions, called from nowhere, that write the WAN address
  into an annotation of a node and remove it again with a merge patch.
\<close>

definition ANNOTATION_KEY :: string where
  "ANNOTATION_KEY = ''upnp-controller.io/wan-ip''"

definition annotate_node_with_wan_ip :: "env \<Rightarrow> string \<Rightarrow> string \<Rightarrow> (world, (string, unit) outcome) state" where
  "annotate_node_with_wan_ip env node_name wan_ip =
     kube_unit env (PatchNodeAnnotation node_name ANNOTATION_KEY (Some wan_ip))"

definition remove_node_annotation :: "env \<Rightarrow> string \<Rightarrow> (world, (string, unit) outcome) state" where
  "remove_node_annotation env node_name =
     kube_unit env (PatchNodeAnnotation node_name ANNOTATION_KEY None)"

text \<open>
  What the patches mean for the annotations of the nodes, by the documented meaning of a JSON merge
  patch: a string replaces the value of the key, \<open>null\<close> removes it, the other keys are kept.
\<close>

fun merge_call :: "call \<Rightarrow> (string \<Rightarrow> string \<rightharpoonup> string) \<Rightarrow> string \<Rightarrow> string \<rightharpoonup> string" where
  "merge_call (Kube (PatchNodeAnnotation node key v)) as = as(node := (as node)(key := v))"
| "merge_call _ as = as"

text \<open>Removing the annotation after writing it leaves every node as it would be without it.\<close>

lemma annotation_removed_again:
  assumes "run_state (annotate_node_with_wan_ip env node ip) w = (r, v)"
    and "run_state (remove_node_annotation env node) v = (q, u)"
  shows "\<exists>cs. w_calls u = w_calls w @ cs \<and>
    fold merge_call cs as = as(node := (as node)(ANNOTATION_KEY := None)) \<and>
    (r = Ok () \<longleftrightarrow> kube_answer env (w_calls w) (PatchNodeAnnotation node ANNOTATION_KEY (Some ip)) = Inr ())"
proof -
  have "w_calls u = w_calls w @ [Kube (PatchNodeAnnotation node ANNOTATION_KEY (Some ip)), Kube (PatchNodeAnnotation node ANNOTATION_KEY None)]"
    "r = sum_outcome (kube_answer env (w_calls w) (PatchNodeAnnotation node ANNOTATION_KEY (Some ip)))"
    using assms by (auto simp: annotate_node_with_wan_ip_def remove_node_annotation_def kube_unit_def)
  then show ?thesis by simp
qed

end
