(* ===== verification/Unit_Tests.thy ===== *)
theory Unit_Tests
  imports Annotations Dns_Endpoint Discovery Config_Model Eventing Sample_Env
begin

text \<open>
  The unit tests of the repository, as statements about the model: every test module of the pure
  functions is translated assertion by assertion, and all the assertions hold. So the definitions of
  this development agree with the code on the inputs its authors chose.
\<close>

section \<open>Evaluation\<close>

text \<open>\<open>split_char\<close> with an accumulator, which the simplifier evaluates in one pass.\<close>

fun split_acc :: "char \<Rightarrow> string \<Rightarrow> string \<Rightarrow> string list" where
  "split_acc d acc [] = [rev acc]"
| "split_acc d acc (c # s) = (if c = d then rev acc # split_acc d [] s else split_acc d (c # acc) s)"

lemma split_acc_eq: "split_acc d acc s = (rev acc @ hd (split_char d s)) # tl (split_char d s)"
  by (induction s arbitrary: acc) simp_all

lemma split_char_eval: "split_char d s = split_acc d [] s"
  by (simp add: split_acc_eq)

section \<open>The port-forward annotation\<close>

text \<open>\<open>tests\<close> of \<open>src/controllers/port_mapping_ctrl.rs\<close>.\<close>

definition tcp_port :: "i32 \<Rightarrow> service_port" where
  "tcp_port p = \<lparr>sp_port = p, sp_protocol = Some ''TCP''\<rparr>"

definition udp_port :: "i32 \<Rightarrow> service_port" where
  "udp_port p = \<lparr>sp_port = p, sp_protocol = Some ''UDP''\<rparr>"

definition test_service_ports :: "service_port list" where
  "test_service_ports = [tcp_port 80, tcp_port 443, udp_port 53]"

definition test_mixed_protocol_ports :: "service_port list" where
  "test_mixed_protocol_ports = [tcp_port 80, tcp_port 443, udp_port 443]"

definition test_container_ports :: "container_port list" where
  "test_container_ports =
     [\<lparr>cp_container_port = 8080, cp_protocol = Some ''TCP''\<rparr>, \<lparr>cp_container_port = 9090, cp_protocol = Some ''TCP''\<rparr>]"

definition test_mixed_container_ports :: "container_port list" where
  "test_mixed_container_ports =
     [\<lparr>cp_container_port = 443, cp_protocol = Some ''TCP''\<rparr>, \<lparr>cp_container_port = 443, cp_protocol = Some ''UDP''\<rparr>]"

text \<open>\<open>assert_eq!(result.len(), n)\<close> and one \<open>assert_eq!(result[i], ..)\<close> each.\<close>

definition service_annotation_tests :: "(desired list \<times> desired list) list" where
  "service_annotation_tests =
     [(parse_service_annotation ''true'' test_service_ports, [(80, 80, Tcp), (443, 443, Tcp), (53, 53, Udp)]),
      (parse_service_annotation ''443,80'' test_service_ports, [(443, 443, Tcp), (80, 80, Tcp)]),
      (parse_service_annotation ''8080:80,8443:443'' test_service_ports, [(8080, 80, Tcp), (8443, 443, Tcp)]),
      (parse_service_annotation ''9999'' test_service_ports, [])]"

definition pod_annotation_tests :: "(desired list \<times> desired list) list" where
  "pod_annotation_tests =
     [(parse_pod_annotation ''true'' test_container_ports, [(8080, 8080, Tcp), (9090, 9090, Tcp)]),
      (parse_pod_annotation ''8080'' test_container_ports, [(8080, 8080, Tcp)]),
      (parse_pod_annotation ''80:8080'' test_container_ports, [(80, 8080, Tcp)])]"

definition mixed_protocol_tests :: "(desired list \<times> desired list) list" where
  "mixed_protocol_tests =
     [(parse_service_annotation ''true'' test_mixed_protocol_ports, [(80, 80, Tcp), (443, 443, Tcp), (443, 443, Udp)]),
      (parse_service_annotation ''443'' test_mixed_protocol_ports, [(443, 443, Tcp), (443, 443, Udp)]),
      (parse_service_annotation ''8443:443'' test_mixed_protocol_ports, [(8443, 443, Tcp), (8443, 443, Udp)]),
      (parse_pod_annotation ''443'' test_mixed_container_ports, [(443, 443, Tcp), (443, 443, Udp)])]"

definition pm_name_tests :: "(string \<times> string) list" where
  "pm_name_tests =
     [(pm_name_for_owner ''default'' ''traefik'' 443 Tcp, ''default-traefik-443-tcp''),
      (pm_name_for_owner ''default'' ''traefik'' 443 Udp, ''default-traefik-443-udp'')]"

definition passed :: "('a \<times> 'a) list \<Rightarrow> bool" where
  "passed ts = list_all (\<lambda>(got, expected). got = expected) ts"

lemmas port_evals =
  split_char_eval parse_port_list_def parse_part_def service_protocols_def container_protocols_def parse_k8s_protocol_def
  test_service_ports_def test_mixed_protocol_ports_def test_container_ports_def test_mixed_container_ports_def
  tcp_port_def udp_port_def str_eval Let_def

lemma service_annotation_tests_pass: "passed service_annotation_tests"
  by (simp add: passed_def service_annotation_tests_def parse_service_annotation_def port_evals)

lemma pod_annotation_tests_pass: "passed pod_annotation_tests"
  by (simp add: passed_def pod_annotation_tests_def parse_pod_annotation_def port_evals)

lemma mixed_protocol_tests_pass: "passed mixed_protocol_tests"
  by (simp add: passed_def mixed_protocol_tests_def parse_service_annotation_def parse_pod_annotation_def port_evals)

lemma pm_name_tests_pass: "passed pm_name_tests"
  by (simp add: passed_def pm_name_tests_def pm_name_for_owner_def str_eval)

section \<open>DNSEndpoints\<close>

text \<open>\<open>tests\<close> of \<open>src/controllers/dns_endpoint_ctrl.rs\<close>.\<close>

definition make_endpoint :: "string \<Rightarrow> string \<Rightarrow> string list \<Rightarrow> endpoint" where
  "make_endpoint dns_name record_type targets =
     \<lparr>ep_dns_name = dns_name, ep_record_type = record_type, ep_record_ttl = Some 60, ep_targets = targets\<rparr>"

definition make_dns_endpoint :: "(string \<rightharpoonup> string) option \<Rightarrow> endpoint list \<Rightarrow> dns_endpoint" where
  "make_dns_endpoint annotations endpoints =
     \<lparr>dns_metadata = \<lparr>meta_name = ''test'', meta_namespace = Some ''default'', meta_uid = None,
        meta_annotations = annotations, meta_owner_references = None,
        meta_finalizers = None, meta_deletion_timestamp = None\<rparr>, dns_spec = endpoints\<rparr>"

definition is_managed_tests :: "(bool \<times> bool) list" where
  "is_managed_tests =
     [(is_managed (make_dns_endpoint (Some [MANAGED_ANNOTATION \<mapsto> ''true'']) []), True),
      (is_managed (make_dns_endpoint None []), False),
      (is_managed (make_dns_endpoint (Some [MANAGED_ANNOTATION \<mapsto> ''false'']) []), False)]"

definition targets_correct_tests :: "(bool \<times> bool) list" where
  "targets_correct_tests =
     [(targets_correct [make_endpoint ''home.example.com'' ''A'' [''1.2.3.4'']] ''1.2.3.4'', True),
      (targets_correct [make_endpoint ''home.example.com'' ''A'' [''1.2.3.4'']] ''5.6.7.8'', False),
      (targets_correct [make_endpoint ''home.example.com'' ''A'' [''1.2.3.4''],
         make_endpoint ''home.example.com'' ''CNAME'' [''other.example.com'']] ''1.2.3.4'', True),
      (targets_correct [make_endpoint ''home.example.com'' ''A'' []] ''1.2.3.4'', False)]"

definition patched_spec_tests :: "(string list list \<times> string list list) list" where
  "patched_spec_tests =
     [(map ep_targets (build_patched_spec [make_endpoint ''home.example.com'' ''A'' [''1.2.3.4''],
         make_endpoint ''home.example.com'' ''CNAME'' [''other.example.com'']] ''5.6.7.8''), [[''5.6.7.8''], [''other.example.com'']]),
      (map ep_targets (build_patched_spec [make_endpoint ''a.example.com'' ''A'' [''1.1.1.1''],
         make_endpoint ''b.example.com'' ''A'' [''2.2.2.2'']] ''9.9.9.9''), [[''9.9.9.9''], [''9.9.9.9'']])]"

lemma dns_tests_pass: "passed is_managed_tests" "passed targets_correct_tests" "passed patched_spec_tests"
  by (simp_all add: passed_def is_managed_tests_def is_managed_def make_dns_endpoint_def annotation_def
      targets_correct_tests_def targets_correct_def make_endpoint_def patched_spec_tests_def build_patched_spec_def)

section \<open>Configuration, discovery, events and the SOAP client\<close>

text \<open>\<open>tests\<close> of \<open>src/config.rs\<close>, without that of \<open>detect_lan_ip\<close>, which asks the network.\<close>

definition test_config :: config where
  "test_config =
     \<lparr>cf_gateway_url = None, cf_notify_port = 9091, cf_metrics_port = 9090, cf_poll_interval_secs = 600,
      cf_poll_interval_fast_secs = 10, cf_gena_enabled = True, cf_log_level = ''warn'',
      cf_leader_election_namespace = ''upnp-controller'', cf_pod_ip = Some ''10.0.0.1'', cf_lan_ip = None\<rparr>"

definition callback_tests :: "(string \<times> string) list" where
  "callback_tests =
     [(notify_callback_url test_config, ''http://10.0.0.1:9091/notify''),
      (notify_callback_url (test_config\<lparr>cf_lan_ip := Some ''192.168.0.102''\<rparr>), ''http://192.168.0.102:9091/notify''),
      (notify_callback_url (test_config\<lparr>cf_pod_ip := None, cf_lan_ip := None\<rparr>), ''http://127.0.0.1:9091/notify'')]"

definition parse_host_tests :: "(string option \<times> string option) list" where
  "parse_host_tests =
     [(parse_host ''http://192.168.0.1:5000/rootDesc.xml'', Some ''192.168.0.1''),
      (parse_host ''http://10.0.0.1/desc.xml'', Some ''10.0.0.1''),
      (parse_host ''not-a-url'', None)]"

lemma config_tests_pass: "passed callback_tests" "passed parse_host_tests"
  by (simp_all add: passed_def callback_tests_def test_config_def notify_callback_url_def parse_host_tests_def parse_host_def
      split_char_eval str_eval Let_def)

text \<open>\<open>tests\<close> of \<open>src/upnp/discovery.rs\<close>; that of \<open>parse_root_desc\<close> needs the XML reader.\<close>

definition crlf :: string where
  "crlf = [CHR 0x0D, CHR 0x0A]"

definition base_url_tests :: "((string, string) outcome \<times> (string, string) outcome) list" where
  "base_url_tests = [(base_url_from ''http://192.168.0.1:5000/rootDesc.xml'', Ok ''http://192.168.0.1:5000'')]"

definition ssdp_tests :: "((string, string option) outcome \<times> (string, string option) outcome) list" where
  "ssdp_tests =
     [(parse_ssdp_location (''HTTP/1.1 200 OK'' @ crlf @ ''CACHE-CONTROL: max-age=1800'' @ crlf @
         ''ST: urn:schemas-upnp-org:device:InternetGatewayDevice:1'' @ crlf @
         ''LOCATION: http://192.168.0.1:5000/rootDesc.xml'' @ crlf @ ''SERVER: Linux UPnP/1.0'' @ crlf @ crlf),
       Ok (Some ''http://192.168.0.1:5000/rootDesc.xml'')),
      (parse_ssdp_location (''HTTP/1.1 200 OK'' @ crlf @ ''ST: something'' @ crlf @ crlf), Ok None),
      (parse_ssdp_location (''HTTP/1.1 200 OK'' @ crlf @ ''location: http://10.0.0.1:80/desc.xml'' @ crlf @ crlf),
       Ok (Some ''http://10.0.0.1:80/desc.xml''))]"

lemma base_url_tests_pass: "passed base_url_tests"
  by (simp add: passed_def base_url_tests_def base_url_from_def str_eval)

lemma ssdp_tests_pass: "passed ssdp_tests"
  by (simp add: passed_def ssdp_tests_def parse_ssdp_location_def crlf_def split_char_eval str_eval Let_def)


text \<open>The events that \<open>quick_xml\<close> reads from \<open>SAMPLE_ROOT_DESC\<close>, text trimmed.\<close>

definition text_element :: "string \<Rightarrow> string \<Rightarrow> xml_event list" where
  "text_element tag value = [XmlStart tag, XmlText (Some value), XmlEnd tag]"

definition sample_root_desc_events :: "xml_event list" where
  "sample_root_desc_events =
     [XmlOther, XmlStart ''root'', XmlStart ''device'', XmlStart ''deviceList'', XmlStart ''device'', XmlStart ''deviceList'',
      XmlStart ''device'', XmlStart ''serviceList'', XmlStart ''service''] @
     text_element ''serviceType'' ''urn:schemas-upnp-org:service:WANIPConnection:1'' @
     text_element ''serviceId'' ''urn:upnp-org:serviceId:WANIPConn1'' @
     text_element ''controlURL'' ''/upnp/control/WANIPConn1'' @
     text_element ''eventSubURL'' ''/upnp/event/WANIPConn1'' @
     [XmlEnd ''service'', XmlEnd ''serviceList'', XmlEnd ''device'', XmlEnd ''deviceList'', XmlEnd ''device'',
      XmlEnd ''deviceList'', XmlEnd ''device'', XmlEnd ''root'']"

definition root_desc_tests :: "(string option \<times> string option) list" where
  "root_desc_tests =
     [(case parse_root_desc (sample_env\<lparr>xml_events := (\<lambda>_. sample_root_desc_events)\<rparr>) '''' ''http://192.168.0.1:5000''
              ''http://192.168.0.1:5000/rootDesc.xml'' of
         Ok services \<Rightarrow> gs_wan_ip_control_url services | _ \<Rightarrow> None,
       Some ''http://192.168.0.1:5000/upnp/control/WANIPConn1'')]"

lemma root_desc_tests_pass: "passed root_desc_tests"
  by (simp add: passed_def root_desc_tests_def parse_root_desc_def sample_root_desc_events_def text_element_def
      record_service_def absolute_def no_services_def str_eval Let_def)

text \<open>\<open>tests\<close> of \<open>src/upnp/eventing.rs\<close> and \<open>src/upnp/port_mapping.rs\<close>.\<close>

definition nl :: string where
  "nl = [CHR 0x0A]"

definition notify_tests :: "((string, string option) outcome \<times> (string, string option) outcome) list" where
  "notify_tests =
     [(parse_notify_body (''<?xml version=\"1.0\"?>'' @ nl @
         ''<e:propertyset xmlns:e=\"urn:schemas-upnp-org:event-1-0\">'' @ nl @ ''  <e:property>'' @ nl @
         ''    <NewExternalIPAddress>75.169.255.229</NewExternalIPAddress>'' @ nl @ ''  </e:property>'' @ nl @ ''</e:propertyset>''),
       Ok (Some ''75.169.255.229'')),
      (parse_notify_body ''<e:propertyset><e:property><SomeOtherProp>value</SomeOtherProp></e:property></e:propertyset>'', Ok None)]"

definition external_ip_tests :: "((string, string) outcome \<times> (string, string) outcome) list" where
  "external_ip_tests =
     [(parse_external_ip (''<s:Envelope><s:Body><u:GetExternalIPAddressResponse>'' @
         ''<NewExternalIPAddress>75.169.255.229</NewExternalIPAddress></u:GetExternalIPAddressResponse></s:Body></s:Envelope>''),
       Ok ''75.169.255.229'')]"

definition extract_tests :: "(bool \<times> bool) list" where
  "extract_tests =
     [(extract_xml_value ''<root><Foo>bar</Foo></root>'' ''Foo'' = Ok ''bar'', True),
      (\<exists>e. extract_xml_value ''<root><Foo>bar</Foo></root>'' ''Missing'' = Err e, True)]"

lemma notify_tests_pass: "passed notify_tests"
  by (simp add: passed_def notify_tests_def parse_notify_body_def notify_tag_def open_tag_def close_tag_def nl_def str_eval Let_def)

lemma soap_tests_pass: "passed external_ip_tests" "passed extract_tests"
  by (simp_all add: passed_def external_ip_tests_def extract_tests_def parse_external_ip_def extract_xml_value_def
      open_tag_def close_tag_def str_eval Let_def)


text \<open>\<open>tests\<close> of \<open>src/crds\<close>.\<close>

definition protocol_tests :: "(string \<times> string) list" where
  "protocol_tests = [(protocol_to_string Tcp, ''TCP''), (protocol_to_string Udp, ''UDP'')]"

definition pm_status_tests :: "(bool \<times> bool) list" where
  "pm_status_tests =
     (let status = port_mapping_status_default
      in [(pms_active status, False), (pms_external_ip status = None, True), (pms_conditions status = [], True)])"

definition gateway_status_tests :: "(bool \<times> bool) list" where
  "gateway_status_tests =
     (let status = gateway_status_status_default
      in [(gws_ready status, False), (gws_external_ip status = None, True), (gws_subscription_id status = None, True)])"

lemma crd_tests_pass: "passed protocol_tests" "passed pm_status_tests" "passed gateway_status_tests"
  by (simp_all add: passed_def protocol_tests_def pm_status_tests_def gateway_status_tests_def
      port_mapping_status_default_def gateway_status_status_default_def Let_def)

section \<open>All of them\<close>

text \<open>
  All assertions of the repository's unit tests of pure functions hold of the model: the parsing of
  the annotation and the names of PortMappings, the checks and patches of DNSEndpoints, the callback
  URL and the host of a URL, the base URL, the SSDP responses and the root description, and the
  addresses read from notifications and SOAP responses.
\<close>

lemma repository_unit_tests_hold:
  "passed service_annotation_tests \<and> passed pod_annotation_tests \<and> passed mixed_protocol_tests \<and> passed pm_name_tests \<and>
   passed is_managed_tests \<and> passed targets_correct_tests \<and> passed patched_spec_tests \<and>
   passed callback_tests \<and> passed parse_host_tests \<and>
   passed base_url_tests \<and> passed ssdp_tests \<and> passed root_desc_tests \<and>
   passed notify_tests \<and> passed external_ip_tests \<and> passed extract_tests \<and>
   passed protocol_tests \<and> passed pm_status_tests \<and> passed gateway_status_tests"
  by (intro conjI crd_tests_pass service_annotation_tests_pass pod_annotation_tests_pass mixed_protocol_tests_pass pm_name_tests_pass
      dns_tests_pass config_tests_pass base_url_tests_pass ssdp_tests_pass root_desc_tests_pass notify_tests_pass soap_tests_pass)

end
