(* ===== verification/Proxy_Tests.thy ===== *)
theory Proxy_Tests
  imports Proxy_Planes
begin

text \<open>
  The tests of \<open>src/proxy.rs\<close>, on the manager with its data planes: a round trip through a TCP and
  through a UDP proxy to an echo server, and the restart of a proxy when its target changes. The
  echo server and the client are the events of the sockets.
\<close>

section \<open>Echo servers\<close>

text \<open>A first connection that sends the payload, which comes back; a first client, likewise.\<close>

definition tcp_echo :: "nat \<Rightarrow> string \<Rightarrow> proxies_event list" where
  "tcp_echo i payload =
     map (OnTcp i) [Accepted, OnConn 0 (Connected True),
       OnConn 0 (Arrived Inbound payload), OnConn 0 (Polled ClientToServer (payload, False, payload, Pending)),
       OnConn 0 (Arrived Outbound payload), OnConn 0 (Polled ServerToClient (payload, False, payload, Pending))]"

definition udp_echo :: "nat \<Rightarrow> socket_addr \<Rightarrow> socket_addr \<Rightarrow> string \<Rightarrow> proxies_event list" where
  "udp_echo i client echo payload =
     map (OnUdp i) [Datagram client payload, Locked True, SendDone True, Response 0 echo payload True]"

text \<open>What the first client of a data plane has received.\<close>

fun client_received :: "plane \<Rightarrow> string" where
  "client_received (TcpPlane p) = sk_written (tc_stream (tp_conns p ! 0) Inbound)"
| "client_received (UdpPlane p) = concat (map snd (ud_replied p))"

definition passes :: "proxies option \<Rightarrow> (proxies \<Rightarrow> bool) \<Rightarrow> bool" where
  "passes r P = (case r of None \<Rightarrow> False | Some s \<Rightarrow> P s)"

definition port_of :: "proxies \<Rightarrow> string \<Rightarrow> u16 option" where
  "port_of s key = get_port (pl_manager s) key"

section \<open>The tests\<close>

definition test_tcp_proxy_round_trip :: "os_bind \<Rightarrow> string \<Rightarrow> bool" where
  "test_tcp_proxy_round_trip bnd echo_addr =
     (let ensure = Manage (EnsureOp ''test/tcp'' echo_addr Tcp);
          payload = ''hello from TCP test''
      in passes (proxies_run bnd (ensure # tcp_echo 0 payload) (proxies_new ''127.0.0.1'')) (\<lambda>s.
           client_received (pl_planes s ! 0) = payload \<and> port_of s ''test/tcp'' \<noteq> None \<and>
           passes (proxies_run bnd [ensure] s) (\<lambda>same. port_of same ''test/tcp'' = port_of s ''test/tcp'' \<and>
           passes (proxies_run bnd [Manage (StopOp ''test/tcp'')] same) (\<lambda>v. port_of v ''test/tcp'' = None))))"

definition test_udp_proxy_round_trip :: "os_bind \<Rightarrow> string \<Rightarrow> socket_addr \<Rightarrow> socket_addr \<Rightarrow> bool" where
  "test_udp_proxy_round_trip bnd echo_addr echo client =
     (let ensure = Manage (EnsureOp ''test/udp'' echo_addr Udp);
          payload = ''hello from UDP test''
      in passes (proxies_run bnd (ensure # udp_echo 0 client echo payload) (proxies_new ''127.0.0.1'')) (\<lambda>s.
           client_received (pl_planes s ! 0) = payload \<and> port_of s ''test/udp'' \<noteq> None \<and>
           passes (proxies_run bnd [ensure] s) (\<lambda>same. port_of same ''test/udp'' = port_of s ''test/udp'' \<and>
           passes (proxies_run bnd [Manage (StopOp ''test/udp'')] same) (\<lambda>v. port_of v ''test/udp'' = None))))"

definition test_proxy_restarts_on_target_change :: "os_bind \<Rightarrow> string \<Rightarrow> string \<Rightarrow> bool" where
  "test_proxy_restarts_on_target_change bnd echo1 echo2 =
     passes (proxies_run bnd [Manage (EnsureOp ''test/change'' echo1 Tcp)] (proxies_new ''127.0.0.1'')) (\<lambda>s.
       passes (proxies_run bnd (Manage (EnsureOp ''test/change'' echo2 Tcp) # tcp_echo 1 ''test'') s) (\<lambda>v.
         port_of s ''test/change'' \<noteq> port_of v ''test/change'' \<and> client_received (pl_planes v ! 1) = ''test''))"

lemmas test_defs = passes_def port_of_def proxies_new_def run_ensure_other same_proxy_def run_restart_proxy
  next_port_bind_def new_manager_def remove_handle_def started_def count_bind_def live_sockets_def unstopped_def Let_def
  tcp_echo_def udp_echo_def plane_for_def tcp_new_def conn_new_def no_traffic_def upd_stream_def is_open_def stream_gives_def get_port_def
  udp_new_def on_datagram_def route_datagram_def upstream_for_def spawn_relay_def forwarded_datagram_def
  relay_response_def relaying_def signal_def

lemma run_ensure_again:
  "px_proxies m key = Some \<lparr>ph_local_port = port, ph_target = target, ph_protocol = proto, ph_shutdown = c\<rparr> \<Longrightarrow>
    run_state (ensure_proxy bnd key target proto) m = (Ok port, m)"
  by (rule run_ensure_same) (simp add: same_proxy_def)

lemma tcp_test_passes: "test_tcp_proxy_round_trip next_port_bind echo"
  by (simp add: test_tcp_proxy_round_trip_def test_defs run_ensure_again)

lemma udp_test_passes:
  "parse_socket_addr echo_addr = Some echo \<Longrightarrow> test_udp_proxy_round_trip next_port_bind echo_addr echo client"
  by (simp add: test_udp_proxy_round_trip_def test_defs run_ensure_again)

lemma restart_test_passes: "echo1 \<noteq> echo2 \<Longrightarrow> test_proxy_restarts_on_target_change next_port_bind echo1 echo2"
  by (simp add: test_proxy_restarts_on_target_change_def test_defs run_ensure_again)

text \<open>All three hold, with any echo servers, if the operating system gives a new port to every bind.\<close>

lemma proxy_tests_pass:
  assumes "parse_socket_addr echo_addr = Some echo" and "echo1 \<noteq> echo2"
  shows "test_tcp_proxy_round_trip next_port_bind echo_addr \<and>
    test_udp_proxy_round_trip next_port_bind echo_addr echo client \<and>
    test_proxy_restarts_on_target_change next_port_bind echo1 echo2"
  using assms by (simp add: tcp_test_passes udp_test_passes restart_test_passes)

end
