(* ===== verification/Spec2Isabelle.thy ===== *)
theory Spec2Isabelle
  imports Proxy_Facts Upnp_Facts Annotations Discovery_Facts System_Facts Forwarding Lease_Timeline
    Object_Table End_To_End Visit_Calls Json_Facts Finalizer_Life Address_Calls Dns_Run Node_Annotation Unit_Tests Proxy_Tests
begin

text \<open>
  A verification development for \<open>upnp-controller\<close>, a Kubernetes controller that programs port
  mappings into a UPnP router, publishes the router's address, and forwards ports to Services and
  Pods through proxies of its own.

  \<^bold>\<open>The program.\<close> \<open>src/main.rs\<close> finds the router (\<open>upnp/discovery.rs\<close>), reads its external address
  (\<open>upnp/port_mapping.rs\<close>), subscribes to its events (\<open>upnp/eventing.rs\<close>) and then runs, side by side,
  a poll of the address, an HTTP server for the router's notifications, and five controllers: of
  PortMappings and of annotated Services and Pods (\<open>controllers/port_mapping_ctrl.rs\<close>), of the
  GatewayStatus singleton (\<open>gateway_ctrl.rs\<close>) and of DNSEndpoints (\<open>dns_endpoint_ctrl.rs\<close>). They
  share the proxy manager (\<open>proxy.rs\<close>), the eventing state and the metrics.

  \<^bold>\<open>How it is modelled.\<close> A handler is a function in the state monad of the HOL library over the
  record \<open>world\<close> (theory \<open>World\<close>), which has the shared in-memory state and the list of the calls
  made to the outside so far. The outside (router, API server, clocks, operating system, XML reader)
  is the parameter \<open>env\<close>, a record of answer functions of the history and the call; no
  theorem fixes one, but for named hypotheses: \<open>chrono_ok\<close> (arithmetic of
  \<open>chrono\<close>), \<open>fresh_binds\<close> (a socket bound to port 0 gets a port of its own),
  \<open>web_ok\<close> (the routing of \<open>axum\<close>), \<open>serde_ok\<close> and \<open>merge_ok\<close> (names in
  JSON, merge patches), \<open>finalizer_ok\<close> (the finalizer
  of \<open>kube\<close>), \<open>copies\<close> (the copies of \<open>tokio\<close>, of which nothing is defined: what
  they read, write and return are events), \<open>tended\<close> (renewals that are granted and written),
  \<open>plain_pm\<close> (no opening angle bracket in what is put into a request
  without escaping), \<open>apart\<close> (different objects have PortMappings of different names) and statements of
  what was answered. The table of a router and the objects of the API server are readings of the
  confirmed calls. Errors and panics are values (\<open>outcome\<close>); a slice off a character
  boundary and \<open>&s[a..b]\<close> with \<open>b < a\<close> are panics. Strings are the bytes of
  the UTF-8 string; ports and leases are words; points in time are nanoseconds; the
  metrics, \<open>f64\<close> in the source, are integers, which is the same up to 2 ^ 53.

  \<^bold>\<open>What it means that a proxy runs.\<close> The table of the manager has a proxy until it is stopped or replaced.
  The tasks \<open>unstopped\<close> are those that have not been told to stop; they are the ones of the table
  when no call is under way. A task can leave its loop by itself, on an error of its socket, and is then
  still in the table and among \<open>unstopped\<close>. Which tasks are in their loop is known in
  \<open>Proxy_Planes\<close>, and used in \<open>Forwarding\<close>.

  \<^bold>\<open>The theories\<close>, in the order they build on each other:

  \<^item> \<open>Rust_Prelude\<close>: results, the \<open>?\<close> operator, weakest preconditions (\<open>wp_simps\<close>), and the locale
    \<open>frame\<close> of relations that every program keeps that is built from parts which keep them.
  \<^item> \<open>Rust_Str\<close>, \<open>Rust_Str_Facts\<close>: \<open>find\<close>, \<open>split\<close>, \<open>lines\<close>, \<open>trim\<close>, \<open>parse\<close>, slices and \<open>Display\<close> of
    numbers, with their laws.
  \<^item> \<open>Crds\<close>: \<open>src/crds\<close> and the fields read of Kubernetes objects.
  \<^item> \<open>Proxy\<close>, \<open>Proxy_Interface\<close>, \<open>Proxy_Facts\<close>: the proxy manager; its contract as the locale
    \<open>proxy_service\<close>, and the locale \<open>publishing_client\<close> of the loop that starts proxies and publishes
    their ports; the invariant that ties the table to the tasks not told to stop, and the
    interpretation.
  \<^item> \<open>Event_Systems\<close>: systems that answer to events, their runs, and the locales for invariants of
    runs and for refinement of a specification by a view of the state.
  \<^item> \<open>Proxy_Calls\<close>: calls of the proxy manager that overlap, one step for each section in which a call
    holds the lock; no interleaving leaks a proxy, but two calls can return different ports.
  \<^item> \<open>Socket_Addr\<close>, \<open>Udp_Relay\<close>, \<open>Udp_Facts\<close>: the UDP data plane, \<open>run_udp_proxy\<close> with its relay tasks;
    its refinement of a table of sessions whose sends and deliveries are the recorded ones, isolation of
    clients, order, loss and expiry.
  \<^item> \<open>Tcp_Relay\<close>: the TCP data plane, \<open>run_tcp_proxy\<close> and \<open>proxy_tcp_connection\<close>, with the two sockets of
    a connection and the halves each copy is given; faithful streams between the two peers.
  \<^item> \<open>Proxy_Planes\<close>: the manager together with the data planes of its tasks.
  \<^item> \<open>World\<close>, \<open>Sample_Env\<close>: the process and its surroundings; a concrete \<open>env\<close> for the witnesses.
  \<^item> \<open>Upnp_Client\<close>, \<open>Upnp_Facts\<close>: the SOAP client; extraction by string search as lookup, round trip
    of requests, panics, listing.
  \<^item> \<open>Annotations\<close>: the port-forward annotation and the names of PortMappings.
  \<^item> \<open>Controller\<close>: actions, errors, time, and the locale \<open>level_triggered\<close> of reconcilers that patch
    an object only if it does not show a desired value.
  \<^item> \<open>Pm_Reconcile\<close>, \<open>Pm_Facts\<close>: the PortMapping reconciler; waiting, renewal in time, outcomes.
  \<^item> \<open>Watchers\<close>, \<open>Watchers_Facts\<close>: the Service and Pod reconcilers; both proxy locales interpreted on
    the process, live PortMappings, deletion of stale ones, steady state; the locale \<open>owned_frame\<close> of what a
    visit keeps, with what it writes and which calls it makes to the manager as interpretations.
  \<^item> \<open>Forwarding\<close>: from a visit through the table of proxies to the tasks that serve what it has written.
  \<^item> \<open>Dns_Endpoint\<close>, \<open>Gateway\<close>: the other two controllers, with interpretations of \<open>level_triggered\<close>.
  \<^item> \<open>Dns_Run\<close>: the task around the DNSEndpoint controller, \<open>run\<close> and \<open>wait_for_crd\<close>.
  \<^item> \<open>Node_Annotation\<close>: \<open>node.rs\<close>, which nothing calls.
  \<^item> \<open>Eventing\<close>, \<open>Discovery\<close>, \<open>Discovery_Facts\<close>, \<open>Config_Model\<close>: events, discovery, configuration.
  \<^item> \<open>Main_Loop\<close>, \<open>System_Facts\<close>: start, poll, notification, shutdown; the process as the inductive
    relation \<open>sys_step\<close> over events in any order; invariants as interpretations of \<open>system_frame\<close>.
  \<^item> \<open>Http_Servers\<close>: the routes of the two servers and their start; \<open>axum\<close> is the parameter \<open>web\<close>.
    \<open>Process_Life\<close>: the tasks and what ends them, requests, signals and the exit, as a refinement of
    \<open>sys_step\<close>. \<open>Address_Calls\<close>: polls, notifications and visits to DNSEndpoints that overlap, section by
    section; uninterrupted they are the handlers.
  \<^item> \<open>Router_Table\<close>: the table of a router that does what it confirms, read off the calls; the process
    refines operations on it. \<open>Lease_Timeline\<close>: PortMappings whose renewals succeed never lapse, and
    after a renewal that is refused they do.
    \<open>Finalizer_Life\<close>: a PortMapping from creation to deletion with the finalizer of \<open>kube\<close> as a parameter;
    it does not go before its mapping, unless the router refuses to delete it.
  \<^item> \<open>Object_Table\<close>: the PortMappings of the API server, read off the calls; a visit makes those of an
    object the ones its annotation asks for. Proxies outlive the objects they were started for.
    \<open>Visit_Calls\<close>: visits to Services and Pods that overlap; what they write is live, and bounded after the
    flag of the shutdown. \<open>End_To_End\<close>: from the annotation through the PortMapping to the port of the router and the proxy.
  \<^item> \<open>Json_Form\<close>, \<open>Json_Facts\<close>: the resources and the bodies of the patches as JSON, under their \<open>serde\<close>
    attributes; the locale \<open>json_codec\<close> of a writer and a reader, with the fields and the structs as
    interpretations. The naming of \<open>serde\<close> and the merge of the API server are parameters.
  \<^item> \<open>Unit_Tests\<close>, \<open>Proxy_Tests\<close>: the repository's own tests, which hold of the model.
  \<^item> this theory: the property that spans the controllers.

  \<^bold>\<open>Fuel.\<close> Only \<open>list_port_mappings\<close> has fuel, one unit per request, since a router that always has
  a next entry keeps it going; \<open>n + 1\<close> units are enough for \<open>n\<close> entries, which is proved.

  \<^bold>\<open>What is left out.\<close> Log lines; the connection to Kubernetes; the runtime of \<open>kube\<close> (watch streams,
  finalizer, requeueing), which calls the reconcilers; the text format of the metrics; the text of
  JSON, which is a tree here. In \<open>sys_step\<close> a handler runs to its end in one step. Interleavings inside of
  handlers are the subject of \<open>Proxy_Calls\<close> for the table of proxies, of \<open>Visit_Calls\<close> for the watchers and
  the shutdown (with \<open>ensure_proxy\<close> as one section), and of \<open>Address_Calls\<close> for the address; a visit of the
  PortMapping reconciler is not split, as it shares nothing but counters. Additions of time that \<open>chrono\<close> cannot
  represent are not modelled as panics.
\<close>

section \<open>Pace\<close>

lemma paced_forward_ports:
  assumes "run_state (forward_ports env ow owned ds) w = (r, w')"
  shows "paced r"
  using assms
proof (cases rule: forward_ports_cases)
  case (early q)
  then show ?thesis by (cases r) auto
qed simp

lemma paced_apply: "paced (fst (run_state (reconcile_apply env upnp ns pm) w))"
proof (cases "due env pm w")
  case False
  then have "lease_of pm \<noteq> None" by (auto simp: due_def split: option.splits)
  with False show ?thesis
    by (auto simp: run_reconcile_apply_wait due_def RENEWAL_BUFFER_SECS_def split: option.splits)
next
  case True
  have "wp (record_success env upnp ns name lease) (\<lambda>r _. paced r) v" for name lease v
    by (simp add: record_success_def Let_def wp_simps requeue_after_def le_max_iff_disj
        split: outcome.splits option.splits)
  moreover have "wp (record_failure env ns name e) (\<lambda>r _. paced r) v" for name e v
    by (simp add: record_failure_def wp_simps split: outcome.splits)
  ultimately have "wp (reconcile_apply env upnp ns pm) (\<lambda>r _. paced r) w"
    by (simp add: wp_reconcile_apply_due [OF True] Let_def split: outcome.splits)
  then show ?thesis by (simp add: wp_run)
qed

lemma paced_service: "paced (fst (run_state (reconcile_service env svc) w))"
proof -
  obtain r w' where run: "run_state (reconcile_service env svc) w = (r, w')" by (cases "run_state (reconcile_service env svc) w")
  from run show ?thesis
  proof (cases rule: reconcile_service_forwards)
    case quiet
    then show ?thesis using run by auto
  next
    case (forward items)
    from paced_forward_ports [OF forward(2)] show ?thesis by (simp add: run)
  qed
qed

lemma paced_pod: "paced (fst (run_state (reconcile_pod env p) w))"
proof -
  obtain r w' where run: "run_state (reconcile_pod env p) w = (r, w')" by (cases "run_state (reconcile_pod env p) w")
  from run show ?thesis
  proof (cases rule: reconcile_pod_forwards)
    case quiet
    then show ?thesis using run by auto
  next
    case (forward items ip)
    from paced_forward_ports [OF forward(3)] show ?thesis by (simp add: run)
  qed
qed

text \<open>
  C38. No reconciler makes the runtime spin: whatever the answers of the other side, each of them asks
  for the next change or for a visit at least a second later, and so do the error policies.
\<close>

theorem reconcilers_are_paced:
  "paced (fst (run_state (reconcile_apply env upnp ns pm) w)) \<and>
   paced (fst (run_state (reconcile_cleanup env upnp pm) w)) \<and>
   paced (fst (run_state (reconcile_service env svc) w)) \<and>
   paced (fst (run_state (reconcile_pod env p) w)) \<and>
   paced (fst (run_state (gateway_reconcile env ctx gs) w)) \<and>
   paced (fst (run_state (dns_reconcile env ep) w)) \<and>
   [error_policy pm e, service_error_policy svc e, pod_error_policy p e,
      gateway_error_policy gs k, dns_error_policy ep k] = replicate 5 (Requeue 30)"
proof -
  have "wp (reconcile_cleanup env upnp pm) (\<lambda>r _. paced r) w"
    by (simp add: reconcile_cleanup_def Let_def wp_simps split: outcome.splits)
  moreover have "paced (fst (run_state (dns_reconcile env ep) w))"
    by (auto simp: dns_reconcile_def split: option.splits)
  ultimately show ?thesis
    using paced_apply paced_service paced_pod
    by (simp add: wp_run run_gateway_reconcile error_policy_def service_error_policy_def pod_error_policy_def
        gateway_error_policy_def dns_error_policy_def numeral_eq_Suc)
qed

end
